(* ===== verification/Prelude.thy ===== *)
theory Prelude
  imports Complex_Main "HOL-Library.Monad_Syntax"
begin

text \<open>
  Shared vocabulary of the AmpHive development.

  The backend keeps its state in a relational database.  A table is a list of row
  records in insertion order; a query is a \<open>filter\<close>, an \<open>UPDATE ... WHERE\<close> is
  \<open>update_where\<close>, a primary-key read is \<open>row_by\<close>, an aggregate is \<open>sum_where\<close> or
  \<open>count_where\<close>, and a serial primary key is \<open>fresh_id\<close>.  Errors are values of
  \<open>failure\<close>; a request handler returns \<open>failure + 'a\<close>.  The transition-system locale
  at the end carries every reachability argument of the development.
\<close>

subsection \<open>Types shared by the components\<close>

text \<open>
  Money is the number of hundredths of a coin in a \<open>NUMERIC(12,2)\<close> column, a timestamp
  is a number of microseconds since the epoch (UTC), and a float is the rational value
  of a finite binary64 number (see theory \<open>Numerics\<close> for its rounding).
\<close>

type_synonym money = int
type_synonym timestamp = int
type_synonym pyfloat = rat

datatype failure =
    HTTPException int string
  | IntegrityError
  | NoResultFound
  | MultipleResultsFound
  | NumericOverflow
  | DecimalError
  | IndexError
  | SessionNotInvoiceable string

type_synonym 'a response = "failure + 'a"

named_theorems table_simps \<open>rewrite rules for rows, queries and updates\<close>
named_theorems row_intros \<open>introduction rules for invariants of tables\<close>

subsection \<open>Tables\<close>

definition row_by :: "('r \<Rightarrow> 'k) \<Rightarrow> 'k \<Rightarrow> 'r list \<Rightarrow> 'r option" where
  "row_by key k rows = find (\<lambda>r. key r = k) rows"

definition update_where :: "('r \<Rightarrow> bool) \<Rightarrow> ('r \<Rightarrow> 'r) \<Rightarrow> 'r list \<Rightarrow> 'r list" where
  "update_where P f rows = map (\<lambda>r. if P r then f r else r) rows"

definition sum_where :: "('r \<Rightarrow> int) \<Rightarrow> ('r \<Rightarrow> bool) \<Rightarrow> 'r list \<Rightarrow> int" where
  "sum_where f P rows = sum_list (map f (filter P rows))"

definition count_where :: "('r \<Rightarrow> bool) \<Rightarrow> 'r list \<Rightarrow> nat" where
  "count_where P rows = length (filter P rows)"

definition exists_row :: "('r \<Rightarrow> bool) \<Rightarrow> 'r list \<Rightarrow> bool" where
  "exists_row P rows = list_ex P rows"

definition fresh_id :: "('r \<Rightarrow> int) \<Rightarrow> 'r list \<Rightarrow> int" where
  "fresh_id key rows = fold (\<lambda>r m. max (key r) m) rows 0 + 1"

text \<open>\<open>ORDER BY key LIMIT 1\<close>: the first row of least key.\<close>

fun min_row :: "('r \<Rightarrow> 'k::linorder) \<Rightarrow> 'r list \<Rightarrow> 'r option" where
  "min_row key [] = None"
| "min_row key (r # rs) =
     (case min_row key rs of None \<Rightarrow> Some r | Some s \<Rightarrow> Some (if key s < key r then s else r))"

lemma row_by_Nil [simp, table_simps]: "row_by key k [] = None"
  by (simp add: row_by_def)

lemma row_by_Cons [table_simps]:
  "row_by key k (r # rs) = (if key r = k then Some r else row_by key k rs)"
  by (simp add: row_by_def)

lemma row_by_SomeD: "row_by key k rows = Some r \<Longrightarrow> r \<in> set rows \<and> key r = k"
  by (induction rows) (auto simp: row_by_Cons split: if_splits)

lemma find_SomeD: "find P xs = Some x \<Longrightarrow> x \<in> set xs \<and> P x"
  by (auto simp: find_Some_iff)

lemma row_by_None_iff: "row_by key k rows = None \<longleftrightarrow> k \<notin> key ` set rows"
  by (induction rows) (auto simp: row_by_Cons)

lemma row_by_in_set:
  "distinct (map key rows) \<Longrightarrow> r \<in> set rows \<Longrightarrow> row_by key (key r) rows = Some r"
  by (induction rows) (auto simp: row_by_Cons)

lemma distinct_key_eq:
  "distinct (map key rows) \<Longrightarrow> x \<in> set rows \<Longrightarrow> y \<in> set rows \<Longrightarrow> key x = key y \<Longrightarrow> x = y"
  by (auto simp: distinct_map dest: inj_onD)

lemma row_by_append:
  "row_by key k (xs @ ys) = (case row_by key k xs of Some r \<Rightarrow> Some r | None \<Rightarrow> row_by key k ys)"
  by (induction xs) (auto simp: row_by_Cons)

lemma update_where_Nil [simp, table_simps]: "update_where P f [] = []"
  by (simp add: update_where_def)

lemma update_where_Cons [simp, table_simps]:
  "update_where P f (r # rs) = (if P r then f r else r) # update_where P f rs"
  by (simp add: update_where_def)

lemma update_where_append [simp, table_simps]:
  "update_where P f (xs @ ys) = update_where P f xs @ update_where P f ys"
  by (simp add: update_where_def)

lemma length_update_where [simp]: "length (update_where P f rows) = length rows"
  by (simp add: update_where_def)

lemma set_update_where: "set (update_where P f rows) = (\<lambda>r. if P r then f r else r) ` set rows"
  by (simp add: update_where_def)

lemma map_update_where:
  "(\<And>r. P r \<Longrightarrow> g (f r) = g r) \<Longrightarrow> map g (update_where P f rows) = map g rows"
  by (simp add: update_where_def)

lemma update_where_id: "(\<And>r. r \<in> set rows \<Longrightarrow> \<not> P r) \<Longrightarrow> update_where P f rows = rows"
  by (induction rows) auto

lemma row_by_update_where:
  assumes "\<And>r. P r \<Longrightarrow> key (f r) = key r"
  shows "row_by key k (update_where P f rows) =
           map_option (\<lambda>r. if P r then f r else r) (row_by key k rows)"
  using assms by (induction rows) (auto simp: row_by_Cons)

lemma sum_where_Nil [simp, table_simps]: "sum_where f P [] = 0"
  by (simp add: sum_where_def)

lemma sum_where_Cons [simp, table_simps]:
  "sum_where f P (r # rs) = (if P r then f r else 0) + sum_where f P rs"
  by (simp add: sum_where_def)

lemma sum_where_append [simp, table_simps]:
  "sum_where f P (xs @ ys) = sum_where f P xs + sum_where f P ys"
  by (simp add: sum_where_def)

lemma sum_where_cong:
  assumes "\<And>r. r \<in> set rows \<Longrightarrow> (if P r then f r else 0) = (if Q r then g r else 0)"
  shows "sum_where f P rows = sum_where g Q rows"
  using assms by (induction rows) fastforce+

lemma sum_where_nonneg:
  "(\<And>r. r \<in> set rows \<Longrightarrow> P r \<Longrightarrow> 0 \<le> f r) \<Longrightarrow> 0 \<le> sum_where f P rows"
  by (induction rows) (auto simp: add_nonneg_nonneg)

lemma sum_where_mono:
  assumes "\<And>r. r \<in> set rows \<Longrightarrow> (if P r then f r else 0) \<le> (if Q r then g r else 0)"
  shows "sum_where f P rows \<le> sum_where g Q rows"
  using assms by (induction rows) (fastforce intro: add_mono)+

lemma sum_where_member_le:
  assumes "r \<in> set rows" "P r" "\<And>r. r \<in> set rows \<Longrightarrow> P r \<Longrightarrow> 0 \<le> f r"
  shows "f r \<le> sum_where f P rows"
  using assms
proof (induction rows)
  case (Cons a rows)
  have nn: "0 \<le> sum_where f P rows" using Cons.prems(3) by (intro sum_where_nonneg) auto
  show ?case
  proof (cases "r = a")
    case True
    with Cons.prems(2) nn show ?thesis by simp
  next
    case False
    with Cons have "f r \<le> sum_where f P rows" by auto
    with Cons.prems(3) [of a] show ?thesis by auto
  qed
qed simp

text \<open>Updating the one row of a key changes an aggregate by that row's change.\<close>

lemma sum_where_update_key:
  assumes "distinct (map key rows)" "row_by key k rows = Some r"
  shows "sum_where f P (update_where (\<lambda>r. key r = k) g rows) =
           sum_where f P rows - (if P r then f r else 0) + (if P (g r) then f (g r) else 0)"
  using assms
proof (induction rows)
  case (Cons a rows)
  show ?case
  proof (cases "key a = k")
    case True
    with Cons.prems(1) have "k \<notin> key ` set rows" by auto
    then have "update_where (\<lambda>r. key r = k) g rows = rows"
      by (intro update_where_id) auto
    with True Cons.prems show ?thesis by (simp add: row_by_Cons)
  next
    case False
    with Cons show ?thesis by (simp add: row_by_Cons)
  qed
qed simp

lemma count_where_Nil [simp, table_simps]: "count_where P [] = 0"
  by (simp add: count_where_def)

lemma count_where_Cons [simp, table_simps]:
  "count_where P (r # rs) = (if P r then 1 else 0) + count_where P rs"
  by (simp add: count_where_def)

lemma count_where_append [simp, table_simps]:
  "count_where P (xs @ ys) = count_where P xs + count_where P ys"
  by (simp add: count_where_def)

lemma count_where_sum: "int (count_where P rows) = sum_where (\<lambda>_. 1) P rows"
  by (induction rows) auto

lemma count_where_cong:
  "(\<And>r. r \<in> set rows \<Longrightarrow> P r = Q r) \<Longrightarrow> count_where P rows = count_where Q rows"
  by (induction rows) auto

lemma count_where_mono:
  "(\<And>r. r \<in> set rows \<Longrightarrow> P r \<Longrightarrow> Q r) \<Longrightarrow> count_where P rows \<le> count_where Q rows"
  by (induction rows) (auto simp: le_SucI)

lemma count_where_update_le:
  assumes "\<And>r. P r \<Longrightarrow> Q (f r) \<Longrightarrow> Q r"
  shows "count_where Q (update_where P f rows) \<le> count_where Q rows"
  using assms by (induction rows) (auto simp: le_SucI)

lemma count_where_0_iff: "count_where P rows = 0 \<longleftrightarrow> (\<forall>r \<in> set rows. \<not> P r)"
  by (auto simp: count_where_def filter_empty_conv)

lemma exists_row_iff [table_simps]: "exists_row P rows \<longleftrightarrow> (\<exists>r \<in> set rows. P r)"
  by (simp add: exists_row_def list_ex_iff)

lemma fold_max_ge: "m \<le> fold (\<lambda>r m. max (key r) m) rows (m :: int)"
proof (induction rows arbitrary: m)
  case (Cons a rows)
  from Cons [of "max (key a) m"] show ?case by simp
qed simp

lemma fold_max_member:
  "r \<in> set rows \<Longrightarrow> key r \<le> fold (\<lambda>r m. max (key r) m) rows (m :: int)"
proof (induction rows arbitrary: m)
  case (Cons a rows)
  then show ?case using fold_max_ge [of "max (key a) m" key rows] by fastforce
qed simp

lemma fresh_id_greater: "r \<in> set rows \<Longrightarrow> key r < fresh_id key rows"
  using fold_max_member [of r rows key 0] by (simp add: fresh_id_def)

lemma fresh_id_notin [simp]: "fresh_id key rows \<notin> key ` set rows"
proof
  assume "fresh_id key rows \<in> key ` set rows"
  then obtain r where "r \<in> set rows" "key r = fresh_id key rows" by auto
  with fresh_id_greater [of r rows key] show False by simp
qed

lemma fresh_id_pos: "0 < fresh_id key rows"
  using fold_max_ge [of 0 key rows] by (simp add: fresh_id_def)

lemma distinct_insert_fresh [row_intros]:
  "distinct (map key rows) \<Longrightarrow> key r = fresh_id key rows \<Longrightarrow> distinct (map key (rows @ [r]))"
  using fresh_id_notin [of key rows] by auto

lemma min_row_None_iff [simp]: "min_row key rows = None \<longleftrightarrow> rows = []"
  by (cases rows) (auto split: option.splits)

lemma min_row_SomeD:
  "min_row key rows = Some r \<Longrightarrow> r \<in> set rows \<and> (\<forall>s \<in> set rows. key r \<le> key s)"
proof (induction rows arbitrary: r)
  case (Cons a rows)
  show ?case
  proof (cases "min_row key rows")
    case None
    with Cons.prems show ?thesis by simp
  next
    case (Some s)
    with Cons.IH have "s \<in> set rows \<and> (\<forall>t \<in> set rows. key s \<le> key t)" by blast
    with Some Cons.prems show ?thesis by (auto split: if_splits dest: order_less_le_trans)
  qed
qed simp

text \<open>A page of a listing: \<open>ORDER BY key LIMIT lim OFFSET off\<close>.\<close>

definition page :: "int \<Rightarrow> int \<Rightarrow> 'r list \<Rightarrow> 'r list" where
  "page n off rows = take (nat n) (drop (nat off) rows)"

lemma set_page: "set (page n off rows) \<subseteq> set rows"
  by (auto simp: page_def dest: in_set_takeD in_set_dropD)

lemma length_page: "0 \<le> n \<Longrightarrow> int (length (page n off rows)) \<le> n"
  by (simp add: page_def)

subsection \<open>Transition systems and invariants\<close>

inductive reachable :: "('s \<Rightarrow> bool) \<Rightarrow> ('s \<Rightarrow> 's \<Rightarrow> bool) \<Rightarrow> 's \<Rightarrow> bool"
  for init :: "'s \<Rightarrow> bool" and step :: "'s \<Rightarrow> 's \<Rightarrow> bool" where
  start: "init s \<Longrightarrow> reachable init step s"
| extend: "reachable init step s \<Longrightarrow> step s s' \<Longrightarrow> reachable init step s'"

locale transition_invariant =
  fixes init :: "'s \<Rightarrow> bool" and step :: "'s \<Rightarrow> 's \<Rightarrow> bool" and inv :: "'s \<Rightarrow> bool"
  assumes inv_init: "init s \<Longrightarrow> inv s"
    and inv_step: "inv s \<Longrightarrow> step s s' \<Longrightarrow> inv s'"
begin

lemma inv_reachable: "reachable init step s \<Longrightarrow> inv s"
  by (induction rule: reachable.induct) (auto intro: inv_init inv_step)

lemma inv_run: "inv s \<Longrightarrow> step\<^sup>*\<^sup>* s s' \<Longrightarrow> inv s'"
  by (rotate_tac, induction rule: rtranclp_induct) (auto intro: inv_step)

end

end
