(* ===== verification/Refinement.thy ===== *)
theory Refinement
  imports Prelude
begin

text \<open>
  Input/output machines and simulation.  An operation of a component is a function from a state and
  an input to a state and an output; \<open>run\<close> feeds it a list of inputs.  The locale \<open>simulation\<close>
  relates a component to its abstract specification: a relation that every admissible step
  preserves while the outputs agree.  Its lemma carries that over to whole runs.
\<close>

subsection \<open>Definitions\<close>

fun run :: "('s \<Rightarrow> 'i \<Rightarrow> 's \<times> 'o) \<Rightarrow> 's \<Rightarrow> 'i list \<Rightarrow> 's \<times> 'o list" where
  "run step s [] = (s, [])"
| "run step s (i # is) = (let (s1, x) = step s i; (s2, xs) = run step s1 is in (s2, x # xs))"

fun admissible :: "('s \<Rightarrow> 'i \<Rightarrow> 's \<times> 'o) \<Rightarrow> ('s \<Rightarrow> 'i \<Rightarrow> bool) \<Rightarrow> 's \<Rightarrow> 'i list \<Rightarrow> bool" where
  "admissible step enabled s [] = True"
| "admissible step enabled s (i # is) = (enabled s i \<and> admissible step enabled (fst (step s i)) is)"

subsection \<open>Simulation\<close>

locale simulation =
  fixes cstep :: "'c \<Rightarrow> 'i \<Rightarrow> 'c \<times> 'o"
    and astep :: "'a \<Rightarrow> 'i \<Rightarrow> 'a \<times> 'o"
    and enabled :: "'a \<Rightarrow> 'i \<Rightarrow> bool"
    and R :: "'c \<Rightarrow> 'a \<Rightarrow> bool"
  assumes step_output: "R c a \<Longrightarrow> enabled a i \<Longrightarrow> snd (cstep c i) = snd (astep a i)"
    and step_related: "R c a \<Longrightarrow> enabled a i \<Longrightarrow> R (fst (cstep c i)) (fst (astep a i))"
begin

lemma run_related:
  assumes "R c a" "admissible astep enabled a is"
  shows "snd (run cstep c is) = snd (run astep a is) \<and> R (fst (run cstep c is)) (fst (run astep a is))"
  using assms
proof (induction "is" arbitrary: c a)
  case (Cons i "is")
  then have "snd (cstep c i) = snd (astep a i)" "R (fst (cstep c i)) (fst (astep a i))"
    by (auto intro: step_output step_related)
  with Cons.IH [OF this(2)] Cons.prems(2) show ?case by (auto simp: Let_def split: prod.splits)
qed simp

end

end
