(* ===== verification/Numerics.thy ===== *)
theory Numerics
  imports Prelude
begin

text \<open>
  The number formats the backend computes with.

  A Python \<open>float\<close> is a finite binary64 number, held as the rational it denotes; every
  arithmetic operation on floats is the exact operation followed by \<open>fl\<close>, rounding to 53
  significant bits, ties to even (exponents below -1074 are subnormal).  The default
  \<open>decimal\<close> context rounds to 28 significant decimal digits (\<open>dctx\<close>).  \<open>float_repr\<close> is the
  value of the shortest decimal that reads back as the same float, which is what
  \<open>Decimal(str(x))\<close> denotes.  Overflow to infinity is not part of \<open>fl\<close>: the ingestion
  guards keep every measured value far below that range.

  The locale \<open>rounding\<close> states what clients use of a rounding function (monotone,
  idempotent, keeps zero); both formats interpret it.
\<close>

fun ndigits :: "nat \<Rightarrow> nat \<Rightarrow> nat" where
  "ndigits b n = (if n = 0 \<or> b < 2 then 0 else Suc (ndigits b (n div b)))"

declare ndigits.simps [simp del]

function ndigits_int :: "int \<Rightarrow> int \<Rightarrow> int" where
  "ndigits_int b n = (if n \<le> 0 \<or> b < 2 then 0 else 1 + ndigits_int b (n div b))"
  by auto
termination
proof (relation "measure (\<lambda>(b, n). nat n)")
  fix b n :: int
  assume n: "\<not> (n \<le> 0 \<or> b < 2)"
  then have "n div b < n" using int_div_less_self [of n b] by simp
  with n show "((b, n div b), b, n) \<in> measure (\<lambda>(b, n). nat n)" by simp
qed simp

declare ndigits_int.simps [simp del]

definition expo :: "nat \<Rightarrow> rat \<Rightarrow> int" where
  "expo b x =
     (if 1 \<le> x then int (ndigits b (nat \<lfloor>x\<rfloor>)) - 1
      else - int (ndigits b (nat (\<lceil>1 / x\<rceil> - 1))))"

definition round_half_even :: "rat \<Rightarrow> int" where
  "round_half_even x =
     (let n = \<lfloor>x\<rfloor>; r = x - of_int n
      in if r < 1 / 2 then n else if 1 / 2 < r then n + 1
         else if even n then n else n + 1)"

definition round_half_up :: "rat \<Rightarrow> int" where
  "round_half_up x = (if 0 \<le> x then \<lfloor>x + 1 / 2\<rfloor> else - \<lfloor>- x + 1 / 2\<rfloor>)"

definition round_sig :: "nat \<Rightarrow> nat \<Rightarrow> int \<Rightarrow> rat \<Rightarrow> rat" where
  "round_sig b p emin x =
     (if x = 0 then 0
      else let e = max emin (expo b \<bar>x\<bar> - int p + 1)
           in of_int (round_half_even (x / of_nat b powi e)) * of_nat b powi e)"

definition fl :: "rat \<Rightarrow> rat" where
  "fl = round_sig 2 53 (- 1074)"

definition dctx :: "rat \<Rightarrow> rat" where
  "dctx = round_sig 10 28 (- 1000026)"

definition repr_at :: "nat \<Rightarrow> rat \<Rightarrow> rat option" where
  "repr_at n x =
     (let u = 10 powi (expo 10 \<bar>x\<bar> - int n + 1); q = x / u;
          lo = of_int \<lfloor>q\<rfloor> * u; hi = of_int \<lceil>q\<rceil> * u
      in if fl lo = x \<and> fl hi = x
         then Some (if x - lo < hi - x then lo else if hi - x < x - lo then hi
                    else if even \<lfloor>q\<rfloor> then lo else hi)
         else if fl lo = x then Some lo
         else if fl hi = x then Some hi
         else None)"

fun repr_search :: "nat \<Rightarrow> nat \<Rightarrow> rat \<Rightarrow> rat" where
  "repr_search 0 n x = x"
| "repr_search (Suc f) n x =
     (case repr_at n x of Some d \<Rightarrow> d | None \<Rightarrow> repr_search f (Suc n) x)"

definition float_repr :: "rat \<Rightarrow> rat" where
  "float_repr x = (if x = 0 then 0 else repr_search 17 1 x)"


lemma ndigits_0 [simp]: "ndigits b 0 = 0"
  by (simp add: ndigits.simps)

text \<open>Evaluation goes through integers, whose numerals are binary.\<close>

lemma ndigits_int: "int (ndigits b n) = ndigits_int (int b) (int n)"
proof (induction b n rule: ndigits.induct)
  case (1 b n)
  then show ?case by (simp add: ndigits.simps [of b n] ndigits_int.simps [of "int b" "int n"] zdiv_int)
qed

lemma expo_code [code]:
  "expo b x = (if 1 \<le> x then ndigits_int (int b) \<lfloor>x\<rfloor> - 1 else - ndigits_int (int b) (max 0 (\<lceil>1 / x\<rceil> - 1)))"
  by (simp add: expo_def ndigits_int max_def)

lemma round_sig_code [code]:
  "round_sig b p emin x =
     (if x = 0 then 0
      else let e = max emin (expo b \<bar>x\<bar> - int p + 1)
           in if 0 \<le> e then let u = int b ^ nat e in of_int (round_half_even (x / of_int u) * u)
              else let u = int b ^ nat (- e) in of_int (round_half_even (x * of_int u)) / of_int u)"
  by (simp add: round_sig_def Let_def power_int_def divide_inverse power_inverse)

lemma ndigits_pos: "2 \<le> b \<Longrightarrow> 0 < n \<Longrightarrow> ndigits b n = Suc (ndigits b (n div b))"
  by (simp add: ndigits.simps [of b n])

lemma ndigits_upper: "2 \<le> b \<Longrightarrow> n < b ^ ndigits b n"
proof (induction b n rule: ndigits.induct)
  case (1 b n)
  show ?case
  proof (cases "n = 0")
    case False
    with 1 have "n div b < b ^ ndigits b (n div b)" by simp
    then have "n < b * b ^ ndigits b (n div b)"
      using "1.prems" by (simp add: div_less_iff_less_mult mult.commute)
    with False "1.prems" show ?thesis by (simp add: ndigits_pos)
  qed simp
qed

lemma ndigits_lower: "2 \<le> b \<Longrightarrow> 0 < n \<Longrightarrow> b ^ (ndigits b n - 1) \<le> n"
proof (induction b n rule: ndigits.induct)
  case (1 b n)
  show ?case
  proof (cases "n div b = 0")
    case True
    with "1.prems" show ?thesis by (simp add: ndigits_pos)
  next
    case False
    with 1 have "b ^ (ndigits b (n div b) - 1) \<le> n div b" by simp
    moreover from False "1.prems" have "0 < ndigits b (n div b)"
      by (simp add: ndigits_pos)
    ultimately have "b ^ ndigits b (n div b) \<le> n div b * b"
      by (metis Suc_diff_1 mult.commute mult_le_mono1 power_Suc)
    also have "\<dots> \<le> n" by simp
    finally show ?thesis using "1.prems" by (simp add: ndigits_pos)
  qed
qed

lemma expo_ge1:
  assumes "2 \<le> b" "1 \<le> x"
  shows "of_nat b powi expo b x \<le> x" "x < of_nat b powi (expo b x + 1)"
proof -
  let ?n = "nat \<lfloor>x\<rfloor>" and ?k = "ndigits b (nat \<lfloor>x\<rfloor>)"
  from assms have n: "0 < ?n" by (simp add: le_floor_iff)
  with assms(1) have k: "0 < ?k" by (simp add: ndigits_pos)
  have e: "expo b x = int (?k - 1)" using assms k by (simp add: expo_def)
  have "b ^ (?k - 1) \<le> ?n" using assms(1) n by (rule ndigits_lower)
  then have "(of_nat (b ^ (?k - 1)) :: rat) \<le> of_nat ?n" by (simp only: of_nat_le_iff)
  also have "\<dots> \<le> x" using n by simp
  finally show "of_nat b powi expo b x \<le> x" by (simp add: e)
  have "?n < b ^ ?k" using assms(1) by (rule ndigits_upper)
  then have "\<lfloor>x\<rfloor> < int (b ^ ?k)" using n by linarith
  then have "x < of_int (int (b ^ ?k))" by (simp only: floor_less_iff)
  also have "of_int (int (b ^ ?k)) = (of_nat b powi int ?k :: rat)" by simp
  also have "int ?k = expo b x + 1" using k by (simp add: e)
  finally show "x < of_nat b powi (expo b x + 1)" .
qed

lemma expo_lt1:
  assumes "2 \<le> b" "0 < x" "x < 1"
  shows "of_nat b powi expo b x \<le> x" "x < of_nat b powi (expo b x + 1)"
proof -
  let ?m = "nat (\<lceil>1 / x\<rceil> - 1)" and ?k = "ndigits b (nat (\<lceil>1 / x\<rceil> - 1))"
  have "1 < 1 / x" using assms by simp
  then have c: "2 \<le> \<lceil>1 / x\<rceil>" by linarith
  then have m: "0 < ?m" by simp
  with assms(1) have k: "0 < ?k" by (simp add: ndigits_pos)
  have e: "expo b x = - int ?k" using assms by (simp add: expo_def)
  have bpos: "(0::rat) < of_nat b ^ j" for j using assms(1) by simp
  have "?m < b ^ ?k" using assms(1) by (rule ndigits_upper)
  then have "\<lceil>1 / x\<rceil> \<le> int (b ^ ?k)" using c by linarith
  then have "1 / x \<le> of_int (int (b ^ ?k))" by (simp only: ceiling_le_iff)
  then have "1 / x \<le> of_nat b ^ ?k" by simp
  then have "1 / of_nat b ^ ?k \<le> x"
    using assms bpos [of ?k] by (simp add: field_simps)
  then show "of_nat b powi expo b x \<le> x"
    by (simp add: e power_int_minus divide_inverse)
  have "b ^ (?k - 1) \<le> ?m" using assms(1) m by (rule ndigits_lower)
  then have "int (b ^ (?k - 1)) < \<lceil>1 / x\<rceil>" using c by linarith
  then have "of_int (int (b ^ (?k - 1))) < 1 / x" by (simp only: less_ceiling_iff)
  then have "of_nat b ^ (?k - 1) < 1 / x" by simp
  then have "x < 1 / of_nat b ^ (?k - 1)"
    using assms bpos [of "?k - 1"] by (simp add: field_simps)
  moreover have "expo b x + 1 = - int (?k - 1)" using k by (simp add: e)
  ultimately show "x < of_nat b powi (expo b x + 1)"
    by (simp add: power_int_minus divide_inverse)
qed

lemma expo_bounds:
  assumes "2 \<le> b" "0 < x"
  shows "of_nat b powi expo b x \<le> x" and "x < of_nat b powi (expo b x + 1)"
  using assms expo_ge1 expo_lt1 by (cases "1 \<le> x"; simp)+

lemma powi_less_iff_exp:
  assumes "2 \<le> b"
  shows "(of_nat b :: rat) powi i < of_nat b powi j \<longleftrightarrow> i < j"
  using assms power_int_strict_increasing [of i j "of_nat b :: rat"]
    power_int_increasing [of j i "of_nat b :: rat"]
  by (cases "i < j") (auto simp: not_less)

lemma powi_le_iff_exp:
  assumes "2 \<le> b"
  shows "(of_nat b :: rat) powi i \<le> of_nat b powi j \<longleftrightarrow> i \<le> j"
  using powi_less_iff_exp [OF assms, of j i] by (simp flip: not_less)

lemma expo_mono:
  assumes "2 \<le> b" "0 < x" "x \<le> y"
  shows "expo b x \<le> expo b y"
proof -
  have "of_nat b powi expo b x < (of_nat b :: rat) powi (expo b y + 1)"
    using expo_bounds [of b x] expo_bounds [of b y] assms by linarith
  then show ?thesis using powi_less_iff_exp [OF assms(1)] by simp
qed


subsection \<open>Rounding to an integer\<close>

lemma round_half_even_of_int [simp]: "round_half_even (of_int n) = n"
  by (simp add: round_half_even_def)

lemma round_half_even_0 [simp]: "round_half_even 0 = 0"
  using round_half_even_of_int [of 0] by simp

lemma round_half_even_cases:
  "round_half_even x = \<lfloor>x\<rfloor> \<or> round_half_even x = \<lfloor>x\<rfloor> + 1 \<and> 1 / 2 \<le> x - of_int \<lfloor>x\<rfloor>"
  by (auto simp: round_half_even_def Let_def)

lemma round_half_even_mono:
  assumes "x \<le> y"
  shows "round_half_even x \<le> round_half_even y"
proof (cases "\<lfloor>x\<rfloor> = \<lfloor>y\<rfloor>")
  case True
  with assms show ?thesis by (auto simp: round_half_even_def Let_def)
next
  case False
  with floor_mono [OF assms] have "\<lfloor>x\<rfloor> + 1 \<le> \<lfloor>y\<rfloor>" by linarith
  then show ?thesis
    using round_half_even_cases [of x] round_half_even_cases [of y] by linarith
qed

lemma round_half_even_err: "\<bar>of_int (round_half_even x) - x\<bar> \<le> 1 / 2"
proof -
  have "of_int \<lfloor>x\<rfloor> \<le> x" "x < of_int \<lfloor>x\<rfloor> + 1" by linarith+
  then show ?thesis by (auto simp: round_half_even_def Let_def abs_le_iff)
qed

lemma round_half_even_minus: "round_half_even (- x) = - round_half_even x"
proof (cases "x = of_int \<lfloor>x\<rfloor>")
  case True
  then show ?thesis
    by (metis of_int_minus round_half_even_of_int)
next
  case False
  let ?n = "\<lfloor>x\<rfloor>"
  have le: "of_int ?n < x" "x < of_int ?n + 1"
    using False floor_correct [of x] by linarith+
  have "\<lfloor>- x\<rfloor> = - ?n - 1"
    by (rule floor_unique) (use le in auto)
  then show ?thesis
    by (auto simp: round_half_even_def Let_def)
qed

lemma round_half_up_of_int [simp]: "round_half_up (of_int n) = n"
proof -
  have "\<lfloor>(of_int n :: rat) + 1 / 2\<rfloor> = n" "\<lfloor>- (of_int n :: rat) + 1 / 2\<rfloor> = - n"
    by (rule floor_unique; simp)+
  then show ?thesis by (simp add: round_half_up_def)
qed

lemma round_half_up_mono:
  assumes "x \<le> y"
  shows "round_half_up x \<le> round_half_up y"
proof -
  consider "0 \<le> x" | "y < 0" | "x < 0" "0 \<le> y" by linarith
  then show ?thesis
  proof cases
    case 3
    have "0 \<le> \<lfloor>- x + 1 / 2\<rfloor>" "0 \<le> \<lfloor>y + 1 / 2\<rfloor>" using 3 by linarith+
    moreover have "round_half_up x = - \<lfloor>- x + 1 / 2\<rfloor>" "round_half_up y = \<lfloor>y + 1 / 2\<rfloor>"
      unfolding round_half_up_def using 3 by auto
    ultimately show ?thesis by linarith
  qed (use assms in \<open>auto simp: round_half_up_def intro!: floor_mono\<close>)
qed

lemma round_half_up_err: "\<bar>of_int (round_half_up x) - x\<bar> \<le> 1 / 2"
proof -
  have "of_int \<lfloor>x + 1 / 2\<rfloor> \<le> x + 1 / 2" "x + 1 / 2 < of_int \<lfloor>x + 1 / 2\<rfloor> + 1"
    "of_int \<lfloor>- x + 1 / 2\<rfloor> \<le> - x + 1 / 2" "- x + 1 / 2 < of_int \<lfloor>- x + 1 / 2\<rfloor> + 1"
    by linarith+
  moreover have "round_half_up x = \<lfloor>x + 1 / 2\<rfloor> \<or> round_half_up x = - \<lfloor>- x + 1 / 2\<rfloor>"
    by (simp only: round_half_up_def split: if_split) blast
  ultimately show ?thesis unfolding abs_le_iff by (elim disjE) (simp_all only: of_int_minus, linarith+)
qed

subsection \<open>Rounding to a precision\<close>

definition sig_repr :: "nat \<Rightarrow> nat \<Rightarrow> int \<Rightarrow> rat \<Rightarrow> bool" where
  "sig_repr b p emin x \<longleftrightarrow>
     (\<exists>m e. x = of_int m * of_nat b powi e \<and> \<bar>m\<bar> \<le> int b ^ p \<and> emin \<le> e)"

lemma round_sig_0 [simp]: "round_sig b p emin 0 = 0"
  by (simp add: round_sig_def)

lemma round_sig_minus: "round_sig b p emin (- x) = - round_sig b p emin x"
  by (simp add: round_sig_def Let_def round_half_even_minus)

lemma scaled_bound:
  assumes "2 \<le> b" "0 < x" "e = max emin (expo b x - int p + 1)"
  shows "x / of_nat b powi e \<le> of_int (int b ^ p)"
proof -
  have pos: "(0::rat) < of_nat b powi e" using assms(1) by simp
  have "x < of_nat b powi (expo b x + 1)" using assms by (simp add: expo_bounds)
  also have "\<dots> \<le> of_nat b powi (int p + e)"
    using assms by (simp add: powi_le_iff_exp)
  also have "\<dots> = of_nat b ^ p * of_nat b powi e"
    using assms(1) by (simp add: power_int_add)
  finally show ?thesis using pos by (simp add: field_simps)
qed

lemma round_sig_nonneg:
  assumes "2 \<le> b" "0 \<le> x"
  shows "0 \<le> round_sig b p emin x"
proof -
  have "0 \<le> round_half_even (x / of_nat b powi e)" for e
    using round_half_even_mono [of 0 "x / of_nat b powi e"] assms by simp
  then show ?thesis by (simp add: round_sig_def Let_def)
qed

lemma round_sig_repr_pos:
  assumes "2 \<le> b" "0 < x"
  shows "sig_repr b p emin (round_sig b p emin x)"
proof -
  define e where "e = max emin (expo b x - int p + 1)"
  define m where "m = round_half_even (x / of_nat b powi e)"
  have "m \<le> round_half_even (of_int (int b ^ p))"
    unfolding m_def by (rule round_half_even_mono, rule scaled_bound) (use assms e_def in auto)
  then have "m \<le> int b ^ p" by (simp only: round_half_even_of_int)
  moreover have "0 \<le> m"
    unfolding m_def using round_half_even_mono [of 0 "x / of_nat b powi e"] assms by simp
  moreover have "round_sig b p emin x = of_int m * of_nat b powi e"
    using assms(2) by (simp add: round_sig_def Let_def m_def e_def)
  moreover have "emin \<le> e" by (simp add: e_def)
  ultimately show ?thesis unfolding sig_repr_def by (metis abs_of_nonneg)
qed

lemma sig_repr_minus: "sig_repr b p emin (- x) \<longleftrightarrow> sig_repr b p emin x"
proof -
  have "sig_repr b p emin y \<Longrightarrow> sig_repr b p emin (- y)" for y
    unfolding sig_repr_def by (metis abs_minus_cancel mult_minus_left of_int_minus)
  from this [of x] this [of "- x"] show ?thesis by auto
qed

lemma sig_repr_0: "sig_repr b p emin 0"
  unfolding sig_repr_def by (rule exI [of _ 0], rule exI [of _ emin]) simp

lemma round_sig_repr:
  assumes "2 \<le> b"
  shows "sig_repr b p emin (round_sig b p emin x)"
  using assms round_sig_repr_pos [of b x p emin] round_sig_repr_pos [of b "- x" p emin]
  by (cases x "0 :: rat" rule: linorder_cases)
     (auto simp: round_sig_minus sig_repr_minus sig_repr_0)

lemma round_sig_exact:
  assumes b: "2 \<le> b" and p: "0 < p" and r: "sig_repr b p emin x"
  shows "round_sig b p emin x = x"
proof (cases "x = 0")
  case False
  from r obtain m0 e0 where x0: "x = of_int m0 * of_nat b powi e0" "\<bar>m0\<bar> \<le> int b ^ p" "emin \<le> e0"
    unfolding sig_repr_def by blast
  obtain m e where x: "x = of_int m * of_nat b powi e" "\<bar>m\<bar> < int b ^ p" "emin \<le> e"
  proof (cases "\<bar>m0\<bar> = int b ^ p")
    case True
    have "m0 = sgn m0 * int b ^ (p - 1) * int b"
      using True p mult_sgn_abs [of m0] by (cases p) (simp_all add: ac_simps)
    then have "(of_int m0 :: rat) = of_int (sgn m0 * int b ^ (p - 1) * int b)"
      by (rule arg_cong)
    also have "\<dots> = of_int (sgn m0 * int b ^ (p - 1)) * of_nat b" by simp
    finally have "x = of_int (sgn m0 * int b ^ (p - 1)) * (of_nat b * of_nat b powi e0)"
      using x0(1) by (simp only: mult.assoc)
    also have "of_nat b * of_nat b powi e0 = (of_nat b :: rat) powi (e0 + 1)"
      using b by (simp add: power_int_add_1')
    finally have "x = of_int (sgn m0 * int b ^ (p - 1)) * of_nat b powi (e0 + 1)" .
    moreover have "\<bar>sgn m0 * int b ^ (p - 1)\<bar> < int b ^ p"
      using b p power_strict_increasing [of "p - 1" p "int b"]
      by (auto simp: abs_mult sgn_if)
    moreover have "emin \<le> e0 + 1" using x0(3) by simp
    ultimately show ?thesis by (rule that)
  next
    case False
    then show ?thesis using that x0 by simp
  qed
  define e' where "e' = max emin (expo b \<bar>x\<bar> - int p + 1)"
  have bpos: "(0::rat) < of_nat b powi j" for j using b by simp
  have "of_nat b powi expo b \<bar>x\<bar> \<le> \<bar>x\<bar>" using b False by (simp add: expo_bounds)
  also have "\<dots> = of_int \<bar>m\<bar> * of_nat b powi e" using x(1) bpos by (simp add: abs_mult)
  also have "\<dots> < of_int (int b ^ p) * of_nat b powi e"
    by (rule mult_strict_right_mono) (use x(2) bpos in \<open>simp_all only: of_int_less_iff\<close>)
  also have "\<dots> = of_nat b powi (int p + e)" using b by (simp add: power_int_add)
  finally have "expo b \<bar>x\<bar> < int p + e" using powi_less_iff_exp [OF b] by blast
  then have le: "e' \<le> e" using x(3) by (simp add: e'_def)
  have "x / of_nat b powi e' = of_int m * of_nat b powi (e - e')"
    using x(1) b by (simp add: power_int_diff)
  also have "\<dots> = of_int (m * int b ^ nat (e - e'))"
    using le by (simp add: power_int_def)
  finally have q: "x / of_nat b powi e' = of_int (m * int b ^ nat (e - e'))" .
  have "round_sig b p emin x = of_int (round_half_even (x / of_nat b powi e')) * of_nat b powi e'"
    using False by (simp add: round_sig_def Let_def e'_def)
  also have "\<dots> = x / of_nat b powi e' * of_nat b powi e'"
    by (simp only: q round_half_even_of_int)
  also have "\<dots> = x" using b by simp
  finally show ?thesis .
qed simp


lemma round_sig_idem:
  "2 \<le> b \<Longrightarrow> 0 < p \<Longrightarrow> round_sig b p emin (round_sig b p emin x) = round_sig b p emin x"
  by (simp add: round_sig_exact round_sig_repr)

lemma powi_split:
  assumes "2 \<le> b" "e \<le> j"
  shows "(of_nat b :: rat) powi j = of_int (int b ^ nat (j - e)) * of_nat b powi e"
proof -
  have "(of_nat b :: rat) powi j = of_nat b powi ((j - e) + e)" by simp
  also have "\<dots> = of_nat b powi (j - e) * of_nat b powi e"
    using assms(1) by (intro power_int_add) simp
  also have "of_nat b powi (j - e) = (of_int (int b ^ nat (j - e)) :: rat)"
    using assms(2) by (simp add: power_int_def)
  finally show ?thesis .
qed

lemma round_sig_ge_power:
  assumes "2 \<le> b" "0 < p" "emin \<le> j" "of_nat b powi j \<le> y"
  shows "of_nat b powi j \<le> round_sig b p emin y"
proof -
  define e where "e = max emin (expo b y - int p + 1)"
  have pos: "(0::rat) < of_nat b powi i" for i using assms(1) by simp
  have y: "0 < y" using pos [of j] assms(4) by linarith
  show ?thesis
  proof (cases "e \<le> j")
    case True
    have s: "(of_nat b :: rat) powi j = of_int (int b ^ nat (j - e)) * of_nat b powi e"
      using assms(1) True by (rule powi_split)
    have "of_nat b powi j / of_nat b powi e = (of_int (int b ^ nat (j - e)) :: rat)"
      unfolding s using assms(1) by simp
    moreover have "of_nat b powi j / of_nat b powi e \<le> y / of_nat b powi e"
      using assms(4) pos by (simp add: divide_right_mono)
    ultimately have "int b ^ nat (j - e) \<le> round_half_even (y / of_nat b powi e)"
      by (metis round_half_even_mono round_half_even_of_int)
    then have "of_int (int b ^ nat (j - e)) * of_nat b powi e
        \<le> of_int (round_half_even (y / of_nat b powi e)) * (of_nat b powi e :: rat)"
      using pos [of e] by (intro mult_right_mono) (simp_all only: of_int_le_iff less_imp_le)
    also have "of_int (int b ^ nat (j - e)) * of_nat b powi e = (of_nat b powi j :: rat)"
      by (rule s [symmetric])
    finally show ?thesis using y by (simp add: round_sig_def Let_def e_def)
  next
    case False
    then have "emin < e" "e = expo b y - int p + 1" using assms(3) by (auto simp: e_def)
    then have "of_nat b powi (e + int p - 1) \<le> y"
      using expo_bounds(1) [OF assms(1) y] by simp
    then have "of_nat b powi (e + int p - 1) / of_nat b powi e \<le> y / of_nat b powi e"
      using pos by (simp add: divide_right_mono)
    moreover have "of_nat b powi (e + int p - 1) / of_nat b powi e = (of_int (int b ^ (p - 1)) :: rat)"
      using powi_split [OF assms(1), of e "e + int p - 1"] assms(1,2)
      by (simp add: nat_diff_distrib)
    ultimately have "int b ^ (p - 1) \<le> round_half_even (y / of_nat b powi e)"
      by (metis round_half_even_mono round_half_even_of_int)
    moreover have "1 \<le> int b ^ (p - 1)" using assms(1) by simp
    ultimately have "1 \<le> round_half_even (y / of_nat b powi e)" by linarith
    then have "1 * of_nat b powi e \<le> of_int (round_half_even (y / of_nat b powi e)) * (of_nat b powi e :: rat)"
      using pos [of e] by (intro mult_right_mono) simp_all
    moreover have "of_nat b powi j \<le> (of_nat b powi e :: rat)"
      using False assms(1) by (simp add: powi_le_iff_exp)
    ultimately show ?thesis using y by (simp add: round_sig_def Let_def e_def)
  qed
qed

lemma round_sig_mono_pos:
  assumes "2 \<le> b" "0 < p" "0 < x" "x \<le> y"
  shows "round_sig b p emin x \<le> round_sig b p emin y"
proof -
  define ex where "ex = max emin (expo b x - int p + 1)"
  define ey where "ey = max emin (expo b y - int p + 1)"
  have pos: "(0::rat) < of_nat b powi i" for i using assms(1) by simp
  have rx: "round_sig b p emin x = of_int (round_half_even (x / of_nat b powi ex)) * of_nat b powi ex"
    using assms by (simp add: round_sig_def Let_def ex_def)
  have "ex \<le> ey" using expo_mono [OF assms(1,3,4)] by (simp add: ex_def ey_def)
  show ?thesis
  proof (cases "ex = ey")
    case True
    have "round_half_even (x / of_nat b powi ex) \<le> round_half_even (y / of_nat b powi ex)"
      using assms(4) pos by (intro round_half_even_mono divide_right_mono) (simp_all add: less_imp_le)
    then have "of_int (round_half_even (x / of_nat b powi ex)) * of_nat b powi ex
      \<le> of_int (round_half_even (y / of_nat b powi ex)) * (of_nat b powi ex :: rat)"
      using pos [of ex] by (intro mult_right_mono) simp_all
    moreover have "round_sig b p emin y = of_int (round_half_even (y / of_nat b powi ex)) * of_nat b powi ex"
      using assms True by (simp add: round_sig_def Let_def ey_def)
    ultimately show ?thesis using rx by simp
  next
    case False
    with \<open>ex \<le> ey\<close> have lt: "ex < ey" by simp
    then have ey: "ey = expo b y - int p + 1" by (auto simp: ex_def ey_def)
    have "round_half_even (x / of_nat b powi ex) \<le> round_half_even (of_int (int b ^ p))"
      by (rule round_half_even_mono, rule scaled_bound) (use assms ex_def in auto)
    then have "round_half_even (x / of_nat b powi ex) \<le> int b ^ p"
      by (simp only: round_half_even_of_int)
    then have "round_sig b p emin x \<le> of_int (int b ^ p) * of_nat b powi ex"
      unfolding rx using pos [of ex] by (intro mult_right_mono) (simp_all only: of_int_le_iff less_imp_le)
    also have "\<dots> = of_nat b powi (int p + ex)" using assms(1) by (simp add: power_int_add)
    also have "\<dots> \<le> of_nat b powi expo b y"
      using lt ey assms(1) by (simp add: powi_le_iff_exp)
    also have "\<dots> \<le> round_sig b p emin y"
    proof (rule round_sig_ge_power)
      show "emin \<le> expo b y" using lt ey assms(2) by (simp add: ex_def)
      show "of_nat b powi expo b y \<le> y" using assms by (simp add: expo_bounds)
    qed (use assms in auto)
    finally show ?thesis .
  qed
qed

lemma round_sig_mono:
  assumes "2 \<le> b" "0 < p" "x \<le> y"
  shows "round_sig b p emin x \<le> round_sig b p emin y"
proof -
  consider "0 < x" | "y < 0" | "x \<le> 0" "0 \<le> y" by linarith
  then show ?thesis
  proof cases
    case 1
    with assms show ?thesis by (simp add: round_sig_mono_pos)
  next
    case 2
    with assms have "round_sig b p emin (- y) \<le> round_sig b p emin (- x)"
      by (intro round_sig_mono_pos) auto
    then show ?thesis by (simp add: round_sig_minus)
  next
    case 3
    have "0 \<le> round_sig b p emin y" "0 \<le> round_sig b p emin (- x)"
      using assms(1) 3 by (simp_all add: round_sig_nonneg)
    then show ?thesis by (simp add: round_sig_minus)
  qed
qed

subsection \<open>The interface of a rounding\<close>

locale rounding =
  fixes rnd :: "rat \<Rightarrow> rat"
  assumes rnd_mono: "x \<le> y \<Longrightarrow> rnd x \<le> rnd y"
    and rnd_idem: "rnd (rnd x) = rnd x"
    and rnd_zero: "rnd 0 = 0"
begin

lemma rnd_nonneg: "0 \<le> x \<Longrightarrow> 0 \<le> rnd x"
  using rnd_mono [of 0 x] by (simp add: rnd_zero)

lemma rnd_nonpos: "x \<le> 0 \<Longrightarrow> rnd x \<le> 0"
  using rnd_mono [of x 0] by (simp add: rnd_zero)

lemma rnd_le_fixed: "rnd y = y \<Longrightarrow> x \<le> y \<Longrightarrow> rnd x \<le> y"
  using rnd_mono [of x y] by simp

lemma rnd_ge_fixed: "rnd y = y \<Longrightarrow> y \<le> x \<Longrightarrow> y \<le> rnd x"
  using rnd_mono [of y x] by simp

lemma rnd_reflects_less: "rnd x < rnd y \<Longrightarrow> x < y"
  using rnd_mono [of y x] by linarith

end

interpretation bin64: rounding fl
  by unfold_locales (simp_all add: fl_def round_sig_mono round_sig_idem)

interpretation dec28: rounding dctx
  by unfold_locales (simp_all add: dctx_def round_sig_mono round_sig_idem)

lemma fl_of_int:
  assumes "\<bar>n\<bar> \<le> 2 ^ 53"
  shows "fl (of_int n) = of_int n"
proof -
  have "sig_repr 2 53 (- 1074) (of_int n)"
    unfolding sig_repr_def by (rule exI [of _ n], rule exI [of _ 0]) (use assms in simp)
  then show ?thesis by (simp add: fl_def round_sig_exact)
qed

lemma dctx_hundredths:
  assumes "\<bar>n\<bar> \<le> 10 ^ 28"
  shows "dctx (of_int n / 100) = of_int n / 100"
proof -
  have "sig_repr 10 28 (- 1000026) (of_int n / 100)"
    unfolding sig_repr_def
    by (rule exI [of _ n], rule exI [of _ "- 2"]) (use assms in \<open>simp add: power_int_minus field_simps\<close>)
  then show ?thesis by (simp add: dctx_def round_sig_exact)
qed

lemma repr_at_Some: "repr_at n x = Some d \<Longrightarrow> fl d = x"
  by (auto simp: repr_at_def Let_def split: if_splits)

lemma fl_repr_search: "fl x = x \<Longrightarrow> fl (repr_search f n x) = x"
  by (induction f n x rule: repr_search.induct) (auto dest: repr_at_Some split: option.splits)

lemma fl_float_repr: "fl x = x \<Longrightarrow> fl (float_repr x) = x"
  by (simp add: float_repr_def fl_repr_search bin64.rnd_zero)

lemma float_repr_0 [simp]: "float_repr 0 = 0"
  by (simp add: float_repr_def)

lemma float_repr_mono:
  assumes "fl x = x" "fl y = y" "x \<le> y"
  shows "float_repr x \<le> float_repr y"
proof (cases "x = y")
  case False
  with assms have "fl (float_repr x) < fl (float_repr y)"
    by (simp add: fl_float_repr)
  then show ?thesis using bin64.rnd_reflects_less by (simp add: less_imp_le)
qed simp

lemma float_repr_nonneg: "fl x = x \<Longrightarrow> 0 \<le> x \<Longrightarrow> 0 \<le> float_repr x"
  using float_repr_mono [of 0 x] by (simp add: bin64.rnd_zero)

subsection \<open>Python float operations\<close>

definition fadd :: "pyfloat \<Rightarrow> pyfloat \<Rightarrow> pyfloat" where
  "fadd x y = fl (x + y)"

definition fsub :: "pyfloat \<Rightarrow> pyfloat \<Rightarrow> pyfloat" where
  "fsub x y = fl (x - y)"

definition fmul :: "pyfloat \<Rightarrow> pyfloat \<Rightarrow> pyfloat" where
  "fmul x y = fl (x * y)"

definition fdiv :: "pyfloat \<Rightarrow> pyfloat \<Rightarrow> pyfloat" where
  "fdiv x y = fl (x / y)"

text \<open>\<open>round(x, n)\<close> rounds the exact value of the float, ties to even, to \<open>n\<close> decimals.\<close>

definition py_round :: "nat \<Rightarrow> pyfloat \<Rightarrow> pyfloat" where
  "py_round n x = fl (of_int (round_half_even (x * 10 ^ n)) / 10 ^ n)"

text \<open>\<open>timedelta.total_seconds()\<close> of a difference of timestamps.\<close>

definition total_seconds :: "int \<Rightarrow> pyfloat" where
  "total_seconds us = fl (of_int us / 1000000)"

text \<open>A machine float: the values the model's float columns hold.\<close>

definition is_float :: "pyfloat \<Rightarrow> bool" where
  "is_float x \<longleftrightarrow> fl x = x"

lemma fl_0 [simp]: "fl 0 = 0"
  by (rule bin64.rnd_zero)

lemma is_float_simps [simp]:
  "is_float 0" "is_float (fl x)" "is_float (fadd x y)" "is_float (fsub x y)"
  "is_float (fmul x y)" "is_float (fdiv x y)" "is_float (py_round n x)" "is_float (total_seconds d)"
  by (simp_all add: is_float_def bin64.rnd_idem fadd_def fsub_def fmul_def fdiv_def py_round_def total_seconds_def)

lemma is_float_of_int: "\<bar>n\<bar> \<le> 2 ^ 53 \<Longrightarrow> is_float (of_int n)"
  by (simp add: is_float_def fl_of_int)

lemma is_float_max [simp]: "is_float x \<Longrightarrow> is_float y \<Longrightarrow> is_float (max x y)"
  by (simp add: max_def)

lemma fsub_self [simp]: "fsub x x = 0"
  by (simp add: fsub_def)

lemma fsub_zero_right: "is_float x \<Longrightarrow> fsub x 0 = x"
  by (simp add: fsub_def is_float_def)

lemma fadd_mono: "x \<le> x' \<Longrightarrow> y \<le> y' \<Longrightarrow> fadd x y \<le> fadd x' y'"
  by (simp add: fadd_def bin64.rnd_mono add_mono)

lemma fsub_mono: "x \<le> x' \<Longrightarrow> y' \<le> y \<Longrightarrow> fsub x y \<le> fsub x' y'"
  by (simp add: fsub_def bin64.rnd_mono diff_mono)

lemma fsub_nonpos: "x \<le> y \<Longrightarrow> fsub x y \<le> 0"
  by (simp add: fsub_def bin64.rnd_nonpos)

lemma fsub_nonneg: "y \<le> x \<Longrightarrow> 0 \<le> fsub x y"
  by (simp add: fsub_def bin64.rnd_nonneg)

lemma fadd_ge_left: "is_float x \<Longrightarrow> 0 \<le> y \<Longrightarrow> x \<le> fadd x y"
  by (simp add: fadd_def is_float_def bin64.rnd_ge_fixed)

lemma total_seconds_mono: "a \<le> b \<Longrightarrow> total_seconds a \<le> total_seconds b"
  by (simp add: total_seconds_def bin64.rnd_mono divide_right_mono)

lemma total_seconds_whole:
  "\<bar>n\<bar> \<le> 2 ^ 53 \<Longrightarrow> total_seconds (n * 1000000) = of_int n"
  by (simp add: total_seconds_def fl_of_int)

subsection \<open>Errors of rounding and printing\<close>

lemma fl_abs_error:
  assumes "\<bar>x\<bar> \<le> 2 ^ 40"
  shows "\<bar>fl x - x\<bar> \<le> 1 / 8192"
proof (cases "x = 0")
  case False
  define e where "e = max (- 1074) (expo 2 \<bar>x\<bar> - 52)"
  define u :: rat where "u = 2 powi e"
  have "(2 :: rat) powi expo 2 \<bar>x\<bar> \<le> \<bar>x\<bar>" using expo_bounds [of 2 "\<bar>x\<bar>"] False by simp
  also have "\<dots> \<le> 2 powi 40" using assms by simp
  finally have "expo 2 \<bar>x\<bar> \<le> 40" using powi_le_iff_exp [of 2 "expo 2 \<bar>x\<bar>" 40] by simp
  then have "u \<le> 2 powi (- 12)" unfolding u_def e_def by (intro power_int_increasing) simp_all
  then have u: "0 < u" "u \<le> 1 / 4096" by (simp_all add: u_def power_int_minus)
  have "fl x - x = (of_int (round_half_even (x / u)) - x / u) * u"
    using False u(1) by (simp add: fl_def round_sig_def Let_def e_def [symmetric] u_def [symmetric] algebra_simps)
  then have "\<bar>fl x - x\<bar> = \<bar>of_int (round_half_even (x / u)) - x / u\<bar> * u" using u(1) by (simp add: abs_mult)
  also have "\<dots> \<le> 1 / 2 * (1 / 4096)" using u round_half_even_err [of "x / u"] by (intro mult_mono) auto
  finally show ?thesis by simp
qed simp

lemma fl_pow40: "fl (2 ^ 40) = 2 ^ 40"
  using fl_of_int [of "2 ^ 40"] by simp

lemma float_repr_error:
  assumes "fl x = x" "0 \<le> x" "x < 2 ^ 40"
  shows "\<bar>float_repr x - x\<bar> \<le> 1 / 8192"
proof -
  have "float_repr x < 2 ^ 40"
    using bin64.rnd_reflects_less [of "float_repr x" "2 ^ 40"] fl_float_repr [OF assms(1)] assms(3) fl_pow40 by simp
  moreover have "0 \<le> float_repr x" using float_repr_nonneg [OF assms(1,2)] .
  ultimately have "\<bar>fl (float_repr x) - float_repr x\<bar> \<le> 1 / 8192" by (intro fl_abs_error) simp
  then show ?thesis by (simp add: fl_float_repr [OF assms(1)] abs_minus_commute)
qed

lemma round_near:
  assumes "\<bar>x - of_int n\<bar> < 1 / 2"
  shows "round_half_even x = n" "round_half_up x = n"
proof -
  have "\<bar>of_int (round_half_even x) - (of_int n :: rat)\<bar> < 1" "\<bar>of_int (round_half_up x) - (of_int n :: rat)\<bar> < 1"
    using round_half_even_err [of x] round_half_up_err [of x] assms by linarith+
  then show "round_half_even x = n" "round_half_up x = n" by linarith+
qed

end
