(* ===== verification/Texts.thy ===== *)
theory Texts
  imports Prelude "HOL-Library.Char_ord" "HOL-Library.List_Lexorder" "HOL-Library.Product_Lexorder"
begin

text \<open>
  Text helpers: the string operations of Python the backend uses (on the code points up to 255,
  which is what \<open>char\<close> holds), decimal printing and reading, the firmware version order
  (\<open>backend/services/versioning.py\<close>), the CSV cell guard (\<open>backend/services/csv_safe.py\<close>) and
  the client address behind the proxy chain (\<open>backend/services/rate_limit.py\<close>).
\<close>

subsection \<open>Python strings\<close>

definition code_of :: "char \<Rightarrow> nat" where
  "code_of c = of_char c"

definition is_digit :: "char \<Rightarrow> bool" where
  "is_digit c \<longleftrightarrow> 48 \<le> code_of c \<and> code_of c \<le> 57"

text \<open>\<open>str.isspace\<close> and \<open>str.lower\<close> on the code points up to 255.\<close>

definition is_space :: "char \<Rightarrow> bool" where
  "is_space c \<longleftrightarrow> (let n = code_of c in 9 \<le> n \<and> n \<le> 13 \<or> 28 \<le> n \<and> n \<le> 32 \<or> n = 133 \<or> n = 160)"

definition lower_char :: "char \<Rightarrow> char" where
  "lower_char c =
     (let n = code_of c
      in if 65 \<le> n \<and> n \<le> 90 \<or> 192 \<le> n \<and> n \<le> 222 \<and> n \<noteq> 215 then char_of (n + 32) else c)"

definition lstrip_by :: "(char \<Rightarrow> bool) \<Rightarrow> string \<Rightarrow> string" where
  "lstrip_by P s = dropWhile P s"

definition strip :: "string \<Rightarrow> string" where
  "strip s = rev (dropWhile is_space (rev (dropWhile is_space s)))"

text \<open>\<open>str.split(sep)\<close> for a separator of one character.\<close>

fun split_on :: "char \<Rightarrow> string \<Rightarrow> string list" where
  "split_on c [] = [[]]"
| "split_on c (a # s) =
     (if a = c then [] # split_on c s
      else case split_on c s of [] \<Rightarrow> [[a]] | p # ps \<Rightarrow> (a # p) # ps)"

fun join_with :: "char \<Rightarrow> string list \<Rightarrow> string" where
  "join_with c [] = []"
| "join_with c [p] = p"
| "join_with c (p # ps) = p @ c # join_with c ps"

text \<open>\<open>email.strip().lower()\<close>, the canonical form of an address.\<close>

definition normalize_email :: "string \<Rightarrow> string" where
  "normalize_email email = map lower_char (strip email)"

subsection \<open>Decimal numbers\<close>

definition digit_char :: "nat \<Rightarrow> char" where
  "digit_char n = char_of (48 + n)"

definition digit_val :: "char \<Rightarrow> nat" where
  "digit_val c = code_of c - 48"

fun show_nat :: "nat \<Rightarrow> string" where
  "show_nat n = (if n < 10 then [digit_char n] else show_nat (n div 10) @ [digit_char (n mod 10)])"

declare show_nat.simps [simp del]

definition read_nat :: "string \<Rightarrow> nat" where
  "read_nat s = foldl (\<lambda>n c. 10 * n + digit_val c) 0 s"

definition show_int :: "int \<Rightarrow> string" where
  "show_int i = (if i < 0 then CHR ''-'' # show_nat (nat (- i)) else show_nat (nat i))"

text \<open>The format \<open>{i:0wd}\<close>: zeros between the sign and the digits up to width \<open>w\<close>.\<close>

definition show_padded :: "nat \<Rightarrow> int \<Rightarrow> string" where
  "show_padded w i =
     (if i < 0 then CHR ''-'' # (let s = show_nat (nat (- i)) in replicate (w - 1 - length s) (CHR ''0'') @ s)
      else let s = show_nat (nat i) in replicate (w - length s) (CHR ''0'') @ s)"

subsection \<open>Firmware versions\<close>

datatype version_key = Version_Key int int int string

fun key_tuple :: "version_key \<Rightarrow> int \<times> int \<times> int \<times> string" where
  "key_tuple (Version_Key a b c s) = (a, b, c, s)"

instantiation version_key :: linorder
begin

definition less_eq_version_key :: "version_key \<Rightarrow> version_key \<Rightarrow> bool" where
  "x \<le> y \<longleftrightarrow> key_tuple x \<le> key_tuple y"

definition less_version_key :: "version_key \<Rightarrow> version_key \<Rightarrow> bool" where
  "x < y \<longleftrightarrow> key_tuple x < key_tuple y"

instance
proof
  fix x y z :: version_key
  show "x \<le> y \<Longrightarrow> y \<le> x \<Longrightarrow> x = y" 
    unfolding less_eq_version_key_def by (drule (1) antisym) (cases x; cases y; simp)
qed (auto simp: less_eq_version_key_def less_version_key_def)

end

text \<open>
  The regular expression \<open>^(\d+)\.(\d+)\.(\d+)(?:-(.*))?$\<close>.  A run of digits is followed by a
  character that is not a digit, so matching is deterministic; a dot does not match a line break.
\<close>

definition match_version :: "string \<Rightarrow> (nat \<times> nat \<times> nat \<times> string) option" where
  "match_version v =
     (let a = takeWhile is_digit v; r1 = dropWhile is_digit v;
          b = takeWhile is_digit (tl r1); r2 = dropWhile is_digit (tl r1);
          c = takeWhile is_digit (tl r2); r3 = dropWhile is_digit (tl r2)
      in if a \<noteq> [] \<and> take 1 r1 = ''.'' \<and> b \<noteq> [] \<and> take 1 r2 = ''.'' \<and> c \<noteq> []
            \<and> (r3 = [] \<or> take 1 r3 = ''-'' \<and> CHR 0x0A \<notin> set r3)
         then Some (read_nat a, read_nat b, read_nat c, tl r3) else None)"

definition version_sort_key :: "string \<Rightarrow> version_key" where
  "version_sort_key version =
     (if version = [] then Version_Key (- 1) (- 1) (- 1) []
      else case match_version (strip version) of
             None \<Rightarrow> Version_Key (- 1) (- 1) (- 1) version
           | Some (major, minor, patch, suffix) \<Rightarrow> Version_Key (int major) (int minor) (int patch) suffix)"

definition is_newer_version :: "string \<Rightarrow> string \<Rightarrow> bool" where
  "is_newer_version candidate baseline \<longleftrightarrow> version_sort_key baseline < version_sort_key candidate"

text \<open>A release name as the firmware build writes it.\<close>

definition show_version :: "nat \<Rightarrow> nat \<Rightarrow> nat \<Rightarrow> string option \<Rightarrow> string" where
  "show_version a b c suffix = show_nat a @ CHR ''.'' # show_nat b @ CHR ''.'' # show_nat c
     @ (case suffix of None \<Rightarrow> [] | Some s \<Rightarrow> CHR ''-'' # s)"

text \<open>A suffix that the pattern accepts and \<open>strip\<close> leaves alone.\<close>

definition suffix_ok :: "string option \<Rightarrow> bool" where
  "suffix_ok suffix = (case suffix of None \<Rightarrow> True | Some s \<Rightarrow> CHR 0x0A \<notin> set s \<and> (s = [] \<or> \<not> is_space (last s)))"

subsection \<open>CSV cells\<close>

definition formula_trigger :: "char \<Rightarrow> bool" where
  "formula_trigger c \<longleftrightarrow>
     c \<in> {CHR ''='', CHR ''+'', CHR ''-'', CHR ''@'', CHR 0x09, CHR 0x0D, CHR 0x0A}"

definition reads_as_formula :: "string \<Rightarrow> bool" where
  "reads_as_formula s = (case lstrip_by (\<lambda>c. c = CHR '' '') s of [] \<Rightarrow> False | c # _ \<Rightarrow> formula_trigger c)"

definition sanitize_csv_cell :: "string option \<Rightarrow> string" where
  "sanitize_csv_cell value =
     (case value of
        None \<Rightarrow> []
      | Some s \<Rightarrow> if reads_as_formula s then CHR 0x27 # s else s)"

subsection \<open>The client behind the proxies\<close>

definition trusted_proxy_hops :: "int option \<Rightarrow> nat" where
  "trusted_proxy_hops configured =
     (case configured of None \<Rightarrow> 2 | Some hops \<Rightarrow> if 1 \<le> hops then nat hops else 1)"

definition client_ip_from_forwarded :: "int option \<Rightarrow> string \<Rightarrow> string option \<Rightarrow> string" where
  "client_ip_from_forwarded configured forwarded_for peer =
     (let hops = trusted_proxy_hops configured;
          chain = filter (\<lambda>p. p \<noteq> []) (map strip (split_on (CHR '','') forwarded_for))
      in if hops \<le> length chain then chain ! (length chain - hops)
         else case peer of None \<Rightarrow> ''unknown'' | Some p \<Rightarrow> if p = [] then ''unknown'' else p)"

text \<open>An entry a proxy appends, with the space that separates it from the comma: not blank and no comma.\<close>

definition hop_ok :: "string \<Rightarrow> bool" where
  "hop_ok p \<longleftrightarrow> strip p \<noteq> [] \<and> CHR '','' \<notin> set p"

subsection \<open>Lemmas\<close>

lemma code_of_char_of: "n < 256 \<Longrightarrow> code_of (char_of n) = n"
  by (simp add: code_of_def)

lemma digit_char_simps [simp]:
  assumes "n < 10"
  shows "is_digit (digit_char n)" "digit_val (digit_char n) = n"
  using assms by (simp_all add: is_digit_def digit_val_def digit_char_def code_of_char_of)

lemma show_nat_digits: "c \<in> set (show_nat n) \<Longrightarrow> is_digit c"
  by (induction n rule: show_nat.induct) (subst (asm) (2) show_nat.simps, auto split: if_splits)

lemma show_nat_nonempty [simp]: "show_nat n \<noteq> []"
  by (subst show_nat.simps) simp

lemma read_nat_snoc: "read_nat (s @ [c]) = 10 * read_nat s + digit_val c"
  by (simp add: read_nat_def)

lemma read_show_nat [simp]: "read_nat (show_nat n) = n"
proof (induction n rule: show_nat.induct)
  case (1 n)
  show ?case
  proof (cases "n < 10")
    case True
    then show ?thesis by (subst show_nat.simps) (simp add: read_nat_def)
  next
    case False
    then show ?thesis using 1 by (subst show_nat.simps) (simp add: read_nat_snoc)
  qed
qed

lemma read_nat_padded: "read_nat (replicate k (CHR ''0'') @ s) = read_nat s"
proof -
  have "foldl (\<lambda>n c. 10 * n + digit_val c) 0 (replicate k (CHR ''0'')) = 0"
    by (induction k) (simp_all add: digit_val_def code_of_def)
  then show ?thesis by (simp add: read_nat_def)
qed

lemma read_show_padded: "0 \<le> i \<Longrightarrow> int (read_nat (show_padded w i)) = i"
  by (simp add: show_padded_def Let_def read_nat_padded)

lemma digit_not_space: "is_digit c \<Longrightarrow> \<not> is_space c"
  by (auto simp: is_digit_def is_space_def Let_def)

lemma dropWhile_id: "(s = [] \<or> \<not> P (hd s)) \<Longrightarrow> dropWhile P s = s"
  by (cases s) auto

lemma strip_id:
  assumes "s \<noteq> []" "\<not> is_space (hd s)" "\<not> is_space (last s)"
  shows "strip s = s"
  using assms by (simp add: strip_def dropWhile_id hd_rev)

lemma span_digits:
  assumes "\<forall>c \<in> set ds. is_digit c" "r = [] \<or> \<not> is_digit (hd r)"
  shows "takeWhile is_digit (ds @ r) = ds" "dropWhile is_digit (ds @ r) = r"
proof -
  have "takeWhile is_digit r = []" "dropWhile is_digit r = r" using assms(2) by (cases r; auto)+
  then show "takeWhile is_digit (ds @ r) = ds" "dropWhile is_digit (ds @ r) = r"
    using assms(1) by (simp_all add: takeWhile_append2 dropWhile_append2)
qed

lemma not_digit_punct [simp]: "\<not> is_digit (CHR ''.'')" "\<not> is_digit (CHR ''-'')"
  by (simp_all add: is_digit_def code_of_def)

lemma show_nat_hd: "is_digit (hd (show_nat n))" and show_nat_last: "is_digit (last (show_nat n))"
  by (meson hd_in_set last_in_set show_nat_digits show_nat_nonempty)+

lemma match_show_version:
  assumes "suffix_ok suffix"
  shows "match_version (show_version a b c suffix) = Some (a, b, c, case suffix of None \<Rightarrow> [] | Some s \<Rightarrow> s)"
proof -
  let ?r = "case suffix of None \<Rightarrow> [] | Some s \<Rightarrow> CHR ''-'' # s"
  have r: "?r = [] \<or> \<not> is_digit (hd ?r)" by (simp split: option.split)
  have dots: "CHR ''.'' # x = [] \<or> \<not> is_digit (hd (CHR ''.'' # x))" for x by simp
  have ds: "\<forall>x \<in> set (show_nat n). is_digit x" for n using show_nat_digits by blast
  note spans = span_digits [OF ds dots] span_digits [OF ds r]
  have ok: "?r = [] \<or> take 1 ?r = ''-'' \<and> CHR 0x0A \<notin> set ?r" "tl ?r = (case suffix of None \<Rightarrow> [] | Some s \<Rightarrow> s)"
    using assms by (auto simp: suffix_ok_def split: option.splits)
  show ?thesis
    unfolding match_version_def show_version_def Let_def spans list.sel
    using ok by simp
qed

lemma strip_show_version:
  assumes "suffix_ok suffix"
  shows "strip (show_version a b c suffix) = show_version a b c suffix"
proof (rule strip_id)
  show "show_version a b c suffix \<noteq> []" by (simp add: show_version_def)
  show "\<not> is_space (hd (show_version a b c suffix))"
    using digit_not_space [OF show_nat_hd [of a]] by (simp add: show_version_def)
  have "\<not> is_space (CHR ''-'')" by (simp add: is_space_def code_of_def)
  then show "\<not> is_space (last (show_version a b c suffix))"
    using assms digit_not_space [OF show_nat_last [of c]]
    by (auto simp: show_version_def suffix_ok_def split: option.splits)
qed

lemma version_sort_key_show:
  "suffix_ok suffix \<Longrightarrow> version_sort_key (show_version a b c suffix) =
     Version_Key (int a) (int b) (int c) (case suffix of None \<Rightarrow> [] | Some s \<Rightarrow> s)"
  by (simp add: version_sort_key_def strip_show_version match_show_version) (simp add: show_version_def)

lemma version_sort_key_malformed:
  "match_version (strip v) = None \<Longrightarrow> version_sort_key v = Version_Key (- 1) (- 1) (- 1) v"
  by (simp add: version_sort_key_def)

lemma split_on_nonempty [simp]: "split_on c s \<noteq> []"
  by (induction s) (auto split: list.splits)

lemma split_on_append: "split_on c (s @ c # t) = split_on c s @ split_on c t"
proof (induction s)
  case (Cons a s)
  then show ?case by (cases "split_on c s") auto
qed simp

lemma split_on_plain: "c \<notin> set p \<Longrightarrow> split_on c p = [p]"
  by (induction p) auto

lemma split_join: "ps \<noteq> [] \<Longrightarrow> \<forall>p \<in> set ps. c \<notin> set p \<Longrightarrow> split_on c (join_with c ps) = ps"
  by (induction c ps rule: join_with.induct) (auto simp: split_on_plain split_on_append)

lemma chain_suffix:
  assumes "ts \<noteq> []" "\<forall>p \<in> set ts. hop_ok p"
  shows "filter (\<lambda>p. p \<noteq> []) (map strip (split_on (CHR '','') (spoof @ CHR '','' # join_with (CHR '','') ts))) =
           filter (\<lambda>p. p \<noteq> []) (map strip (split_on (CHR '','') spoof)) @ map strip ts"
    "filter (\<lambda>p. p \<noteq> []) (map strip (split_on (CHR '','') (join_with (CHR '','') ts))) = map strip ts"
proof -
  have *: "filter (\<lambda>p. p \<noteq> []) (map strip ts) = map strip ts" using assms(2) by (auto simp: hop_ok_def filter_id_conv)
  have "split_on (CHR '','') (join_with (CHR '','') ts) = ts"
    using assms by (intro split_join) (auto simp: hop_ok_def)
  with * show "filter (\<lambda>p. p \<noteq> []) (map strip (split_on (CHR '','') (spoof @ CHR '','' # join_with (CHR '','') ts))) =
           filter (\<lambda>p. p \<noteq> []) (map strip (split_on (CHR '','') spoof)) @ map strip ts"
    "filter (\<lambda>p. p \<noteq> []) (map strip (split_on (CHR '','') (join_with (CHR '','') ts))) = map strip ts"
    by (simp_all add: split_on_append)
qed

lemma trusted_proxy_hops_pos: "0 < trusted_proxy_hops k"
  by (simp add: trusted_proxy_hops_def split: option.split)

subsection \<open>Properties\<close>

text \<open>
  The version key reads back what a release is called: printing a version and taking its key
  gives the numbers and the suffix again, so releases are ordered numerically (2.10.0 after
  2.9.0), and every string that is not a version sorts below every one that is.
\<close>

lemma version_key_roundtrip:
  assumes "suffix_ok s"
  shows "version_sort_key (show_version a b c s) = Version_Key (int a) (int b) (int c) (case s of None \<Rightarrow> [] | Some x \<Rightarrow> x)
    \<and> (suffix_ok s' \<and> (a', b', c') < (a, b, c) \<longrightarrow> is_newer_version (show_version a b c s) (show_version a' b' c' s'))
    \<and> (match_version (strip v) = None \<longrightarrow> is_newer_version (show_version a b c s) v)"
proof -
  have "(int a', int b', int c', x') < (int a, int b, int c, x)" if "(a', b', c') < (a, b, c)" for x x' :: string
    using that by auto
  then show ?thesis
    using assms by (auto simp: version_sort_key_show version_sort_key_malformed is_newer_version_def less_version_key_def)
qed

text \<open>
  A CSV cell is never read as a formula: whatever text comes in, the cell that is written does
  not begin (after spaces) with a trigger character, guarding it again changes nothing, and the
  text is kept, with at most one apostrophe in front.
\<close>

theorem csv_cell_guarded:
  "\<not> reads_as_formula (sanitize_csv_cell v)
   \<and> sanitize_csv_cell (Some (sanitize_csv_cell v)) = sanitize_csv_cell v
   \<and> sanitize_csv_cell v \<in> (case v of None \<Rightarrow> {[]} | Some s \<Rightarrow> {s, CHR 0x27 # s})"
proof -
  have "\<not> reads_as_formula (CHR 0x27 # s)" for s by (simp add: reads_as_formula_def lstrip_by_def formula_trigger_def)
  moreover have "\<not> reads_as_formula []" by (simp add: reads_as_formula_def lstrip_by_def)
  ultimately show ?thesis by (cases v) (simp_all add: sanitize_csv_cell_def)
qed

text \<open>
  C38. The client address cannot be forged through the proxies: when each of the configured number of
  trusted proxies has appended its entry, with whatever spaces around it, the address used is the
  first of these entries, stripped, whatever chain the client sent in front of it.  A request that
  reaches the backend past the proxies carries a chain that the caller wrote, and is not covered.
\<close>

theorem client_ip_not_forgeable:
  assumes "length ts = trusted_proxy_hops k" "\<forall>p \<in> set ts. hop_ok p"
  shows "client_ip_from_forwarded k (spoof @ CHR '','' # join_with (CHR '','') ts) peer = strip (hd ts)
    \<and> client_ip_from_forwarded k (join_with (CHR '','') ts) peer = strip (hd ts)"
proof -
  have ne: "ts \<noteq> []" using assms(1) trusted_proxy_hops_pos [of k] by auto
  note chain = chain_suffix [OF ne assms(2)]
  show ?thesis
    unfolding client_ip_from_forwarded_def Let_def chain
    using ne assms(1) by (cases ts) (simp_all add: nth_append)
qed

theorem client_ip_not_forgeable_witness:
  "client_ip_from_forwarded None ''9.9.9.9, 203.0.113.7, 172.18.0.4'' None = ''203.0.113.7''"
proof -
  have "''9.9.9.9'' @ CHR '','' # join_with (CHR '','') ['' 203.0.113.7'', '' 172.18.0.4''] = ''9.9.9.9, 203.0.113.7, 172.18.0.4''"
    "strip (hd ['' 203.0.113.7'', '' 172.18.0.4'']) = ''203.0.113.7''" by code_simp+
  moreover have "length ['' 203.0.113.7'', '' 172.18.0.4''] = trusted_proxy_hops None"
    "\<forall>p \<in> set ['' 203.0.113.7'', '' 172.18.0.4'']. hop_ok p" by code_simp+
  ultimately show ?thesis
    using client_ip_not_forgeable [of "['' 203.0.113.7'', '' 172.18.0.4'']" None "''9.9.9.9''" None] by metis
qed

end
