(* ===== verification/Rate_Limit.thy ===== *)
theory Rate_Limit
  imports Refinement Numerics Texts "HOL-Library.AList"
begin

text \<open>
  The sliding-window rate limiter (\<open>backend/services/rate_limit.py\<close>), its dependencies and the
  blanket middleware.  The dictionary of deques is an association list, times are the floats of
  the monotonic clock, and every float operation rounds.

  The specification \<open>spec_step\<close> keeps the log of every allowed attempt for ever and counts those
  inside the window; \<open>simulation\<close> shows that the limiter, which prunes its deques and sweeps idle
  keys, gives the same answers.
\<close>

subsection \<open>The limiter\<close>

record limiter =
  max_attempts :: int
  window_sec :: pyfloat
  hits :: "(string \<times> pyfloat list) list"
  last_sweep :: pyfloat

datatype verdict = Allowed | Retry_After pyfloat | Index_Error

definition new_limiter :: "int \<Rightarrow> pyfloat \<Rightarrow> pyfloat \<Rightarrow> limiter" where
  "new_limiter attempts window clock =
     \<lparr>max_attempts = attempts, window_sec = window, hits = [], last_sweep = clock\<rparr>"

definition cutoff_at :: "pyfloat \<Rightarrow> pyfloat \<Rightarrow> pyfloat" where
  "cutoff_at window now = fl (now - window)"

definition prune :: "pyfloat \<Rightarrow> pyfloat list \<Rightarrow> pyfloat list" where
  "prune cutoff dq = dropWhile (\<lambda>t. t \<le> cutoff) dq"

definition deque_of :: "limiter \<Rightarrow> string \<Rightarrow> pyfloat list" where
  "deque_of l key = (case map_of (hits l) key of None \<Rightarrow> [] | Some dq \<Rightarrow> dq)"

definition maybe_sweep :: "limiter \<Rightarrow> pyfloat \<Rightarrow> limiter" where
  "maybe_sweep l now =
     (if fl (now - last_sweep l) < window_sec l then l
      else let cutoff = cutoff_at (window_sec l) now
           in l\<lparr>last_sweep := now,
                hits := filter (\<lambda>(k, dq). dq \<noteq> []) (map (\<lambda>(k, dq). (k, prune cutoff dq)) (hits l))\<rparr>)"

definition check :: "limiter \<Rightarrow> pyfloat \<Rightarrow> string \<Rightarrow> limiter \<times> verdict" where
  "check l now key =
     (let dq = prune (cutoff_at (window_sec l) now) (deque_of l key)
      in if max_attempts l \<le> int (length dq)
         then (l\<lparr>hits := AList.update key dq (hits l)\<rparr>,
               case dq of [] \<Rightarrow> Index_Error
                        | t # _ \<Rightarrow> Retry_After (fl (fl (t + window_sec l) - now)))
         else (maybe_sweep (l\<lparr>hits := AList.update key (dq @ [now]) (hits l)\<rparr>) now, Allowed))"

definition record_failure :: "limiter \<Rightarrow> pyfloat \<Rightarrow> string \<Rightarrow> limiter \<times> verdict" where
  "record_failure l now key = check l now key"

definition reset :: "limiter \<Rightarrow> string \<Rightarrow> limiter" where
  "reset l key = l\<lparr>hits := AList.delete key (hits l)\<rparr>"

text \<open>
  The rule of a limiter from its environment text: \<open>parse\<close> is the parsed text, \<open>None\<close> when it is
  not of the form attempts/seconds.
\<close>

definition rule_from_env :: "(int \<times> pyfloat) option \<Rightarrow> int \<times> pyfloat \<Rightarrow> int \<times> pyfloat" where
  "rule_from_env parsed dflt =
     (case parsed of
        None \<Rightarrow> dflt
      | Some (attempts, window) \<Rightarrow> if attempts < 1 \<or> window \<le> 0 then dflt else (attempts, window))"

text \<open>The dependency per account and the blanket middleware, with the seconds they announce.\<close>

definition retry_seconds :: "pyfloat \<Rightarrow> int" where
  "retry_seconds retry_after = (if 0 \<le> retry_after then \<lfloor>retry_after\<rfloor> else \<lceil>retry_after\<rceil>) + 1"

definition refuse :: "verdict \<Rightarrow> 'a \<Rightarrow> 'a response" where
  "refuse v x = (case v of Allowed \<Rightarrow> Inr x | Retry_After r \<Rightarrow> Inl (HTTPException 429 (show_int (retry_seconds r)))
                 | Index_Error \<Rightarrow> Inl IndexError)"

definition account_rate_limit_dependency :: "limiter \<Rightarrow> pyfloat \<Rightarrow> int \<Rightarrow> limiter \<times> int response" where
  "account_rate_limit_dependency l now user_id =
     (let (l', v) = check l now (''user:'' @ show_int user_id) in (l', refuse v user_id))"

definition api_rate_limit_middleware ::
  "limiter option \<Rightarrow> pyfloat \<Rightarrow> string \<Rightarrow> string \<Rightarrow> limiter option \<times> unit response" where
  "api_rate_limit_middleware api_rate_limiter now path client =
     (case api_rate_limiter of
        None \<Rightarrow> (None, Inr ())
      | Some l \<Rightarrow>
          if take 5 path \<noteq> ''/api/'' \<or> path = ''/api/health'' then (Some l, Inr ())
          else let (l', v) = check l now client in (Some l', refuse v ()))"

subsection \<open>The specification\<close>

record attempt_log =
  allowed :: "(string \<times> pyfloat) list"
  clock :: pyfloat

datatype attempt = Check string | Reset string

definition times_of :: "attempt_log \<Rightarrow> string \<Rightarrow> pyfloat list" where
  "times_of a key = map snd (filter (\<lambda>(k, t). k = key) (allowed a))"

definition in_window :: "pyfloat \<Rightarrow> pyfloat \<Rightarrow> attempt_log \<Rightarrow> string \<Rightarrow> pyfloat list" where
  "in_window window now a key = filter (\<lambda>t. cutoff_at window now < t) (times_of a key)"

fun spec_step :: "int \<Rightarrow> pyfloat \<Rightarrow> attempt_log \<Rightarrow> pyfloat \<times> attempt \<Rightarrow> attempt_log \<times> verdict" where
  "spec_step n window a (now, Check key) =
     (case in_window window now a key of
        recent \<Rightarrow>
          if int (length recent) < n then (a\<lparr>allowed := allowed a @ [(key, now)], clock := now\<rparr>, Allowed)
          else (a\<lparr>clock := now\<rparr>, Retry_After (fl (fl (hd recent + window) - now))))"
| "spec_step n window a (now, Reset key) =
     (a\<lparr>allowed := filter (\<lambda>(k, t). k \<noteq> key) (allowed a), clock := now\<rparr>, Allowed)"

fun limiter_step :: "limiter \<Rightarrow> pyfloat \<times> attempt \<Rightarrow> limiter \<times> verdict" where
  "limiter_step l (now, Check key) = check l now key"
| "limiter_step l (now, Reset key) = (reset l key, Allowed)"

text \<open>The monotonic clock.\<close>

definition clock_moves_on :: "attempt_log \<Rightarrow> pyfloat \<times> attempt \<Rightarrow> bool" where
  "clock_moves_on a i \<longleftrightarrow> clock a \<le> fst i"

definition limiter_rel :: "int \<Rightarrow> pyfloat \<Rightarrow> limiter \<Rightarrow> attempt_log \<Rightarrow> bool" where
  "limiter_rel n window l a \<longleftrightarrow>
     max_attempts l = n \<and> window_sec l = window \<and> distinct (map fst (hits l))
     \<and> (\<forall>key. sorted (deque_of l key) \<and> (\<forall>t \<in> set (deque_of l key). t \<le> clock a)
          \<and> (\<forall>c \<ge> cutoff_at window (clock a). prune c (deque_of l key) = filter (\<lambda>t. c < t) (times_of a key)))"

text \<open>What a state of the limiter must satisfy at a key is kept by pruning at the current cutoff.\<close>

definition deque_rel :: "pyfloat \<Rightarrow> pyfloat \<Rightarrow> pyfloat list \<Rightarrow> pyfloat list \<Rightarrow> bool" where
  "deque_rel window now dq ts \<longleftrightarrow> sorted dq \<and> (\<forall>t \<in> set dq. t \<le> now)
     \<and> (\<forall>c \<ge> cutoff_at window now. prune c dq = filter (\<lambda>t. c < t) ts)"

definition empty_log :: "pyfloat \<Rightarrow> attempt_log" where
  "empty_log t = \<lparr>allowed = [], clock = t\<rparr>"

subsection \<open>Lemmas\<close>

lemma cutoff_at_mono: "now \<le> now' \<Longrightarrow> cutoff_at window now \<le> cutoff_at window now'"
  by (simp add: cutoff_at_def bin64.rnd_mono)

lemma prune_sorted: "sorted dq \<Longrightarrow> prune c dq = filter (\<lambda>t. c < t) dq"
proof (induction dq)
  case (Cons t dq)
  show ?case
  proof (cases "t \<le> c")
    case False
    then have "\<forall>x \<in> set dq. c < x" using Cons.prems by auto
    with False show ?thesis by (simp add: prune_def)
  qed (use Cons in \<open>simp add: prune_def\<close>)
qed (simp add: prune_def)

lemma sorted_prune: "sorted dq \<Longrightarrow> sorted (prune c dq)"
  by (simp add: prune_def sorted_dropWhile)

lemma set_prune: "set (prune c dq) \<subseteq> set dq"
  by (auto simp: prune_def dest: set_dropWhileD)

lemma prune_prune: "c \<le> c' \<Longrightarrow> prune c' (prune c dq) = prune c' dq"
  by (induction dq) (auto simp: prune_def)

lemma prune_snoc: "sorted (dq @ [t]) \<Longrightarrow> prune c (dq @ [t]) = prune c dq @ (if c < t then [t] else [])"
  by (simp add: prune_sorted sorted_append)

lemma deque_of_update: "deque_of (l\<lparr>hits := AList.update k dq (hits l)\<rparr>) key = (if key = k then dq else deque_of l key)"
  by (simp add: deque_of_def update_conv')

lemma deque_of_reset: "deque_of (reset l k) key = (if key = k then [] else deque_of l key)"
  by (simp add: deque_of_def reset_def delete_conv')

lemma map_of_sweep:
  assumes "distinct (map fst h)"
  shows "(case map_of (filter (\<lambda>(k, dq). dq \<noteq> []) (map (\<lambda>(k, dq). (k, prune c dq)) h)) key of None \<Rightarrow> [] | Some dq \<Rightarrow> dq)
    = prune c (case map_of h key of None \<Rightarrow> [] | Some dq \<Rightarrow> dq)"
  using assms
proof (induction h)
  case (Cons e h)
  have "(fst e, dq) \<notin> set h" for dq using Cons.prems image_eqI [of "fst e" fst "(fst e, dq)" "set h"] by auto
  then have "map_of (filter (\<lambda>(k, dq). dq \<noteq> []) (map (\<lambda>(k, dq). (k, prune c dq)) h)) (fst e) = None"
    by (auto simp: map_of_eq_None_iff)
  with Cons show ?case by (cases e) (auto simp: eq_commute [of "[]"])
qed (simp add: prune_def)

lemma maybe_sweep_fields [simp]:
  "max_attempts (maybe_sweep l now) = max_attempts l" "window_sec (maybe_sweep l now) = window_sec l"
  by (simp_all add: maybe_sweep_def Let_def)

lemma maybe_sweep_deque:
  assumes "distinct (map fst (hits l))"
  shows "deque_of (maybe_sweep l now) key = deque_of l key
    \<or> deque_of (maybe_sweep l now) key = prune (cutoff_at (window_sec l) now) (deque_of l key)"
  using map_of_sweep [OF assms, of "cutoff_at (window_sec l) now" key]
  by (simp add: maybe_sweep_def deque_of_def Let_def)

lemma maybe_sweep_distinct:
  assumes "distinct (map fst (hits l))"
  shows "distinct (map fst (hits (maybe_sweep l now)))"
proof -
  have "distinct (map fst (map (\<lambda>(k, dq). (k, prune c dq)) (hits l)))" for c
    using assms by (simp add: split_beta comp_def)
  with assms show ?thesis by (auto simp: maybe_sweep_def Let_def intro: distinct_map_filter)
qed

lemma limiter_rel_iff:
  "limiter_rel n window l a \<longleftrightarrow> max_attempts l = n \<and> window_sec l = window \<and> distinct (map fst (hits l))
     \<and> (\<forall>key. deque_rel window (clock a) (deque_of l key) (times_of a key))"
  by (auto simp: limiter_rel_def deque_rel_def)

lemma deque_rel_advance:
  assumes "deque_rel window now dq ts" "now \<le> now'"
  shows "deque_rel window now' dq ts"
  using assms cutoff_at_mono [OF assms(2), of window] unfolding deque_rel_def by (meson order_trans)

lemma deque_rel_prune:
  assumes "deque_rel window now dq ts"
  shows "deque_rel window now (prune (cutoff_at window now) dq) ts"
  unfolding deque_rel_def
proof (intro conjI allI impI ballI)
  show "sorted (prune (cutoff_at window now) dq)" using assms unfolding deque_rel_def by (intro sorted_prune) blast
next
  fix t
  assume "t \<in> set (prune (cutoff_at window now) dq)"
  then have "t \<in> set dq" using set_prune by blast
  with assms show "t \<le> now" by (simp add: deque_rel_def)
next
  fix c
  assume c: "cutoff_at window now \<le> c"
  with assms show "prune c (prune (cutoff_at window now) dq) = filter (\<lambda>t. c < t) ts"
    unfolding deque_rel_def prune_prune [OF c] by blast
qed

lemma deque_rel_snoc:
  assumes "deque_rel window now dq ts"
  shows "deque_rel window now (dq @ [now]) (ts @ [now])"
proof -
  have "sorted (dq @ [now])" using assms by (auto simp: deque_rel_def sorted_append)
  with assms show ?thesis by (auto simp: deque_rel_def prune_snoc)
qed

lemma deque_rel_sweep:
  assumes "distinct (map fst (hits l))" "deque_rel (window_sec l) now (deque_of l key) ts"
  shows "deque_rel (window_sec l) now (deque_of (maybe_sweep l now) key) ts"
  using maybe_sweep_deque [OF assms(1), of now key] deque_rel_prune [OF assms(2)] assms(2) by auto

lemma times_of_simps [simp]:
  "times_of (a\<lparr>clock := t\<rparr>) key = times_of a key"
  "times_of (a\<lparr>allowed := allowed a @ [(k, t)]\<rparr>) key = times_of a key @ (if key = k then [t] else [])"
  "times_of (a\<lparr>allowed := filter (\<lambda>(k, t). k \<noteq> k0) (allowed a)\<rparr>) key = (if key = k0 then [] else times_of a key)"
  by (auto simp: times_of_def split_beta filter_empty_conv intro!: arg_cong [where f = "map snd"] filter_cong)

lemma reset_fields [simp]:
  "max_attempts (reset l k) = max_attempts l" "window_sec (reset l k) = window_sec l"
  "hits (reset l k) = AList.delete k (hits l)"
  by (simp_all add: reset_def)

lemma recent_deque:
  assumes "limiter_rel n window l a" "clock a \<le> now"
  shows "prune (cutoff_at window now) (deque_of l key) = in_window window now a key"
  using assms cutoff_at_mono [OF assms(2), of window] by (simp add: limiter_rel_def in_window_def)

subsection \<open>The limiter implements its specification\<close>

interpretation window: simulation limiter_step "spec_step n window" clock_moves_on
  "\<lambda>l a. 0 < n \<and> limiter_rel n window l a" for n window
proof
  fix l a and i :: "pyfloat \<times> attempt"
  assume rel: "0 < n \<and> limiter_rel n window l a" and moves: "clock_moves_on a i"
  obtain now op where i: "i = (now, op)" by (cases i)
  have now: "clock a \<le> now" using moves by (simp add: clock_moves_on_def i)
  have l: "max_attempts l = n" "window_sec l = window" "distinct (map fst (hits l))" "0 < n"
    and dq: "deque_rel window now (deque_of l key) (times_of a key)" for key
    using rel now by (auto simp: limiter_rel_iff intro: deque_rel_advance)
  note recent = recent_deque [OF conjunct2 [OF rel] now]
  show "snd (limiter_step l i) = snd (spec_step n window a i)"
    using l recent by (cases op) (auto simp: i check_def Let_def not_less split: list.split)
  show "0 < n \<and> limiter_rel n window (fst (limiter_step l i)) (fst (spec_step n window a i))"
  proof (cases op)
    case (Reset key)
    have "deque_rel window now [] []" by (simp add: deque_rel_def prune_def)
    with l dq Reset show ?thesis
      by (auto simp: i limiter_rel_iff deque_of_reset distinct_delete)
  next
    case (Check key)
    let ?dq = "prune (cutoff_at window now) (deque_of l key)"
    have dq': "deque_rel window now ?dq (times_of a key)" using dq by (rule deque_rel_prune)
    have upd: "distinct (map fst (hits (l\<lparr>hits := AList.update key x (hits l)\<rparr>)))" for x
      using l(3) by (simp add: distinct_update)
    show ?thesis
    proof (cases "n \<le> int (length ?dq)")
      case True
      then show ?thesis
        using l dq dq' upd recent [of key]
        by (auto simp: i Check limiter_rel_iff check_def Let_def deque_of_update)
    next
      case False
      let ?l = "l\<lparr>hits := AList.update key (?dq @ [now]) (hits l)\<rparr>"
      have "deque_rel window now (deque_of ?l k) (times_of a k @ (if k = key then [now] else []))" for k
        using dq deque_rel_snoc [OF dq'] by (simp add: deque_of_update)
      then have "deque_rel window now (deque_of (maybe_sweep ?l now) k) (times_of a k @ (if k = key then [now] else []))" for k
        using deque_rel_sweep [OF upd, of "?dq @ [now]" now] l(2) by simp
      then show ?thesis
        using False l maybe_sweep_distinct [OF upd] recent [of key]
        by (simp add: i Check limiter_rel_iff check_def Let_def)
    qed
  qed
qed

lemma spec_step_bound:
  assumes "\<forall>key. int (length (in_window window (clock a) a key)) \<le> n" "clock_moves_on a i" "0 < n"
  shows "int (length (in_window window (clock (fst (spec_step n window a i))) (fst (spec_step n window a i)) key)) \<le> n"
proof -
  obtain now op where i: "i = (now, op)" by (cases i)
  have "cutoff_at window (clock a) \<le> cutoff_at window now"
    using assms(2) by (intro cutoff_at_mono) (simp add: clock_moves_on_def i)
  then have "length (in_window window now a key) \<le> length (in_window window (clock a) a key)"
    unfolding in_window_def count_where_def [symmetric] by (intro count_where_mono) linarith
  moreover have "int (length (in_window window (clock a) a key)) \<le> n" using assms(1) by blast
  ultimately have old: "int (length (in_window window now a key)) \<le> n" by linarith
  then show ?thesis using assms(3) by (cases op) (auto simp: i in_window_def)
qed

lemma spec_run_bound:
  assumes "\<forall>key. int (length (in_window window (clock a) a key)) \<le> n" "0 < n"
    "admissible (spec_step n window) clock_moves_on a is"
  shows "\<forall>key. int (length (in_window window (clock (fst (run (spec_step n window) a is)))
           (fst (run (spec_step n window) a is)) key)) \<le> n"
  using assms
proof (induction "is" arbitrary: a)
  case (Cons i "is")
  have "\<forall>key. int (length (in_window window (clock (fst (spec_step n window a i))) (fst (spec_step n window a i)) key)) \<le> n"
    using Cons.prems by (auto intro: spec_step_bound)
  from Cons.IH [OF this] Cons.prems(2,3) show ?case by (auto simp: Let_def split: prod.splits)
qed simp

subsection \<open>Properties\<close>

text \<open>
  C12. The rate limiter, which prunes its deques and forgets idle keys, answers every sequence of
  attempts and resets exactly as the specification that remembers every allowed attempt; and it
  never lets more than the configured number of attempts of a key through in one window.
\<close>

theorem rate_limiter_refines_log:
  assumes "0 < n" "admissible (spec_step n window) clock_moves_on (empty_log t0) is"
  shows "snd (run limiter_step (new_limiter n window t0) is) = snd (run (spec_step n window) (empty_log t0) is)
    \<and> (let a = fst (run (spec_step n window) (empty_log t0) is)
       in \<forall>key. int (length (in_window window (clock a) a key)) \<le> n)"
proof -
  have "limiter_rel n window (new_limiter n window t0) (empty_log t0)"
    by (simp add: limiter_rel_def new_limiter_def empty_log_def deque_of_def times_of_def prune_def)
  then have "snd (run limiter_step (new_limiter n window t0) is) = snd (run (spec_step n window) (empty_log t0) is)"
    using window.run_related [OF _ assms(2)] assms(1) by blast
  moreover have "\<forall>key. int (length (in_window window (clock (empty_log t0)) (empty_log t0) key)) \<le> n"
    using assms(1) by (simp add: in_window_def times_of_def empty_log_def)
  ultimately show ?thesis using spec_run_bound assms by (simp add: Let_def)
qed

theorem rate_limiter_refines_log_witness:
  "snd (run limiter_step (new_limiter 2 60 0) [(1, Check ''a''), (2, Check ''a''), (3, Check ''a''), (70, Check ''a'')])
     = [Allowed, Allowed, Retry_After 58, Allowed]"
proof -
  have "admissible (spec_step 2 60) clock_moves_on (empty_log 0)
      [(1, Check ''a''), (2, Check ''a''), (3, Check ''a''), (70, Check ''a'')]" by code_simp
  moreover have "snd (run (spec_step 2 60) (empty_log 0)
      [(1, Check ''a''), (2, Check ''a''), (3, Check ''a''), (70, Check ''a'')]) = [Allowed, Allowed, Retry_After 58, Allowed]"
    by code_simp
  ultimately show ?thesis
    using rate_limiter_refines_log [of 2 60 0 "[(1, Check ''a''), (2, Check ''a''), (3, Check ''a''), (70, Check ''a'')]"] by simp
qed

end
