(* ===== verification/Money.thy ===== *)
theory Money
  imports Numerics
begin

text \<open>
  Money helpers (\<open>backend/services/money.py\<close>).

  A \<open>decimal\<close> is a value of Python's \<open>Decimal\<close>; a result of \<open>to_money\<close> is the integer
  number of hundredths.  \<open>quantize\<close> signals \<open>InvalidOperation\<close> when the quantized
  coefficient needs more than 28 digits; it is \<open>None\<close> here, and \<open>to_money\<close> clamps.
\<close>

subsection \<open>Definitions\<close>

datatype decimal =
    Finite rat
  | Infinity bool
  | NaN

definition ZERO_MONEY :: money where
  "ZERO_MONEY = 0"

definition MAX_MONEY :: money where
  "MAX_MONEY = 999999999999"

definition quantize :: "rat \<Rightarrow> money option" where
  "quantize v = (let n = round_half_up (v * 100) in if \<bar>n\<bar> < 10 ^ 28 then Some n else None)"

definition to_money :: "decimal \<Rightarrow> money" where
  "to_money value =
     (case value of
        NaN \<Rightarrow> ZERO_MONEY
      | Infinity negative \<Rightarrow> (if negative then - MAX_MONEY else MAX_MONEY)
      | Finite v \<Rightarrow>
          (case quantize v of
             None \<Rightarrow> (if 0 < v then MAX_MONEY else - MAX_MONEY)
           | Some result \<Rightarrow>
               if MAX_MONEY < result then MAX_MONEY
               else if result < - MAX_MONEY then - MAX_MONEY
               else result))"

text \<open>The two conversions callers use: of a \<open>Decimal\<close> money value and of a float.\<close>

definition money_dec :: "money \<Rightarrow> rat" where
  "money_dec m = of_int m / 100"

definition to_money_m :: "money \<Rightarrow> money" where
  "to_money_m m = to_money (Finite (money_dec m))"

definition to_money_f :: "pyfloat \<Rightarrow> money" where
  "to_money_f x = to_money (Finite (float_repr x))"

definition energy_cost :: "pyfloat \<Rightarrow> decimal \<Rightarrow> money" where
  "energy_cost energy_kwh rate_coins_per_kwh =
     (let rate = to_money rate_coins_per_kwh;
          energy = float_repr energy_kwh
      in to_money (Finite (dctx (energy * money_dec rate))))"

text \<open>The net effect of the range checks.\<close>

definition clamp_money :: "money \<Rightarrow> money" where
  "clamp_money n = max (- MAX_MONEY) (min MAX_MONEY n)"

subsection \<open>Basic facts\<close>

lemma MAX_MONEY_pos [simp]: "0 < MAX_MONEY" "0 \<le> MAX_MONEY"
  by (simp_all add: MAX_MONEY_def)

lemma clamp_money_bounds [simp]: "- MAX_MONEY \<le> clamp_money n" "clamp_money n \<le> MAX_MONEY"
  using MAX_MONEY_pos by (simp_all add: clamp_money_def)

lemma clamp_money_id: "\<bar>n\<bar> \<le> MAX_MONEY \<Longrightarrow> clamp_money n = n"
  by (auto simp: clamp_money_def)

lemma clamp_money_mono: "m \<le> n \<Longrightarrow> clamp_money m \<le> clamp_money n"
  by (auto simp: clamp_money_def)

lemma clamp_money_nonneg: "0 \<le> n \<Longrightarrow> 0 \<le> clamp_money n"
  by (simp add: clamp_money_def)

lemma clamp_money_le: "0 \<le> n \<Longrightarrow> clamp_money n \<le> n"
  by (simp add: clamp_money_def MAX_MONEY_def)

lemma clamp_money_absorb:
  "0 \<le> a \<Longrightarrow> 0 \<le> b \<Longrightarrow> clamp_money (clamp_money a + b) = clamp_money (a + b)"
  by (auto simp: clamp_money_def MAX_MONEY_def)

lemma round_half_up_sign:
  "10 ^ 28 \<le> \<bar>round_half_up x\<bar> \<Longrightarrow> (0 < x) = (0 < round_half_up x)"
  by (cases "0 \<le> x") (auto simp: round_half_up_def abs_if split: if_splits; linarith)+

lemma to_money_Finite: "to_money (Finite v) = clamp_money (round_half_up (v * 100))"
proof (cases "\<bar>round_half_up (v * 100)\<bar> < 10 ^ 28")
  case True
  then show ?thesis
    by (simp add: to_money_def quantize_def Let_def clamp_money_def MAX_MONEY_def)
next
  case False
  then have "0 < v \<longleftrightarrow> 0 < round_half_up (v * 100)"
    using round_half_up_sign [of "v * 100"] by simp
  with False show ?thesis
    by (auto simp: to_money_def quantize_def Let_def clamp_money_def MAX_MONEY_def)
qed

lemma to_money_bounds [simp]: "- MAX_MONEY \<le> to_money d" "to_money d \<le> MAX_MONEY"
  by (cases d; simp add: to_money_Finite; simp add: to_money_def ZERO_MONEY_def MAX_MONEY_def)+

lemma to_money_abs: "\<bar>to_money d\<bar> \<le> MAX_MONEY"
  using to_money_bounds [of d] by linarith

lemma to_money_mono: "u \<le> v \<Longrightarrow> to_money (Finite u) \<le> to_money (Finite v)"
  by (simp add: to_money_Finite clamp_money_mono round_half_up_mono)

lemma to_money_m_clamp: "to_money_m m = clamp_money m"
  by (simp add: to_money_m_def money_dec_def to_money_Finite round_half_up_of_int)

lemma to_money_m_id: "\<bar>m\<bar> \<le> MAX_MONEY \<Longrightarrow> to_money_m m = m"
  by (simp add: to_money_m_clamp clamp_money_id)

lemma round_half_up_0 [simp]: "round_half_up 0 = 0"
  using round_half_up_of_int [of 0] by simp

lemma to_money_nonneg: "0 \<le> v \<Longrightarrow> 0 \<le> to_money (Finite v)"
  using to_money_mono [of 0 v] by (simp add: to_money_Finite clamp_money_def)

lemma to_money_f_nonneg: "is_float x \<Longrightarrow> 0 \<le> x \<Longrightarrow> 0 \<le> to_money_f x"
  by (simp add: to_money_f_def to_money_nonneg float_repr_nonneg is_float_def)

text \<open>An amount survives the trip through a float: the API sends money as JSON numbers.\<close>

lemma money_float_near:
  assumes "0 \<le> m" "m \<le> MAX_MONEY"
  shows "\<bar>fl (money_dec m) - money_dec m\<bar> \<le> 1 / 8192" "0 \<le> fl (money_dec m)" "fl (money_dec m) < 2 ^ 40"
proof -
  have m: "0 \<le> money_dec m" "money_dec m \<le> 10000000000" using assms by (simp_all add: money_dec_def MAX_MONEY_def)
  then show "\<bar>fl (money_dec m) - money_dec m\<bar> \<le> 1 / 8192" by (intro fl_abs_error) simp
  then have "fl (money_dec m) \<le> money_dec m + 1" by linarith
  then show "fl (money_dec m) < 2 ^ 40" using m by simp
  show "0 \<le> fl (money_dec m)" using m(1) by (rule bin64.rnd_nonneg)
qed

lemma py_round_money:
  assumes "0 \<le> m" "m \<le> MAX_MONEY"
  shows "py_round 2 (fl (money_dec m)) = fl (money_dec m)"
proof -
  have "\<bar>fl (money_dec m) * 100 - money_dec m * 100\<bar> < 1 / 2" using money_float_near(1) [OF assms] by linarith
  then have "\<bar>fl (money_dec m) * 100 - of_int m\<bar> < 1 / 2" by (simp add: money_dec_def)
  then show ?thesis by (simp add: py_round_def round_near(1) money_dec_def)
qed

lemma to_money_f_money:
  assumes "0 \<le> m" "m \<le> MAX_MONEY"
  shows "to_money_f (fl (money_dec m)) = m"
proof -
  note near = money_float_near [OF assms]
  have "\<bar>float_repr (fl (money_dec m)) - fl (money_dec m)\<bar> \<le> 1 / 8192"
    using near by (intro float_repr_error) (simp_all add: bin64.rnd_idem)
  then have "\<bar>float_repr (fl (money_dec m)) * 100 - money_dec m * 100\<bar> < 1 / 2" using near(1) by linarith
  then have "\<bar>float_repr (fl (money_dec m)) * 100 - of_int m\<bar> < 1 / 2" by (simp add: money_dec_def)
  then show ?thesis using assms by (simp add: to_money_f_def to_money_Finite round_near(2) clamp_money_id)
qed

lemma energy_cost_bounds: "\<bar>energy_cost e r\<bar> \<le> MAX_MONEY"
  by (simp add: energy_cost_def Let_def to_money_abs)

lemma energy_cost_zero [simp]: "energy_cost 0 r = 0"
  by (simp add: energy_cost_def Let_def to_money_Finite dec28.rnd_zero clamp_money_def)

lemma energy_cost_mono:
  assumes "is_float e" "is_float e'" "e \<le> e'" "0 \<le> to_money r"
  shows "energy_cost e r \<le> energy_cost e' r"
proof -
  have "float_repr e \<le> float_repr e'" using assms by (simp add: is_float_def float_repr_mono)
  then have "float_repr e * money_dec (to_money r) \<le> float_repr e' * money_dec (to_money r)"
    using assms(4) by (intro mult_right_mono) (simp_all add: money_dec_def)
  then show ?thesis by (simp add: energy_cost_def Let_def to_money_mono dec28.rnd_mono)
qed

lemma energy_cost_nonneg:
  "is_float e \<Longrightarrow> 0 \<le> e \<Longrightarrow> 0 \<le> to_money r \<Longrightarrow> 0 \<le> energy_cost e r"
  using energy_cost_mono [of 0 e r] by simp

lemma energy_cost_mono_rate:
  assumes "is_float e" "0 \<le> e" "to_money r \<le> to_money r'"
  shows "energy_cost e r \<le> energy_cost e r'"
proof -
  have "0 \<le> float_repr e" using assms by (simp add: is_float_def float_repr_nonneg)
  then have "float_repr e * money_dec (to_money r) \<le> float_repr e * money_dec (to_money r')"
    using assms(3) by (intro mult_left_mono) (simp_all add: money_dec_def divide_right_mono)
  then show ?thesis by (simp add: energy_cost_def Let_def to_money_mono dec28.rnd_mono)
qed

subsection \<open>Properties\<close>

text \<open>
  C34. \<open>to_money\<close> is total: on every decimal, NaN and the infinities included, its result
  is a value a \<open>NUMERIC(12,2)\<close> column stores; on a finite value in range it is within half
  a hundredth of the value, and on a value that already is in-range money it is the identity.
\<close>

theorem to_money_correct:
  "\<bar>to_money d\<bar> \<le> MAX_MONEY
   \<and> (\<forall>v. \<bar>v\<bar> \<le> money_dec MAX_MONEY \<longrightarrow> \<bar>money_dec (to_money (Finite v)) - v\<bar> \<le> 1 / 200)
   \<and> (\<forall>m. \<bar>m\<bar> \<le> MAX_MONEY \<longrightarrow> to_money_m m = m)"
proof (intro conjI allI impI)
  fix v :: rat
  assume v: "\<bar>v\<bar> \<le> money_dec MAX_MONEY"
  have "v * 100 \<le> of_int MAX_MONEY" "of_int (- MAX_MONEY) \<le> v * 100"
    using v by (simp_all add: money_dec_def abs_le_iff)
  then have "round_half_up (v * 100) \<le> round_half_up (of_int MAX_MONEY)"
    "round_half_up (of_int (- MAX_MONEY)) \<le> round_half_up (v * 100)"
    by (simp_all only: round_half_up_mono)
  then have "\<bar>round_half_up (v * 100)\<bar> \<le> MAX_MONEY" by (simp only: round_half_up_of_int)
  then have "to_money (Finite v) = round_half_up (v * 100)"
    by (simp add: to_money_Finite clamp_money_id)
  then show "\<bar>money_dec (to_money (Finite v)) - v\<bar> \<le> 1 / 200"
    using round_half_up_err [of "v * 100"] by (simp add: money_dec_def abs_le_iff field_simps)
qed (simp_all add: to_money_abs to_money_m_id)

theorem to_money_correct_witness:
  "\<bar>to_money (Finite (1665 / 1000))\<bar> \<le> MAX_MONEY \<and> to_money (Finite (1665 / 1000)) = 167
   \<and> \<bar>money_dec (to_money (Finite (1665 / 1000))) - 1665 / 1000\<bar> \<le> 1 / 200 \<and> to_money_m 167 = 167"
proof -
  have "to_money (Finite (1665 / 1000)) = 167" by code_simp
  moreover have "\<bar>1665 / 1000 :: rat\<bar> \<le> money_dec MAX_MONEY" "\<bar>167\<bar> \<le> MAX_MONEY" by code_simp+
  ultimately show ?thesis using to_money_correct [of "Finite (1665 / 1000)"] by blast
qed

text \<open>
  The charge for energy is monotone: more energy at the same rate, or the same energy
  at a rate at least as high, never costs less, and a session that drew nothing owes nothing.
\<close>

theorem energy_cost_monotone:
  assumes "is_float e" "is_float e'" "0 \<le> e" "e \<le> e'" "0 \<le> to_money r" "to_money r \<le> to_money r'"
  shows "0 \<le> energy_cost e r \<and> energy_cost e r \<le> energy_cost e' r' \<and> energy_cost 0 r = 0"
  using assms energy_cost_mono [of e e' r] energy_cost_mono_rate [of e' r r'] energy_cost_nonneg [of e r]
  by auto

theorem energy_cost_monotone_witness:
  "0 \<le> energy_cost 1 (Finite 5) \<and> energy_cost 1 (Finite 5) \<le> energy_cost 2 (Finite 8)
   \<and> energy_cost 0 (Finite 5) = 0"
  by (rule energy_cost_monotone) (code_simp+)

end
