(* ===== verification/Models.thy ===== *)
theory Models
  imports Money
begin

text \<open>
  The data model (\<open>backend/database/models.py\<close>): one enum as a \<open>datatype\<close> per database
  enum, one \<open>record\<close> per mapped class with its columns in order, and the database as a record
  of tables.  A nullable column is an \<open>option\<close>.  Columns that hold only presentation or
  identity text and that no modelled operation reads (names, descriptions, coordinates,
  password hashes) are left out, as are the tables of the components that are not modelled.
  The process configuration read from the environment is the record \<open>config\<close>, with the
  defaults of the source in \<open>default_config\<close>.
\<close>

subsection \<open>Enums\<close>

datatype user_role = ADMIN | CPO | DRIVER

datatype gateway_status = ONLINE | GW_OFFLINE

datatype plug_status = AVAILABLE | OCCUPIED | OFFLINE | MAINTENANCE

datatype session_status = ACTIVE | COMPLETED | PAID | CANCELLED

datatype transaction_type = TOPUP | SESSION_DEBIT | REFUND | CPO_TOPUP | ACCOUNT_CLOSURE

datatype payout_status = PO_REQUESTED | PO_PAID | PO_CANCELLED

datatype dispute_status = DI_OPEN | DI_APPROVED | DI_REJECTED

datatype reservation_status = RS_BOOKED | RS_CANCELLED | RS_FULFILLED | RS_EXPIRED

datatype queued_charge_status = QC_WAITING | QC_STARTED | QC_CANCELLED | QC_EXPIRED | QC_FAILED

subsection \<open>Rows\<close>

record tenant =
  tn_id :: int
  tn_default_tariff_id :: "int option"
  tn_gstin :: "string option"
  tn_legal_name :: "string option"
  tn_invoice_prefix :: "string option"
  tn_next_invoice_seq :: int
  tn_timezone :: string
  tn_queued_charging_enabled :: bool
  tn_auto_start_delay_min :: int
  tn_queue_ttl_min :: int

record user =
  us_id :: int
  us_tenant_id :: "int option"
  us_email :: string
  us_role :: user_role
  us_coin_balance :: money
  us_token_version :: int
  us_is_disabled :: bool
  us_email_verified :: bool
  us_deleted_at :: "timestamp option"

record gateway =
  gw_id :: string
  gw_tenant_id :: "int option"
  gw_status :: gateway_status
  gw_last_seen_at :: timestamp
  gw_firmware_version :: "string option"
  gw_claim_code :: "string option"
  gw_claimed_at :: "timestamp option"

record plug =
  pl_id :: int
  pl_gateway_id :: string
  pl_status :: plug_status
  pl_current_power_w :: pyfloat
  pl_last_seen_at :: timestamp
  pl_last_telemetry_at :: "timestamp option"
  pl_powered_since :: "timestamp option"
  pl_group_id :: "int option"
  pl_tariff_id :: "int option"
  pl_max_current_a :: "pyfloat option"
  pl_queued_charging_enabled :: "bool option"
  pl_auto_start_delay_min :: "int option"
  pl_last_today_energy_kwh :: "pyfloat option"
  pl_last_month_energy_kwh :: "pyfloat option"
  pl_unique_id :: "string option"

record charging_session =
  cs_id :: int
  cs_tenant_id :: int
  cs_user_id :: int
  cs_plug_id :: int
  cs_started_at :: timestamp
  cs_ended_at :: "timestamp option"
  cs_energy_kwh :: pyfloat
  cs_peak_power_w :: pyfloat
  cs_last_telemetry_at :: "timestamp option"
  cs_coins_spent :: money
  cs_rate_coins_per_kwh :: "money option"
  cs_hold_coins :: "money option"
  cs_status :: session_status
  cs_max_kwh :: "pyfloat option"
  cs_max_duration_seconds :: "int option"
  cs_settled_cost_coins :: "money option"
  cs_rate_segment_start_kwh :: "pyfloat option"
  cs_rate_valid_until :: "timestamp option"
  cs_settled_payout_id :: "int option"
  cs_energy_counter_last_raw_kwh :: "pyfloat option"
  cs_energy_reset_offset_kwh :: pyfloat

record ledger_transaction =
  lt_id :: int
  lt_user_id :: int
  lt_session_id :: "int option"
  lt_amount :: money
  lt_transaction_type :: transaction_type
  lt_razorpay_payment_id :: "string option"
  lt_balance_after :: money
  lt_created_at :: timestamp

record charger_group =
  cg_id :: int
  cg_tenant_id :: int
  cg_is_public :: bool
  cg_access_code :: "string option"
  cg_tariff_id :: "int option"
  cg_max_current_a :: "pyfloat option"

record group_membership =
  gm_user_id :: int
  gm_group_id :: int

record payout =
  po_id :: int
  po_tenant_id :: int
  po_period_start :: timestamp
  po_period_end :: timestamp
  po_gross_coins :: money
  po_platform_fee_coins :: money
  po_net_coins :: money
  po_status :: payout_status
  po_requested_by_user_id :: int
  po_requested_at :: timestamp
  po_paid_at :: "timestamp option"

record offline_topup =
  ot_id :: int
  ot_tenant_id :: int
  ot_actor_user_id :: "int option"
  ot_driver_user_id :: "int option"
  ot_amount_coins :: money
  ot_created_at :: timestamp

record tariff =
  tf_id :: int
  tf_tenant_id :: int
  tf_price_per_kwh :: money

record tariff_slot =
  ts_id :: int
  ts_tariff_id :: int
  ts_start_min :: int
  ts_end_min :: int
  ts_price_per_kwh :: money
  ts_days_mask :: int

record session_dispute =
  sd_id :: int
  sd_session_id :: int
  sd_tenant_id :: int
  sd_driver_user_id :: int
  sd_reason :: string
  sd_status :: dispute_status
  sd_resolution_note :: "string option"
  sd_refund_coins :: "money option"
  sd_created_at :: timestamp
  sd_resolved_at :: "timestamp option"
  sd_resolved_by_user_id :: "int option"

record invoice =
  iv_id :: int
  iv_tenant_id :: int
  iv_session_id :: int
  iv_driver_user_id :: int
  iv_invoice_number :: string
  iv_issued_at :: timestamp
  iv_amount_coins :: money
  iv_taxable_value_inr :: money
  iv_gst_rate_pct :: money
  iv_gst_amount_inr :: money
  iv_total_inr :: money
  iv_seller_legal_name :: "string option"
  iv_seller_gstin :: "string option"
  iv_energy_kwh :: pyfloat
  iv_rate_coins_per_kwh :: money

record reservation =
  rs_id :: int
  rs_plug_id :: int
  rs_user_id :: int
  rs_tenant_id :: int
  rs_start_at :: timestamp
  rs_end_at :: timestamp
  rs_status :: reservation_status
  rs_session_id :: "int option"
  rs_started_notified_at :: "timestamp option"

record plug_watch =
  pw_id :: int
  pw_user_id :: int
  pw_plug_id :: int
  pw_created_at :: timestamp

record capacity_request =
  cr_id :: int
  cr_user_id :: int
  cr_plug_id :: int
  cr_group_id :: int
  cr_created_at :: timestamp

record queued_charge =
  qc_id :: int
  qc_tenant_id :: int
  qc_user_id :: int
  qc_plug_id :: int
  qc_max_kwh :: "pyfloat option"
  qc_max_duration_seconds :: "int option"
  qc_status :: queued_charge_status
  qc_created_at :: timestamp
  qc_expires_at :: timestamp
  qc_started_session_id :: "int option"

record gateway_event =
  ge_id :: int
  ge_tenant_id :: int
  ge_gateway_id :: string
  ge_plug_id :: "int option"
  ge_event_type :: string
  ge_severity :: string
  ge_acknowledged :: bool
  ge_created_at :: timestamp

record gateway_log =
  gl_id :: int
  gl_tenant_id :: int
  gl_gateway_id :: string
  gl_level :: string
  gl_message :: string
  gl_created_at :: timestamp

record db =
  tenants :: "tenant list"
  users :: "user list"
  gateways :: "gateway list"
  plugs :: "plug list"
  charging_sessions :: "charging_session list"
  ledger :: "ledger_transaction list"
  charger_groups :: "charger_group list"
  memberships :: "group_membership list"
  payouts :: "payout list"
  offline_topups :: "offline_topup list"
  tariffs :: "tariff list"
  tariff_slots :: "tariff_slot list"
  disputes :: "session_dispute list"
  invoices :: "invoice list"
  reservations :: "reservation list"
  plug_watches :: "plug_watch list"
  capacity_requests :: "capacity_request list"
  queued_charges :: "queued_charge list"
  gateway_events :: "gateway_event list"
  gateway_logs :: "gateway_log list"

definition empty_db :: db where
  "empty_db = \<lparr>tenants = [], users = [], gateways = [], plugs = [], charging_sessions = [],
     ledger = [], charger_groups = [], memberships = [], payouts = [], offline_topups = [],
     tariffs = [], tariff_slots = [], disputes = [], invoices = [], reservations = [],
     plug_watches = [], capacity_requests = [], queued_charges = [], gateway_events = [], gateway_logs = []\<rparr>"

subsection \<open>Row updates by primary key\<close>

definition upd_user :: "int \<Rightarrow> (user \<Rightarrow> user) \<Rightarrow> db \<Rightarrow> db" where
  "upd_user i f d = d\<lparr>users := update_where (\<lambda>r. us_id r = i) f (users d)\<rparr>"

definition upd_plug :: "int \<Rightarrow> (plug \<Rightarrow> plug) \<Rightarrow> db \<Rightarrow> db" where
  "upd_plug i f d = d\<lparr>plugs := update_where (\<lambda>r. pl_id r = i) f (plugs d)\<rparr>"

definition upd_session :: "int \<Rightarrow> (charging_session \<Rightarrow> charging_session) \<Rightarrow> db \<Rightarrow> db" where
  "upd_session i f d =
     d\<lparr>charging_sessions := update_where (\<lambda>r. cs_id r = i) f (charging_sessions d)\<rparr>"

definition upd_reservation :: "int \<Rightarrow> (reservation \<Rightarrow> reservation) \<Rightarrow> db \<Rightarrow> db" where
  "upd_reservation i f d =
     d\<lparr>reservations := update_where (\<lambda>r. rs_id r = i) f (reservations d)\<rparr>"

definition add_ledger :: "ledger_transaction \<Rightarrow> db \<Rightarrow> db" where
  "add_ledger t d = d\<lparr>ledger := ledger d @ [t\<lparr>lt_id := fresh_id lt_id (ledger d)\<rparr>]\<rparr>"

subsection \<open>Configuration\<close>

record config =
  COINS_PER_KWH :: pyfloat
  MIN_START_BALANCE_COINS :: pyfloat
  MAX_ACTIVE_SESSIONS_PER_USER :: int
  MAX_QUEUED_CHARGES_PER_USER :: int
  DEFAULT_PLUG_CAP_A :: pyfloat
  ENFORCE_CIRCUIT_ADMISSION :: bool
  AUTO_REPRICE_ACTIVE_SESSIONS :: bool
  AUTO_STOP_ON_BALANCE_EXHAUSTED :: bool
  AUTO_STOP_ON_LIMITS :: bool
  LOW_BALANCE_WARN_FRACTION :: pyfloat
  PLUG_POWER_STALE_SEC :: int
  GATEWAY_LIVENESS_WINDOW_SEC :: int
  STALE_TIMEOUT_SEC :: pyfloat
  FORCE_STOP_WALKUP_ON_RESERVATION :: bool
  RESERVATION_MAX_HOURS :: pyfloat
  RESERVATION_MAX_ADVANCE_DAYS :: pyfloat
  MAX_UPCOMING_RESERVATIONS_PER_USER :: int
  RESERVATION_NO_SHOW_GRACE_MIN :: pyfloat
  RESERVATION_WALKUP_WARN_LOOKAHEAD_MIN :: pyfloat
  TELEMETRY_STALE_AFTER_SEC :: pyfloat
  MAX_PLAUSIBLE_KWH :: pyfloat
  ENERGY_COUNTER_RESET_DROP_KWH :: pyfloat
  UNLIMITED_DURATION_SECONDS :: int
  UNLIMITED_MAX_KWH :: pyfloat
  PLATFORM_FEE_PCT :: "decimal option"
  GST_RATE_PCT :: "decimal option"
  COINS_PER_RUPEE :: pyfloat
  RAZORPAY_KEY_ID :: string
  RAZORPAY_KEY_SECRET :: string
  RAZORPAY_WEBHOOK_SECRET :: string
  GATEWAY_SEEN_BUMP_INTERVAL_SEC :: pyfloat
  UNMETERED_CONSUMPTION_THRESHOLD_KWH :: pyfloat
  UNMETERED_CONSUMPTION_RESET_EPS_KWH :: pyfloat
  UNMETERED_ALERT_COOLDOWN_SEC :: pyfloat
  AUTO_MAINTENANCE_ON_CRITICAL_ALARM :: bool
  GATEWAY_OFFLINE_NOTIFY_DELAY_SEC :: pyfloat
  ORPHAN_ALERT_MIN_POWER_W :: pyfloat
  GATEWAY_LOGS_RETENTION_DAYS :: int
  GATEWAY_LOGS_PRUNE_EVERY_N_TICKS :: int
  MAX_PLUGS_PER_GATEWAY :: int

text \<open>The defaults of the environment variables; the fractions are the doubles nearest to 0.8, 0.005, 0.01 and 0.001.\<close>

definition default_config :: config where
  "default_config = \<lparr>
     COINS_PER_KWH = 5,
     MIN_START_BALANCE_COINS = 50,
     MAX_ACTIVE_SESSIONS_PER_USER = 2,
     MAX_QUEUED_CHARGES_PER_USER = 2,
     DEFAULT_PLUG_CAP_A = 16,
     ENFORCE_CIRCUIT_ADMISSION = True,
     AUTO_REPRICE_ACTIVE_SESSIONS = True,
     AUTO_STOP_ON_BALANCE_EXHAUSTED = True,
     AUTO_STOP_ON_LIMITS = True,
     LOW_BALANCE_WARN_FRACTION = 3602879701896397 / 4503599627370496,
     PLUG_POWER_STALE_SEC = 90,
     GATEWAY_LIVENESS_WINDOW_SEC = 120,
     STALE_TIMEOUT_SEC = 300,
     FORCE_STOP_WALKUP_ON_RESERVATION = True,
     RESERVATION_MAX_HOURS = 4,
     RESERVATION_MAX_ADVANCE_DAYS = 7,
     MAX_UPCOMING_RESERVATIONS_PER_USER = 2,
     RESERVATION_NO_SHOW_GRACE_MIN = 15,
     RESERVATION_WALKUP_WARN_LOOKAHEAD_MIN = 180,
     TELEMETRY_STALE_AFTER_SEC = 15,
     MAX_PLAUSIBLE_KWH = 1000,
     ENERGY_COUNTER_RESET_DROP_KWH = 5764607523034235 / 1152921504606846976,
     UNLIMITED_DURATION_SECONDS = 315360000,
     UNLIMITED_MAX_KWH = 999999,
     PLATFORM_FEE_PCT = None,
     GST_RATE_PCT = None,
     COINS_PER_RUPEE = 1,
     RAZORPAY_KEY_ID = [],
     RAZORPAY_KEY_SECRET = [],
     RAZORPAY_WEBHOOK_SECRET = [],
     GATEWAY_SEEN_BUMP_INTERVAL_SEC = 60,
     UNMETERED_CONSUMPTION_THRESHOLD_KWH = 5764607523034235 / 576460752303423488,
     UNMETERED_CONSUMPTION_RESET_EPS_KWH = 1152921504606847 / 1152921504606846976,
     UNMETERED_ALERT_COOLDOWN_SEC = 300,
     AUTO_MAINTENANCE_ON_CRITICAL_ALARM = True,
     GATEWAY_OFFLINE_NOTIFY_DELAY_SEC = 120,
     ORPHAN_ALERT_MIN_POWER_W = 5,
     GATEWAY_LOGS_RETENTION_DAYS = 14,
     GATEWAY_LOGS_PRUNE_EVERY_N_TICKS = 60,
     MAX_PLUGS_PER_GATEWAY = 64\<rparr>"

lemma default_config_floats:
  "LOW_BALANCE_WARN_FRACTION default_config = fl (8 / 10) \<and> ENERGY_COUNTER_RESET_DROP_KWH default_config = fl (5 / 1000)
   \<and> UNMETERED_CONSUMPTION_THRESHOLD_KWH default_config = fl (1 / 100)
   \<and> UNMETERED_CONSUMPTION_RESET_EPS_KWH default_config = fl (1 / 1000)"
  by code_simp

subsection \<open>Frame facts of the row updates\<close>

lemma upd_user_simps [simp, table_simps]:
  "users (upd_user i f d) = update_where (\<lambda>r. us_id r = i) f (users d)"
  "plugs (upd_user i f d) = plugs d" "charging_sessions (upd_user i f d) = charging_sessions d"
  "ledger (upd_user i f d) = ledger d" "reservations (upd_user i f d) = reservations d"
  "gateways (upd_user i f d) = gateways d" "payouts (upd_user i f d) = payouts d"
  "offline_topups (upd_user i f d) = offline_topups d" "disputes (upd_user i f d) = disputes d"
  "tenants (upd_user i f d) = tenants d" "charger_groups (upd_user i f d) = charger_groups d" "memberships (upd_user i f d) = memberships d"
  "tariffs (upd_user i f d) = tariffs d" "tariff_slots (upd_user i f d) = tariff_slots d" "invoices (upd_user i f d) = invoices d"
  "plug_watches (upd_user i f d) = plug_watches d" "capacity_requests (upd_user i f d) = capacity_requests d" "queued_charges (upd_user i f d) = queued_charges d" "gateway_events (upd_user i f d) = gateway_events d" "gateway_logs (upd_user i f d) = gateway_logs d"
  by (simp_all add: upd_user_def)

lemma upd_plug_simps [simp, table_simps]:
  "plugs (upd_plug i f d) = update_where (\<lambda>r. pl_id r = i) f (plugs d)"
  "users (upd_plug i f d) = users d" "charging_sessions (upd_plug i f d) = charging_sessions d"
  "ledger (upd_plug i f d) = ledger d" "reservations (upd_plug i f d) = reservations d"
  "gateways (upd_plug i f d) = gateways d" "payouts (upd_plug i f d) = payouts d"
  "offline_topups (upd_plug i f d) = offline_topups d" "disputes (upd_plug i f d) = disputes d"
  "tenants (upd_plug i f d) = tenants d" "charger_groups (upd_plug i f d) = charger_groups d" "memberships (upd_plug i f d) = memberships d"
  "tariffs (upd_plug i f d) = tariffs d" "tariff_slots (upd_plug i f d) = tariff_slots d" "invoices (upd_plug i f d) = invoices d"
  "plug_watches (upd_plug i f d) = plug_watches d" "capacity_requests (upd_plug i f d) = capacity_requests d" "queued_charges (upd_plug i f d) = queued_charges d" "gateway_events (upd_plug i f d) = gateway_events d" "gateway_logs (upd_plug i f d) = gateway_logs d"
  by (simp_all add: upd_plug_def)

lemma upd_session_simps [simp, table_simps]:
  "charging_sessions (upd_session i f d) = update_where (\<lambda>r. cs_id r = i) f (charging_sessions d)"
  "users (upd_session i f d) = users d" "plugs (upd_session i f d) = plugs d"
  "ledger (upd_session i f d) = ledger d" "reservations (upd_session i f d) = reservations d"
  "gateways (upd_session i f d) = gateways d" "payouts (upd_session i f d) = payouts d"
  "offline_topups (upd_session i f d) = offline_topups d" "disputes (upd_session i f d) = disputes d"
  "tenants (upd_session i f d) = tenants d" "charger_groups (upd_session i f d) = charger_groups d" "memberships (upd_session i f d) = memberships d"
  "tariffs (upd_session i f d) = tariffs d" "tariff_slots (upd_session i f d) = tariff_slots d" "invoices (upd_session i f d) = invoices d"
  "plug_watches (upd_session i f d) = plug_watches d" "capacity_requests (upd_session i f d) = capacity_requests d" "queued_charges (upd_session i f d) = queued_charges d" "gateway_events (upd_session i f d) = gateway_events d" "gateway_logs (upd_session i f d) = gateway_logs d"
  by (simp_all add: upd_session_def)

lemma upd_reservation_simps [simp, table_simps]:
  "reservations (upd_reservation i f d) = update_where (\<lambda>r. rs_id r = i) f (reservations d)"
  "users (upd_reservation i f d) = users d" "plugs (upd_reservation i f d) = plugs d"
  "ledger (upd_reservation i f d) = ledger d"
  "charging_sessions (upd_reservation i f d) = charging_sessions d"
  "gateways (upd_reservation i f d) = gateways d" "payouts (upd_reservation i f d) = payouts d"
  "offline_topups (upd_reservation i f d) = offline_topups d" "disputes (upd_reservation i f d) = disputes d" "tenants (upd_reservation i f d) = tenants d"
  "charger_groups (upd_reservation i f d) = charger_groups d" "memberships (upd_reservation i f d) = memberships d" "tariffs (upd_reservation i f d) = tariffs d"
  "tariff_slots (upd_reservation i f d) = tariff_slots d" "invoices (upd_reservation i f d) = invoices d" "plug_watches (upd_reservation i f d) = plug_watches d"
  "capacity_requests (upd_reservation i f d) = capacity_requests d" "queued_charges (upd_reservation i f d) = queued_charges d" "gateway_events (upd_reservation i f d) = gateway_events d" "gateway_logs (upd_reservation i f d) = gateway_logs d"
  by (simp_all add: upd_reservation_def)

lemma add_ledger_simps [simp, table_simps]:
  "ledger (add_ledger t d) = ledger d @ [t\<lparr>lt_id := fresh_id lt_id (ledger d)\<rparr>]"
  "users (add_ledger t d) = users d" "plugs (add_ledger t d) = plugs d"
  "charging_sessions (add_ledger t d) = charging_sessions d"
  "reservations (add_ledger t d) = reservations d" "gateways (add_ledger t d) = gateways d"
  "payouts (add_ledger t d) = payouts d" "offline_topups (add_ledger t d) = offline_topups d"
  "disputes (add_ledger t d) = disputes d"
  "tenants (add_ledger t d) = tenants d" "charger_groups (add_ledger t d) = charger_groups d" "memberships (add_ledger t d) = memberships d"
  "tariffs (add_ledger t d) = tariffs d" "tariff_slots (add_ledger t d) = tariff_slots d" "invoices (add_ledger t d) = invoices d"
  "plug_watches (add_ledger t d) = plug_watches d" "capacity_requests (add_ledger t d) = capacity_requests d" "queued_charges (add_ledger t d) = queued_charges d" "gateway_events (add_ledger t d) = gateway_events d" "gateway_logs (add_ledger t d) = gateway_logs d"
  by (simp_all add: add_ledger_def)

end
