(* ===== verification/Wallet.thy ===== *)
theory Wallet
  imports Models
begin

text \<open>
  Wallet writes (\<open>backend/services/wallet.py\<close>) and the ledger that accompanies them.

  \<open>store_balance\<close> is the \<open>UPDATE users SET coin_balance\<close> with the two checks the database
  makes on it: the non-negativity constraint and the range of \<open>NUMERIC(12,2)\<close>.  The locale
  \<open>wallet\<close> states the contract of a credit and a clamped debit, \<open>journaled_wallet\<close> adds the
  ledger; the model interprets both, and every component that moves money relies on them
  through \<open>drift\<close>: the part of a balance that the ledger does not explain.
\<close>

subsection \<open>Definitions\<close>

definition balance_of :: "db \<Rightarrow> int \<Rightarrow> money option" where
  "balance_of d user_id = map_option us_coin_balance (row_by us_id user_id (users d))"

definition store_balance :: "db \<Rightarrow> int \<Rightarrow> money \<Rightarrow> failure + db" where
  "store_balance d user_id new_balance =
     (if new_balance < 0 then Inl IntegrityError
      else if MAX_MONEY < new_balance then Inl NumericOverflow
      else Inr (upd_user user_id (\<lambda>u. u\<lparr>us_coin_balance := new_balance\<rparr>) d))"

definition credit_wallet :: "db \<Rightarrow> int \<Rightarrow> money \<Rightarrow> (db \<times> money option) response" where
  "credit_wallet d user_id amount =
     (case balance_of d user_id of
        None \<Rightarrow> Inr (d, None)
      | Some balance \<Rightarrow>
          (case store_balance d user_id (balance + amount) of
             Inl err \<Rightarrow> Inl err
           | Inr d' \<Rightarrow> Inr (d', Some (balance + amount))))"

definition debit_wallet_clamped :: "db \<Rightarrow> int \<Rightarrow> money \<Rightarrow> (db \<times> money \<times> money) response" where
  "debit_wallet_clamped d user_id amount =
     (case balance_of d user_id of
        None \<Rightarrow> Inl NoResultFound
      | Some balance \<Rightarrow>
          (let prev_balance = (if balance < ZERO_MONEY then ZERO_MONEY else balance);
               actual_debit = min amount prev_balance;
               new_balance = prev_balance - actual_debit
           in case store_balance d user_id new_balance of
                Inl err \<Rightarrow> Inl err
              | Inr d' \<Rightarrow> Inr (d', actual_debit, new_balance)))"

definition hold_of :: "charging_session \<Rightarrow> money" where
  "hold_of s = (case cs_hold_coins s of Some h \<Rightarrow> h | None \<Rightarrow> 0)"

definition held_coins :: "db \<Rightarrow> int \<Rightarrow> money" where
  "held_coins d user_id =
     sum_where hold_of (\<lambda>s. cs_user_id s = user_id \<and> cs_status s = ACTIVE) (charging_sessions d)"

definition available_balance :: "db \<Rightarrow> int \<Rightarrow> money" where
  "available_balance d user_id =
     (case balance_of d user_id of
        None \<Rightarrow> ZERO_MONEY
      | Some balance \<Rightarrow> to_money_m (balance - held_coins d user_id))"

text \<open>The ledger total of a user, and the part of the balance it does not explain.\<close>

definition ledger_total :: "db \<Rightarrow> int \<Rightarrow> money" where
  "ledger_total d user_id = sum_where lt_amount (\<lambda>t. lt_user_id t = user_id) (ledger d)"

definition drift :: "db \<Rightarrow> int \<Rightarrow> money option" where
  "drift d user_id = map_option (\<lambda>b. b - ledger_total d user_id) (balance_of d user_id)"

definition balances_ok :: "db \<Rightarrow> bool" where
  "balances_ok d \<longleftrightarrow> list_all (\<lambda>u. 0 \<le> us_coin_balance u \<and> us_coin_balance u \<le> MAX_MONEY) (users d)"

text \<open>A driver with 100.00 coins, used in examples.\<close>

definition sample_user :: user where
  "sample_user = \<lparr>us_id = 1, us_tenant_id = None, us_email = ''driver'', us_role = DRIVER, us_coin_balance = 10000,
     us_token_version = 0, us_is_disabled = False, us_email_verified = True, us_deleted_at = None\<rparr>"

subsection \<open>The wallet contract\<close>

locale wallet =
  fixes balance :: "'s \<Rightarrow> int \<Rightarrow> money option"
    and credit :: "'s \<Rightarrow> int \<Rightarrow> money \<Rightarrow> ('s \<times> money option) response"
    and debit :: "'s \<Rightarrow> int \<Rightarrow> money \<Rightarrow> ('s \<times> money \<times> money) response"
  assumes credit_some: "credit s u a = Inr (s', Some b) \<Longrightarrow>
      balance s u = Some (b - a) \<and> balance s' u = Some b \<and> 0 \<le> b \<and> b \<le> MAX_MONEY"
    and credit_none: "credit s u a = Inr (s', None) \<Longrightarrow> s' = s \<and> balance s u = None"
    and credit_frame: "credit s u a = Inr (s', r) \<Longrightarrow> v \<noteq> u \<Longrightarrow> balance s' v = balance s v"
    and debit_some: "debit s u a = Inr (s', x, b) \<Longrightarrow>
      (\<exists>p. balance s u = Some p \<and> x = min a (max 0 p) \<and> b = max 0 p - x) \<and> balance s' u = Some b
        \<and> 0 \<le> b \<and> b \<le> MAX_MONEY"
    and debit_frame: "debit s u a = Inr (s', x, b) \<Longrightarrow> v \<noteq> u \<Longrightarrow> balance s' v = balance s v"
begin

lemma debit_not_overdrawn:
  assumes "debit s u a = Inr (s', x, b)" "balance s u = Some p" "0 \<le> p" "0 \<le> a"
  shows "0 \<le> x" "x \<le> a" "x \<le> p" "b = p - x"
  using debit_some [OF assms(1)] assms by auto

lemma debit_in_full:
  assumes "debit s u a = Inr (s', x, b)" "balance s u = Some p" "0 \<le> a" "a \<le> p"
  shows "x = a" "b = p - a"
  using debit_some [OF assms(1)] assms by auto

lemma credit_then_debit:
  assumes "credit s u a = Inr (s1, Some b)" "debit s1 u a = Inr (s2, x, c)" "0 \<le> a" "a \<le> b"
  shows "x = a" "balance s2 u = balance s u" "v \<noteq> u \<Longrightarrow> balance s2 v = balance s v"
  using credit_some [OF assms(1)] debit_some [OF assms(2)] credit_frame [OF assms(1), of v]
    debit_frame [OF assms(2), of v] assms(3,4) by auto

end

text \<open>A wallet whose every movement is posted to a ledger keeps balance minus ledger constant.\<close>

locale journaled_wallet = wallet balance credit debit
  for balance :: "'s \<Rightarrow> int \<Rightarrow> money option"
    and credit :: "'s \<Rightarrow> int \<Rightarrow> money \<Rightarrow> ('s \<times> money option) response"
    and debit :: "'s \<Rightarrow> int \<Rightarrow> money \<Rightarrow> ('s \<times> money \<times> money) response" +
  fixes posted :: "'s \<Rightarrow> int \<Rightarrow> money"
    and post :: "ledger_transaction \<Rightarrow> 's \<Rightarrow> 's"
  assumes credit_posted: "credit s u a = Inr (s', r) \<Longrightarrow> posted s' v = posted s v"
    and debit_posted: "debit s u a = Inr (s', x, b) \<Longrightarrow> posted s' v = posted s v"
    and post_posted: "posted (post t s) v = posted s v + (if lt_user_id t = v then lt_amount t else 0)"
    and post_balance: "balance (post t s) v = balance s v"
begin

lemma credit_and_post:
  assumes "credit s u a = Inr (s', Some b)" "lt_user_id t = u" "lt_amount t = a"
  shows "map_option (\<lambda>b. b - posted (post t s') v) (balance (post t s') v) =
         map_option (\<lambda>b. b - posted s v) (balance s v)"
  using credit_some [OF assms(1)] credit_frame [OF assms(1), of v] credit_posted [OF assms(1), of v] assms(2,3)
  by (cases "v = u") (auto simp: post_posted post_balance)

lemma debit_and_post:
  assumes "debit s u a = Inr (s', x, b)" "balance s u = Some p" "0 \<le> p"
    "lt_user_id t = u" "lt_amount t = - x"
  shows "map_option (\<lambda>b. b - posted (post t s') v) (balance (post t s') v) =
         map_option (\<lambda>b. b - posted s v) (balance s v)"
  using debit_some [OF assms(1)] debit_frame [OF assms(1), of v] debit_posted [OF assms(1), of v] assms(2-5)
  by (cases "v = u") (auto simp: post_posted post_balance)

end

subsection \<open>The model is such a wallet\<close>

lemma store_balance_Inr_iff:
  "store_balance d u b = Inr d' \<longleftrightarrow>
     0 \<le> b \<and> b \<le> MAX_MONEY \<and> d' = upd_user u (\<lambda>u. u\<lparr>us_coin_balance := b\<rparr>) d"
  by (auto simp: store_balance_def)

lemma balance_of_store:
  "balance_of (upd_user u (\<lambda>u. u\<lparr>us_coin_balance := b\<rparr>) d) v =
     (if v = u then map_option (\<lambda>_. b) (balance_of d u) else balance_of d v)"
  by (auto simp: balance_of_def row_by_update_where option.map_comp o_def
      intro!: option.map_cong dest: row_by_SomeD)

lemma balance_of_cong: "users d' = users d \<Longrightarrow> balance_of d' = balance_of d"
  by (simp add: balance_of_def fun_eq_iff)

lemma ledger_total_cong: "ledger d' = ledger d \<Longrightarrow> ledger_total d' = ledger_total d"
  by (simp add: ledger_total_def fun_eq_iff)

lemma credit_wallet_SomeD:
  assumes "credit_wallet d u a = Inr (d', Some b)"
  shows "balance_of d u = Some (b - a)" "0 \<le> b" "b \<le> MAX_MONEY"
    "d' = upd_user u (\<lambda>r. r\<lparr>us_coin_balance := b\<rparr>) d"
  using assms by (auto simp: credit_wallet_def store_balance_Inr_iff split: option.splits sum.splits)

lemma credit_wallet_NoneD: "credit_wallet d u a = Inr (d', None) \<Longrightarrow> d' = d \<and> balance_of d u = None"
  by (auto simp: credit_wallet_def split: option.splits sum.splits)

lemma debit_walletD:
  assumes "debit_wallet_clamped d u a = Inr (d', x, b)"
  obtains p where "balance_of d u = Some p" "x = min a (max 0 p)" "b = max 0 p - x"
    "0 \<le> b" "b \<le> MAX_MONEY" "d' = upd_user u (\<lambda>r. r\<lparr>us_coin_balance := b\<rparr>) d"
  using assms
  by (auto simp: debit_wallet_clamped_def Let_def ZERO_MONEY_def max_def store_balance_Inr_iff
      split: option.splits sum.splits if_splits)

interpretation wl: wallet balance_of credit_wallet debit_wallet_clamped
proof
  fix d u a d' b
  assume "credit_wallet d u a = Inr (d', Some b)"
  from credit_wallet_SomeD [OF this]
  show "balance_of d u = Some (b - a) \<and> balance_of d' u = Some b \<and> 0 \<le> b \<and> b \<le> MAX_MONEY"
    by (simp add: balance_of_store)
next
  fix d u a d'
  assume "credit_wallet d u a = Inr (d', None)"
  then show "d' = d \<and> balance_of d u = None" by (rule credit_wallet_NoneD)
next
  fix d u a d' r and v :: int
  assume *: "credit_wallet d u a = Inr (d', r)" and "v \<noteq> u"
  then show "balance_of d' v = balance_of d v"
    by (cases r) (auto simp: balance_of_store dest: credit_wallet_SomeD(4) credit_wallet_NoneD)
next
  fix d u a d' x b
  assume "debit_wallet_clamped d u a = Inr (d', x, b)"
  then show "(\<exists>p. balance_of d u = Some p \<and> x = min a (max 0 p) \<and> b = max 0 p - x)
      \<and> balance_of d' u = Some b \<and> 0 \<le> b \<and> b \<le> MAX_MONEY"
    by (rule debit_walletD) (simp add: balance_of_store)
next
  fix d u a d' x b and v :: int
  assume "debit_wallet_clamped d u a = Inr (d', x, b)" "v \<noteq> u"
  then show "balance_of d' v = balance_of d v"
    by (elim debit_walletD) (simp add: balance_of_store)
qed

interpretation jw: journaled_wallet balance_of credit_wallet debit_wallet_clamped ledger_total add_ledger
proof
  fix d u a d' r v
  assume "credit_wallet d u a = Inr (d', r)"
  then show "ledger_total d' v = ledger_total d v"
    by (cases r) (auto dest!: credit_wallet_SomeD(4) credit_wallet_NoneD simp: ledger_total_def)
next
  fix d u a d' x b v
  assume "debit_wallet_clamped d u a = Inr (d', x, b)"
  then show "ledger_total d' v = ledger_total d v"
    by (elim debit_walletD) (simp add: ledger_total_def)
qed (simp_all add: ledger_total_def balance_of_def)

lemmas drift_credit_post = jw.credit_and_post [folded drift_def]
lemmas drift_debit_post = jw.debit_and_post [folded drift_def]

lemma drift_cong: "users d' = users d \<Longrightarrow> ledger d' = ledger d \<Longrightarrow> drift d' = drift d"
  by (simp add: drift_def fun_eq_iff balance_of_def ledger_total_def)

lemma balances_ok_balance:
  "balances_ok d \<Longrightarrow> balance_of d u = Some b \<Longrightarrow> 0 \<le> b \<and> b \<le> MAX_MONEY"
  by (auto simp: balances_ok_def balance_of_def list_all_iff dest!: row_by_SomeD)

lemma balances_ok_store:
  "balances_ok d \<Longrightarrow> 0 \<le> b \<Longrightarrow> b \<le> MAX_MONEY \<Longrightarrow>
     balances_ok (upd_user u (\<lambda>r. r\<lparr>us_coin_balance := b\<rparr>) d)"
  by (auto simp: balances_ok_def list_all_iff set_update_where)

lemma balances_ok_cong: "users d' = users d \<Longrightarrow> balances_ok d' = balances_ok d"
  by (simp add: balances_ok_def)

lemma debit_wallet_total:
  assumes "balance_of d u = Some p" "0 \<le> p" "p \<le> MAX_MONEY" "0 \<le> a"
  shows "debit_wallet_clamped d u a =
    Inr (upd_user u (\<lambda>r. r\<lparr>us_coin_balance := p - min a p\<rparr>) d, min a p, p - min a p)"
  using assms by (auto simp: debit_wallet_clamped_def store_balance_def Let_def ZERO_MONEY_def)

lemma held_coins_cong: "charging_sessions d' = charging_sessions d \<Longrightarrow> held_coins d' = held_coins d"
  by (simp add: held_coins_def fun_eq_iff)

subsection \<open>Properties\<close>

text \<open>
  C28. On a database within its constraints a debit always goes through: it collects the smaller
  of the amount asked for and the balance, takes exactly that from this wallet and nothing from
  any other, and keeps every balance within its constraints; giving the same amount back
  restores the wallet.
\<close>

theorem wallet_debit_exact:
  assumes "balances_ok d" "balance_of d u = Some p" "0 \<le> a"
  shows "\<exists>d'. debit_wallet_clamped d u a = Inr (d', min a p, p - min a p)
    \<and> balance_of d' u = Some (p - min a p) \<and> (\<forall>v. v \<noteq> u \<longrightarrow> balance_of d' v = balance_of d v)
    \<and> balances_ok d'
    \<and> (\<exists>d2. credit_wallet d' u (min a p) = Inr (d2, Some p) \<and> balance_of d2 = balance_of d)"
proof -
  have p: "0 \<le> p" "p \<le> MAX_MONEY" using balances_ok_balance [OF assms(1,2)] by simp_all
  note run = debit_wallet_total [OF assms(2) p assms(3)]
  let ?d = "upd_user u (\<lambda>r. r\<lparr>us_coin_balance := p - min a p\<rparr>) d"
  have b: "balance_of ?d u = Some (p - min a p)" "v \<noteq> u \<Longrightarrow> balance_of ?d v = balance_of d v" for v
    by (simp_all add: balance_of_store assms(2))
  have ok: "balances_ok ?d" using assms(1,3) p by (intro balances_ok_store) auto
  have c: "credit_wallet ?d u (min a p) = Inr (upd_user u (\<lambda>r. r\<lparr>us_coin_balance := p\<rparr>) ?d, Some p)"
    using p b(1) by (simp add: credit_wallet_def store_balance_def)
  have "balance_of (upd_user u (\<lambda>r. r\<lparr>us_coin_balance := p\<rparr>) ?d) = balance_of d"
    using b assms(2) by (auto simp: fun_eq_iff balance_of_store)
  with run b ok c show ?thesis by blast
qed

theorem wallet_debit_exact_witness:
  "\<exists>d'. debit_wallet_clamped (empty_db\<lparr>users := [sample_user]\<rparr>) 1 25000 = Inr (d', 10000, 0)
     \<and> balance_of d' 1 = Some 0"
proof -
  have "balances_ok (empty_db\<lparr>users := [sample_user]\<rparr>)" "balance_of (empty_db\<lparr>users := [sample_user]\<rparr>) 1 = Some 10000"
    by code_simp+
  from wallet_debit_exact [OF this, of 25000] show ?thesis by auto
qed

end
