(* ===== verification/Billing.thy ===== *)
theory Billing
  imports Models
begin

text \<open>
  Segmented session billing (\<open>backend/services/billing.py\<close>).

  A session carries the frozen cost of its closed segments and one open segment.
  \<open>close_out_segment\<close> freezes the open segment at the old rate and opens a new one; the
  theorems show that this never changes what is already owed, and that any sequence of
  close-outs bills exactly the sum of its segments.
\<close>

subsection \<open>Definitions\<close>

definition current_rate :: "config \<Rightarrow> charging_session \<Rightarrow> decimal" where
  "current_rate cfg session =
     (case cs_rate_coins_per_kwh session of
        Some rate \<Rightarrow> Finite (money_dec rate)
      | None \<Rightarrow> Finite (float_repr (COINS_PER_KWH cfg)))"

definition settled_of :: "charging_session \<Rightarrow> money" where
  "settled_of session =
     (case cs_settled_cost_coins session of Some c \<Rightarrow> c | None \<Rightarrow> ZERO_MONEY)"

definition session_cost :: "config \<Rightarrow> charging_session \<Rightarrow> pyfloat \<Rightarrow> money" where
  "session_cost cfg session energy_kwh =
     (case cs_rate_segment_start_kwh session of
        None \<Rightarrow> energy_cost energy_kwh (current_rate cfg session)
      | Some segment_start \<Rightarrow>
          (let settled = settled_of session;
               open_energy = max 0 (fsub energy_kwh segment_start)
           in to_money_m (settled + energy_cost open_energy (current_rate cfg session))))"

definition close_out_segment ::
  "config \<Rightarrow> charging_session \<Rightarrow> money \<Rightarrow> pyfloat \<Rightarrow> timestamp option \<Rightarrow> charging_session" where
  "close_out_segment cfg session0 new_rate at_energy valid_until =
     (let session = (if cs_rate_segment_start_kwh session0 = None
                     then session0\<lparr>cs_settled_cost_coins := Some ZERO_MONEY,
                                   cs_rate_segment_start_kwh := Some 0\<rparr>
                     else session0);
          segment_start = the (cs_rate_segment_start_kwh session);
          settled = settled_of session;
          accrued = energy_cost (max 0 (fsub at_energy segment_start)) (current_rate cfg session)
      in session\<lparr>cs_settled_cost_coins := Some (to_money_m (settled + accrued)),
                 cs_rate_segment_start_kwh := Some at_energy,
                 cs_rate_coins_per_kwh := Some new_rate,
                 cs_rate_valid_until := valid_until\<rparr>)"

text \<open>
  The reference bill: the open segment's start and rate, then the list of close-outs
  (cumulative energy and new rate) in order, billed segment by segment.
\<close>

fun segments_total :: "pyfloat \<Rightarrow> decimal \<Rightarrow> (pyfloat \<times> money) list \<Rightarrow> pyfloat \<Rightarrow> money" where
  "segments_total start rate [] e = energy_cost (max 0 (fsub e start)) rate"
| "segments_total start rate ((ek, r) # rest) e =
     energy_cost (max 0 (fsub ek start)) rate + segments_total ek (Finite (money_dec r)) rest e"

definition close_out_all ::
  "config \<Rightarrow> charging_session \<Rightarrow> (pyfloat \<times> money) list \<Rightarrow> charging_session" where
  "close_out_all cfg s closes = fold (\<lambda>(ek, r) s. close_out_segment cfg s r ek None) closes s"

text \<open>An active session on a flat rate of 5.00, used by the evaluations below.\<close>

definition sample_session :: charging_session where
  "sample_session = \<lparr>cs_id = 1, cs_tenant_id = 1, cs_user_id = 1, cs_plug_id = 1, cs_started_at = 0,
     cs_ended_at = None, cs_energy_kwh = 2, cs_peak_power_w = 0, cs_last_telemetry_at = None,
     cs_coins_spent = 0, cs_rate_coins_per_kwh = Some 500, cs_hold_coins = Some 5000, cs_status = ACTIVE,
     cs_max_kwh = None, cs_max_duration_seconds = None, cs_settled_cost_coins = Some 0,
     cs_rate_segment_start_kwh = Some 0, cs_rate_valid_until = None, cs_settled_payout_id = None,
     cs_energy_counter_last_raw_kwh = None, cs_energy_reset_offset_kwh = 0\<rparr>"

subsection \<open>Lemmas\<close>

lemma close_out_segment_fields [simp]:
  "cs_rate_segment_start_kwh (close_out_segment cfg s r e v) = Some e"
  "cs_rate_coins_per_kwh (close_out_segment cfg s r e v) = Some r"
  "cs_rate_valid_until (close_out_segment cfg s r e v) = v"
  "cs_status (close_out_segment cfg s r e v) = cs_status s"
  "cs_hold_coins (close_out_segment cfg s r e v) = cs_hold_coins s"
  "cs_energy_kwh (close_out_segment cfg s r e v) = cs_energy_kwh s"
  "cs_id (close_out_segment cfg s r e v) = cs_id s"
  "cs_user_id (close_out_segment cfg s r e v) = cs_user_id s"
  "cs_plug_id (close_out_segment cfg s r e v) = cs_plug_id s"
  "cs_coins_spent (close_out_segment cfg s r e v) = cs_coins_spent s"
  "cs_started_at (close_out_segment cfg s r e v) = cs_started_at s"
  by (auto simp: close_out_segment_def Let_def)

lemma current_rate_close_out [simp]:
  "current_rate cfg (close_out_segment cfg s r e v) = Finite (money_dec r)"
  by (simp add: current_rate_def)

lemma close_out_settled:
  assumes "is_float e" "0 \<le> e"
  shows "settled_of (close_out_segment cfg s r e v) = session_cost cfg s e"
  using assms energy_cost_bounds [of e "current_rate cfg s"]
  by (cases "cs_rate_segment_start_kwh s")
     (auto simp: settled_of_def close_out_segment_def session_cost_def Let_def ZERO_MONEY_def
        current_rate_def fsub_zero_right to_money_m_clamp clamp_money_id max_def)

lemma session_cost_segmented:
  "cs_rate_segment_start_kwh s = Some a \<Longrightarrow>
     session_cost cfg s e = clamp_money (settled_of s + energy_cost (max 0 (fsub e a)) (current_rate cfg s))"
  by (simp add: session_cost_def Let_def to_money_m_clamp)

lemma session_cost_bounds: "\<bar>session_cost cfg s e\<bar> \<le> MAX_MONEY"
  using energy_cost_bounds clamp_money_bounds
  by (auto simp: session_cost_def Let_def to_money_m_clamp abs_le_iff split: option.splits)
     (meson clamp_money_bounds minus_le_iff order_trans)+

lemma session_cost_mono:
  assumes "is_float e" "is_float e'" "0 \<le> e" "e \<le> e'" "0 \<le> to_money (current_rate cfg s)"
  shows "session_cost cfg s e \<le> session_cost cfg s e'"
proof (cases "cs_rate_segment_start_kwh s")
  case None
  with assms show ?thesis by (simp add: session_cost_def energy_cost_mono)
next
  case (Some a)
  have "energy_cost (max 0 (fsub e a)) (current_rate cfg s)
      \<le> energy_cost (max 0 (fsub e' a)) (current_rate cfg s)"
    using assms by (intro energy_cost_mono max.mono fsub_mono) simp_all
  with Some show ?thesis by (simp add: session_cost_segmented clamp_money_mono)
qed

lemma session_cost_nonneg:
  assumes "is_float e" "0 \<le> e" "0 \<le> to_money (current_rate cfg s)" "0 \<le> settled_of s"
  shows "0 \<le> session_cost cfg s e"
  using assms
  by (auto simp: session_cost_def Let_def to_money_m_clamp clamp_money_nonneg energy_cost_nonneg
       split: option.splits)

lemma segments_total_nonneg:
  assumes "0 \<le> to_money rate" "\<forall>(ek, r) \<in> set closes. 0 \<le> r \<and> r \<le> MAX_MONEY"
  shows "0 \<le> segments_total start rate closes e"
  using assms
proof (induction start rate closes e rule: segments_total.induct)
  case (2 start rate ek r rest e)
  then have "0 \<le> segments_total ek (Finite (money_dec r)) rest e"
    using to_money_m_id [of r] by (simp add: to_money_m_def)
  with "2.prems" show ?case by (simp add: energy_cost_nonneg)
qed (simp add: energy_cost_nonneg)

lemma close_out_segmented_settled:
  "cs_rate_segment_start_kwh s = Some a \<Longrightarrow>
     settled_of (close_out_segment cfg s r e v) =
       clamp_money (settled_of s + energy_cost (max 0 (fsub e a)) (current_rate cfg s))"
  by (auto simp: settled_of_def close_out_segment_def Let_def to_money_m_clamp)

lemma close_out_all_cost:
  assumes "cs_rate_segment_start_kwh s = Some a" "0 \<le> settled_of s" "settled_of s \<le> MAX_MONEY"
    "0 \<le> to_money (current_rate cfg s)" "\<forall>(ek, r) \<in> set closes. 0 \<le> r \<and> r \<le> MAX_MONEY"
  shows "session_cost cfg (close_out_all cfg s closes) e =
           clamp_money (settled_of s + segments_total a (current_rate cfg s) closes e)"
  using assms
proof (induction closes arbitrary: s a)
  case Nil
  then show ?case by (simp add: close_out_all_def session_cost_segmented)
next
  case (Cons c closes)
  obtain ek r where c: "c = (ek, r)" by fastforce
  let ?s = "close_out_segment cfg s r ek None"
  let ?seg = "energy_cost (max 0 (fsub ek a)) (current_rate cfg s)"
  have r: "0 \<le> r" "r \<le> MAX_MONEY" using Cons.prems(5) c by auto
  then have tr: "to_money (Finite (money_dec r)) = r" using to_money_m_id [of r] by (simp add: to_money_m_def)
  have seg: "0 \<le> ?seg" using Cons.prems by (intro energy_cost_nonneg) simp_all
  have settled: "settled_of ?s = clamp_money (settled_of s + ?seg)"
    using Cons.prems(1) by (rule close_out_segmented_settled)
  have rest: "0 \<le> segments_total ek (Finite (money_dec r)) closes e"
    using Cons.prems(5) c r by (intro segments_total_nonneg) (auto simp: tr)
  have "session_cost cfg (close_out_all cfg ?s closes) e =
      clamp_money (settled_of ?s + segments_total ek (Finite (money_dec r)) closes e)"
    using Cons.IH [of ?s ek] Cons.prems c seg r by (simp add: settled clamp_money_nonneg tr)
  with rest seg Cons.prems(2) show ?case
    by (simp add: c close_out_all_def settled clamp_money_absorb add.assoc)
qed

subsection \<open>Properties\<close>

text \<open>
  C3. Forward-only repricing: closing a segment at the current meter reading leaves the
  amount owed at that reading unchanged, whatever the new rate, and every later reading is
  billed as that amount plus the energy since the close-out at the new rate.
\<close>

theorem close_out_segment_forward_only:
  assumes "is_float at_energy" "0 \<le> at_energy"
  shows "session_cost cfg (close_out_segment cfg s new_rate at_energy v) at_energy = session_cost cfg s at_energy
    \<and> session_cost cfg (close_out_segment cfg s new_rate at_energy v) e =
        to_money_m (session_cost cfg s at_energy
                    + energy_cost (max 0 (fsub e at_energy)) (Finite (money_dec new_rate)))"
  using assms close_out_settled [OF assms] session_cost_bounds [of cfg s at_energy]
  by (simp add: session_cost_segmented clamp_money_id to_money_m_clamp)

theorem close_out_segment_forward_only_witness:
  "session_cost default_config (close_out_segment default_config sample_session 900 2 None) 2 = 1000
   \<and> session_cost default_config (close_out_segment default_config sample_session 900 2 None) 3 = 1900"
proof -
  have f: "is_float 2" "(0::rat) \<le> 2" by code_simp+
  have "session_cost default_config sample_session 2 = 1000" by code_simp
  moreover have "to_money_m (1000 + energy_cost (max 0 (fsub 3 2)) (Finite (money_dec 900))) = 1900"
    by code_simp
  ultimately show ?thesis
    using close_out_segment_forward_only [OF f, of default_config sample_session 900 None 3] by simp
qed

text \<open>
  C27. Any number of close-outs bills the sum of its segments: the cost of a segmented session
  after a sequence of close-outs is the settled part plus, segment by segment, the energy of
  that segment at its own rate, clamped once to the largest storable amount.
\<close>

theorem close_out_all_bills_segments:
  assumes "cs_rate_segment_start_kwh s = Some a" "0 \<le> settled_of s" "settled_of s \<le> MAX_MONEY"
    "0 \<le> to_money (current_rate cfg s)" "\<forall>(ek, r) \<in> set closes. 0 \<le> r \<and> r \<le> MAX_MONEY"
  shows "session_cost cfg (close_out_all cfg s closes) e =
           to_money_m (settled_of s + segments_total a (current_rate cfg s) closes e)"
  using close_out_all_cost [OF assms] by (simp add: to_money_m_clamp)

theorem close_out_all_bills_segments_witness:
  "session_cost default_config (close_out_all default_config sample_session [(1, 800), (2, 600)]) 4 =
     to_money_m (0 + segments_total 0 (Finite 5) [(1, 800), (2, 600)] 4)"
proof -
  have "settled_of sample_session = 0" "current_rate default_config sample_session = Finite 5"
    "to_money (Finite 5) = 500" by code_simp+
  then show ?thesis
    using close_out_all_bills_segments [of sample_session 0 default_config "[(1, 800), (2, 600)]" 4]
    by (simp add: sample_session_def MAX_MONEY_def)
qed

text \<open>
  The amount owed by a running session is non-negative, storable, and never decreases as
  the meter advances, for a non-negative rate and settled part.
\<close>

lemma session_cost_monotone:
  assumes "is_float e" "is_float e'" "0 \<le> e" "e \<le> e'"
    "0 \<le> to_money (current_rate cfg s)" "0 \<le> settled_of s"
  shows "0 \<le> session_cost cfg s e \<and> session_cost cfg s e \<le> session_cost cfg s e'
         \<and> session_cost cfg s e' \<le> MAX_MONEY"
  using assms session_cost_nonneg [of e] session_cost_mono [of e e'] session_cost_bounds [of cfg s e']
  by auto

end
