(* ===== verification/Telemetry_Store.thy ===== *)
theory Telemetry_Store
  imports Billing
begin

text \<open>
  The in-memory telemetry store (\<open>TelemetryStore\<close> of \<open>backend/services/telemetry.py\<close>): the
  latest snapshot of every plug and the mirror of the running session's billing segment, from
  which the live cost shown to the driver is computed.  Python's dictionaries are maps, an
  \<open>asyncio.Event\<close> is its flag, and \<open>time.time()\<close> is an argument.  The theorems relate
  that live cost to the amount \<open>session_cost\<close> will bill, also after a restart of the process.
\<close>

subsection \<open>Definitions\<close>

record snapshot =
  sn_plug_id :: int
  sn_power_w :: pyfloat
  sn_current_a :: pyfloat
  sn_voltage_v :: pyfloat
  sn_energy_kwh :: pyfloat
  sn_duration_sec :: int
  sn_cost_coins :: pyfloat
  sn_status :: string
  sn_relay_on :: bool
  sn_updated_at :: pyfloat

record telemetry_store =
  st_data :: "int \<rightharpoonup> snapshot"
  st_events :: "int \<rightharpoonup> bool"
  st_session_start_times :: "int \<rightharpoonup> pyfloat"
  st_intervals :: "int \<rightharpoonup> int"
  st_active_listeners :: "int \<rightharpoonup> int"
  st_session_rates :: "int \<rightharpoonup> decimal"
  st_session_settled :: "int \<rightharpoonup> pyfloat"
  st_session_segment_start :: "int \<rightharpoonup> pyfloat"

definition empty_store :: telemetry_store where
  "empty_store = \<lparr>st_data = Map.empty, st_events = Map.empty, st_session_start_times = Map.empty,
     st_intervals = Map.empty, st_active_listeners = Map.empty, st_session_rates = Map.empty,
     st_session_settled = Map.empty, st_session_segment_start = Map.empty\<rparr>"

definition get_or :: "(int \<rightharpoonup> 'a) \<Rightarrow> int \<Rightarrow> 'a \<Rightarrow> 'a" where
  "get_or m k dflt = (case m k of Some v \<Rightarrow> v | None \<Rightarrow> dflt)"

definition trunc_int :: "pyfloat \<Rightarrow> int" where
  "trunc_int x = (if 0 \<le> x then \<lfloor>x\<rfloor> else \<lceil>x\<rceil>)"

definition increment_listeners :: "telemetry_store \<Rightarrow> int \<Rightarrow> telemetry_store \<times> int" where
  "increment_listeners st plug_id =
     (let n = get_or (st_active_listeners st) plug_id 0 + 1
      in (st\<lparr>st_active_listeners := (st_active_listeners st)(plug_id \<mapsto> n)\<rparr>, n))"

definition decrement_listeners :: "telemetry_store \<Rightarrow> int \<Rightarrow> telemetry_store \<times> int" where
  "decrement_listeners st plug_id =
     (let current = get_or (st_active_listeners st) plug_id 0;
          n = (if 0 < current then current - 1 else 0)
      in (st\<lparr>st_active_listeners := (st_active_listeners st)(plug_id \<mapsto> n)\<rparr>, n))"

definition get_interval :: "telemetry_store \<Rightarrow> int \<Rightarrow> int" where
  "get_interval st plug_id = get_or (st_intervals st) plug_id 10000"

definition set_interval :: "telemetry_store \<Rightarrow> int \<Rightarrow> int \<Rightarrow> telemetry_store" where
  "set_interval st plug_id interval = st\<lparr>st_intervals := (st_intervals st)(plug_id \<mapsto> interval)\<rparr>"

definition live_cost :: "config \<Rightarrow> telemetry_store \<Rightarrow> int \<Rightarrow> pyfloat \<Rightarrow> pyfloat" where
  "live_cost cfg st plug_id energy_kwh =
     (let rate = get_or (st_session_rates st) plug_id (Finite (float_repr (COINS_PER_KWH cfg)));
          settled = get_or (st_session_settled st) plug_id 0;
          open_energy = max 0 (fsub energy_kwh (get_or (st_session_segment_start st) plug_id 0))
      in fadd settled (fl (money_dec (energy_cost open_energy rate))))"

definition store_update ::
  "config \<Rightarrow> pyfloat \<Rightarrow> telemetry_store \<Rightarrow> int \<Rightarrow> pyfloat \<Rightarrow> pyfloat \<Rightarrow> pyfloat \<Rightarrow> string
     \<Rightarrow> pyfloat option \<Rightarrow> pyfloat \<Rightarrow> bool \<Rightarrow> telemetry_store" where
  "store_update cfg now st plug_id power_w current_a energy_kwh status cost_coins voltage_v relay_on =
     (let cost = (case cost_coins of Some c \<Rightarrow> c | None \<Rightarrow> live_cost cfg st plug_id energy_kwh);
          starts = (if st_session_start_times st plug_id = None
                    then (st_session_start_times st)(plug_id \<mapsto> now) else st_session_start_times st);
          elapsed = trunc_int (fsub now (the (starts plug_id)));
          snap = \<lparr>sn_plug_id = plug_id, sn_power_w = power_w, sn_current_a = current_a,
                  sn_voltage_v = voltage_v, sn_energy_kwh = energy_kwh, sn_duration_sec = elapsed,
                  sn_cost_coins = cost, sn_status = status, sn_relay_on = relay_on, sn_updated_at = now\<rparr>
      in st\<lparr>st_session_start_times := starts,
            st_data := (st_data st)(plug_id \<mapsto> snap),
            st_events := (if st_events st plug_id = None then st_events st
                          else (st_events st)(plug_id \<mapsto> True))\<rparr>)"

definition starting_snapshot :: "pyfloat \<Rightarrow> int \<Rightarrow> snapshot" where
  "starting_snapshot now plug_id =
     \<lparr>sn_plug_id = plug_id, sn_power_w = 0, sn_current_a = 0, sn_voltage_v = 230, sn_energy_kwh = 0,
      sn_duration_sec = 0, sn_cost_coins = 0, sn_status = ''starting'', sn_relay_on = False, sn_updated_at = now\<rparr>"

definition start_session :: "pyfloat \<Rightarrow> telemetry_store \<Rightarrow> int \<Rightarrow> decimal option \<Rightarrow> telemetry_store" where
  "start_session now st plug_id rate_coins_per_kwh =
     st\<lparr>st_session_start_times := (st_session_start_times st)(plug_id \<mapsto> now),
        st_session_rates := (st_session_rates st)(plug_id := rate_coins_per_kwh),
        st_session_settled := (st_session_settled st)(plug_id \<mapsto> 0),
        st_session_segment_start := (st_session_segment_start st)(plug_id \<mapsto> 0),
        st_data := (st_data st)(plug_id \<mapsto> starting_snapshot now plug_id),
        st_events := (st_events st)(plug_id \<mapsto> False)\<rparr>"

definition money_float :: "money option \<Rightarrow> pyfloat" where
  "money_float m = (case m of Some c \<Rightarrow> fl (money_dec c) | None \<Rightarrow> 0)"

definition hydrate_session ::
  "telemetry_store \<Rightarrow> int \<Rightarrow> money option \<Rightarrow> money option \<Rightarrow> pyfloat option \<Rightarrow> timestamp option \<Rightarrow> telemetry_store" where
  "hydrate_session st plug_id rate_coins_per_kwh settled_cost_coins rate_segment_start_kwh started_at =
     (if st_session_segment_start st plug_id \<noteq> None then st
      else let rates = (case rate_coins_per_kwh of
                          Some r \<Rightarrow> (st_session_rates st)(plug_id \<mapsto> Finite (money_dec r))
                        | None \<Rightarrow> st_session_rates st);
               starts = (case started_at of
                           Some t \<Rightarrow> (st_session_start_times st)(plug_id \<mapsto> total_seconds t)
                         | None \<Rightarrow> st_session_start_times st)
           in st\<lparr>st_session_rates := rates,
                 st_session_settled := (st_session_settled st)(plug_id \<mapsto> money_float settled_cost_coins),
                 st_session_segment_start := (st_session_segment_start st)
                   (plug_id \<mapsto> (case rate_segment_start_kwh of Some e \<Rightarrow> e | None \<Rightarrow> 0)),
                 st_session_start_times := starts\<rparr>)"

definition set_segment_state ::
  "telemetry_store \<Rightarrow> int \<Rightarrow> money option \<Rightarrow> pyfloat option \<Rightarrow> money option \<Rightarrow> telemetry_store" where
  "set_segment_state st plug_id settled_coins segment_start_kwh rate_coins_per_kwh =
     st\<lparr>st_session_settled := (st_session_settled st)(plug_id \<mapsto> money_float settled_coins),
        st_session_segment_start := (st_session_segment_start st)
          (plug_id \<mapsto> (case segment_start_kwh of Some e \<Rightarrow> e | None \<Rightarrow> 0)),
        st_session_rates := (case rate_coins_per_kwh of
                               Some r \<Rightarrow> (st_session_rates st)(plug_id \<mapsto> Finite (money_dec r))
                             | None \<Rightarrow> st_session_rates st)\<rparr>"

definition end_session :: "telemetry_store \<Rightarrow> int \<Rightarrow> telemetry_store" where
  "end_session st plug_id =
     st\<lparr>st_session_start_times := (st_session_start_times st)(plug_id := None),
        st_session_rates := (st_session_rates st)(plug_id := None),
        st_session_settled := (st_session_settled st)(plug_id := None),
        st_session_segment_start := (st_session_segment_start st)(plug_id := None),
        st_data := (case st_data st plug_id of
                      Some snap \<Rightarrow> (st_data st)(plug_id \<mapsto> snap\<lparr>sn_status := ''completed''\<rparr>)
                    | None \<Rightarrow> st_data st),
        st_events := (if st_events st plug_id = None then st_events st
                      else (st_events st)(plug_id \<mapsto> True))\<rparr>"

definition get_latest :: "telemetry_store \<Rightarrow> int \<Rightarrow> snapshot option" where
  "get_latest st plug_id = st_data st plug_id"

text \<open>
  The store's invariant: a plug with a mirrored rate or settled amount is a tracked plug.
  \<open>mirrors\<close> says that a tracked plug shows the billing state of a session row.
\<close>

definition store_ok :: "telemetry_store \<Rightarrow> bool" where
  "store_ok st \<longleftrightarrow> dom (st_session_rates st) \<subseteq> dom (st_session_segment_start st)
     \<and> dom (st_session_settled st) = dom (st_session_segment_start st)"

definition mirrors :: "telemetry_store \<Rightarrow> charging_session \<Rightarrow> bool" where
  "mirrors st s \<longleftrightarrow>
     st_session_segment_start st (cs_plug_id s) =
       Some (case cs_rate_segment_start_kwh s of Some e \<Rightarrow> e | None \<Rightarrow> 0)
     \<and> st_session_settled st (cs_plug_id s) =
         Some (case cs_rate_segment_start_kwh s of None \<Rightarrow> 0 | Some _ \<Rightarrow> money_float (cs_settled_cost_coins s))
     \<and> st_session_rates st (cs_plug_id s) = map_option (\<lambda>r. Finite (money_dec r)) (cs_rate_coins_per_kwh s)"

definition session_row_ok :: "charging_session \<Rightarrow> bool" where
  "session_row_ok s \<longleftrightarrow> (cs_rate_segment_start_kwh s = None \<longrightarrow> cs_settled_cost_coins s = None)"

subsection \<open>Rounding error of a float operation\<close>

lemma abs_scale: "0 < p \<Longrightarrow> \<bar>r - x / p\<bar> * p = \<bar>r * p - x\<bar>" for p :: rat
proof -
  assume p: "0 < p"
  then have "\<bar>r - x / p\<bar> * p = \<bar>(r - x / p) * p\<bar>" by (simp add: abs_mult)
  also have "(r - x / p) * p = r * p - x" using p by (simp add: left_diff_distrib)
  finally show ?thesis .
qed

lemma fl_error: "\<bar>fl x - x\<bar> \<le> \<bar>x\<bar> / 2 ^ 53 + 1 / 2 ^ 1074"
proof (cases "x = 0")
  case False
  define e where "e = max (- 1074) (expo 2 \<bar>x\<bar> - 52)"
  have pos: "(0::rat) < 2 powi e" by simp
  have fx: "fl x = of_int (round_half_even (x / 2 powi e)) * 2 powi e"
    using False by (simp add: fl_def round_sig_def Let_def e_def)
  have "\<bar>of_int (round_half_even (x / 2 powi e)) - x / 2 powi e\<bar> \<le> 1 / 2"
    by (rule round_half_even_err)
  then have "\<bar>of_int (round_half_even (x / 2 powi e)) - x / 2 powi e\<bar> * 2 powi e \<le> 1 / 2 * 2 powi e"
    using pos by (intro mult_right_mono) simp_all
  also have "\<bar>of_int (round_half_even (x / 2 powi e)) - x / 2 powi e\<bar> * 2 powi e = \<bar>fl x - x\<bar>"
    using pos by (simp add: fx abs_scale)
  finally have err: "\<bar>fl x - x\<bar> \<le> 2 powi e / 2" by simp
  have "(2::rat) powi e \<le> 2 * (\<bar>x\<bar> / 2 ^ 53) + 2 * (1 / 2 ^ 1074)"
  proof (cases "e = - 1074")
    case True
    then have "(2::rat) powi e = 1 / 2 ^ 1074" by (simp only: power_int_minus power_int_numeral inverse_eq_divide)
    moreover have "0 \<le> \<bar>x\<bar> / 2 ^ 53" by simp
    moreover have "(0::rat) \<le> 1 / 2 ^ 1074" by (intro divide_nonneg_nonneg) simp_all
    ultimately show ?thesis by linarith
  next
    case False
    then have e: "e = expo 2 \<bar>x\<bar> - 52" by (simp add: e_def split: if_splits)
    have "of_nat 2 powi expo 2 \<bar>x\<bar> \<le> \<bar>x\<bar>" using \<open>x \<noteq> 0\<close> by (intro expo_bounds) simp_all
    then have "2 powi (e + 52) \<le> \<bar>x\<bar>" using e by simp
    then have "2 powi e * 2 ^ 52 \<le> \<bar>x\<bar>" by (simp add: power_int_add)
    then have "2 powi e \<le> \<bar>x\<bar> / 2 ^ 52" by (simp add: field_simps)
    moreover have "\<bar>x\<bar> / 2 ^ 52 = 2 * (\<bar>x\<bar> / 2 ^ 53)" by simp
    moreover have "(0::rat) \<le> 1 / 2 ^ 1074" by (intro divide_nonneg_nonneg) simp_all
    ultimately show ?thesis by linarith
  qed
  with err show ?thesis by linarith
qed simp

lemma fl_close: "\<bar>x\<bar> \<le> 20000000000 \<Longrightarrow> \<bar>fl x - x\<bar> \<le> 1 / 300000"
proof -
  assume x: "\<bar>x\<bar> \<le> 20000000000"
  have "\<bar>x\<bar> / 2 ^ 53 \<le> 20000000000 / 2 ^ 53" using x by (rule divide_right_mono) simp
  moreover have "(1::rat) / 2 ^ 1074 \<le> 1 / 2 ^ 53" by (intro divide_left_mono power_increasing) simp_all
  moreover have "(20000000000::rat) / 2 ^ 53 + 1 / 2 ^ 53 \<le> 1 / 300000" by simp
  ultimately show ?thesis using fl_error [of x] by linarith
qed

subsection \<open>The mirror\<close>

lemma store_ok_ops:
  "store_ok empty_store"
  "store_ok st \<Longrightarrow> store_ok (start_session now st p rr)"
  "store_ok st \<Longrightarrow> store_ok (hydrate_session st p r c e t)"
  "store_ok st \<Longrightarrow> store_ok (set_segment_state st p c e r)"
  "store_ok st \<Longrightarrow> store_ok (end_session st p)"
  "store_ok st \<Longrightarrow> store_ok (set_interval st p i)"
  "store_ok st \<Longrightarrow> store_ok (store_update cfg now st p pw cu en stat cost v rl)"
  by (auto simp: store_ok_def empty_store_def start_session_def hydrate_session_def set_segment_state_def
      end_session_def set_interval_def store_update_def Let_def dom_def split: option.splits if_splits)

lemma live_cost_mirrors:
  assumes "mirrors st s"
  shows "live_cost cfg st (cs_plug_id s) e =
    fadd (case cs_rate_segment_start_kwh s of None \<Rightarrow> 0 | Some _ \<Rightarrow> money_float (cs_settled_cost_coins s))
      (fl (money_dec (energy_cost
        (max 0 (fsub e (case cs_rate_segment_start_kwh s of Some a \<Rightarrow> a | None \<Rightarrow> 0))) (current_rate cfg s))))"
  using assms by (auto simp: live_cost_def mirrors_def get_or_def current_rate_def Let_def split: option.splits)

lemma mirrors_hydrate:
  assumes "store_ok st" "st_session_segment_start st (cs_plug_id s) = None" "session_row_ok s"
  shows "mirrors (hydrate_session st (cs_plug_id s) (cs_rate_coins_per_kwh s) (cs_settled_cost_coins s)
           (cs_rate_segment_start_kwh s) t) s"
proof -
  have "st_session_rates st (cs_plug_id s) = None" using assms(1,2) by (auto simp: store_ok_def dom_def)
  then show ?thesis using assms(2,3)
    by (auto simp: mirrors_def hydrate_session_def session_row_ok_def money_float_def Let_def split: option.splits)
qed

lemma float_sum_close:
  assumes "0 \<le> a" "0 \<le> b" "a + b \<le> MAX_MONEY"
  shows "\<bar>fadd (fl (money_dec a)) (fl (money_dec b)) - money_dec (a + b)\<bar> \<le> 1 / 1000"
proof -
  have m: "(of_int a :: rat) \<le> 1000000000000" "(of_int b :: rat) \<le> 1000000000000" "(0::rat) \<le> of_int a" "(0::rat) \<le> of_int b"
    using assms by (simp_all add: MAX_MONEY_def)
  have ab: "\<bar>money_dec a\<bar> \<le> 20000000000" "\<bar>money_dec b\<bar> \<le> 20000000000" using m by (simp_all add: money_dec_def)
  note a = fl_close [OF ab(1)] and b = fl_close [OF ab(2)]
  have "(of_int (a + b) :: rat) \<le> of_int MAX_MONEY" using assms(3) by (simp only: of_int_le_iff)
  then have "(of_int a + of_int b :: rat) \<le> 1000000000000" by (simp add: MAX_MONEY_def)
  then have "money_dec a + money_dec b \<le> 10000000000" "0 \<le> money_dec a" "0 \<le> money_dec b"
    using m by (simp_all add: money_dec_def flip: add_divide_distrib)
  then have s: "\<bar>fl (money_dec a) + fl (money_dec b)\<bar> \<le> 20000000000"
    using a b unfolding abs_le_iff by linarith
  have "\<bar>fadd (fl (money_dec a)) (fl (money_dec b)) - (fl (money_dec a) + fl (money_dec b))\<bar> \<le> 1 / 300000"
    unfolding fadd_def using s by (rule fl_close)
  moreover have "money_dec (a + b) = money_dec a + money_dec b" by (simp add: money_dec_def add_divide_distrib)
  ultimately show ?thesis using a b by linarith
qed

subsection \<open>Properties\<close>

text \<open>
  C32. After a restart of the backend, the first telemetry frame rebuilds the mirror from the
  session row, and the live cost shown from then on is within a tenth of a hundredth of a coin
  of what \<open>session_cost\<close> bills for the same reading.
\<close>

theorem hydrated_live_cost_matches_bill:
  assumes "store_ok st" "st_session_segment_start st (cs_plug_id s) = None" "session_row_ok s"
    and "is_float e" "0 \<le> e" "0 \<le> to_money (current_rate cfg s)" "0 \<le> settled_of s"
    and "session_cost cfg s e < MAX_MONEY"
  shows "\<bar>live_cost cfg (hydrate_session st (cs_plug_id s) (cs_rate_coins_per_kwh s) (cs_settled_cost_coins s)
            (cs_rate_segment_start_kwh s) t) (cs_plug_id s) e - money_dec (session_cost cfg s e)\<bar> \<le> 1 / 1000"
proof -
  define a where "a = (case cs_rate_segment_start_kwh s of None \<Rightarrow> 0 | Some _ \<Rightarrow> settled_of s)"
  define b where "b = energy_cost (max 0 (fsub e (case cs_rate_segment_start_kwh s of Some a \<Rightarrow> a | None \<Rightarrow> 0)))
      (current_rate cfg s)"
  have b0: "0 \<le> b" unfolding b_def using assms by (intro energy_cost_nonneg) simp_all
  have a0: "0 \<le> a" using assms(7) by (simp add: a_def split: option.split)
  have cost: "session_cost cfg s e = clamp_money (a + b)"
  proof (cases "cs_rate_segment_start_kwh s")
    case None
    then show ?thesis using assms(4,5) energy_cost_bounds [of e "current_rate cfg s"]
      by (simp add: session_cost_def a_def b_def fsub_zero_right max_def clamp_money_id)
  qed (simp add: session_cost_segmented a_def b_def)
  have le: "a + b \<le> MAX_MONEY" "session_cost cfg s e = a + b"
    using cost assms(8) a0 b0 by (auto simp: clamp_money_def min_def max_def split: if_splits)
  have m: "(case cs_rate_segment_start_kwh s of None \<Rightarrow> 0 | Some _ \<Rightarrow> money_float (cs_settled_cost_coins s))
      = fl (money_dec a)"
    by (simp add: a_def settled_of_def money_float_def ZERO_MONEY_def money_dec_def split: option.splits)
  show ?thesis
    unfolding live_cost_mirrors [OF mirrors_hydrate [OF assms(1-3)]] m b_def [symmetric] le(2)
    using a0 b0 le(1) by (rule float_sum_close)
qed

theorem hydrated_live_cost_matches_bill_witness:
  "\<bar>live_cost default_config (hydrate_session empty_store (cs_plug_id sample_session)
        (cs_rate_coins_per_kwh sample_session) (cs_settled_cost_coins sample_session)
        (cs_rate_segment_start_kwh sample_session) None) (cs_plug_id sample_session) 2
      - money_dec (session_cost default_config sample_session 2)\<bar> \<le> 1 / 1000"
proof (rule hydrated_live_cost_matches_bill)
  show "session_row_ok sample_session" by (simp add: session_row_ok_def sample_session_def)
  show "st_session_segment_start empty_store (cs_plug_id sample_session) = None" by (simp add: empty_store_def)
qed (rule store_ok_ops(1), code_simp+)

end
