(* ===== verification/Effects.thy ===== *)
theory Effects
  imports Telemetry_Store
begin

text \<open>
  The state the backend process works on, and the trace of what it sends: MQTT commands to the
  gateways, socket broadcasts, driver notifications and bill mails, in the order they are issued.
  A notification keeps its recipient, type, severity and subject; its wording is presentation.
  Delivery is the concern of the transport; where the source branches on the success of a
  publish, that outcome is an argument of the operation.
\<close>

subsection \<open>Definitions\<close>

datatype effect =
    Plug_Off string int
  | Plug_On string int int pyfloat int pyfloat
  | Plug_Interval string int int
  | Plug_Limits string int pyfloat int pyfloat
  | Emit_Plug_Status int plug_status
  | Emit_Plug_Connectivity int bool
  | Emit_Gateway_Alarm string "int option" string string
  | Publish_Roster string
  | Publish_Assignments string "(string \<times> int) list"
  | Enqueue_Sample int pyfloat pyfloat
  | Notify int string string "int option" "int option"
  | Bill_Email int int

record world =
  w_db :: db
  w_store :: telemetry_store
  w_mqtt_client :: bool
  w_effects :: "effect list"

definition emit :: "effect list \<Rightarrow> world \<Rightarrow> world" where
  "emit es w = w\<lparr>w_effects := w_effects w @ es\<rparr>"

definition empty_world :: world where
  "empty_world = \<lparr>w_db = empty_db, w_store = empty_store, w_mqtt_client = True, w_effects = []\<rparr>"

text \<open>Python's \<open>sub in s\<close> and \<open>s.startswith(p)\<close>.\<close>

fun starts_with :: "string \<Rightarrow> string \<Rightarrow> bool" where
  "starts_with [] s = True"
| "starts_with (c # p) [] = False"
| "starts_with (c # p) (a # s) = (c = a \<and> starts_with p s)"

fun contains :: "string \<Rightarrow> string \<Rightarrow> bool" where
  "contains p [] = (p = [])"
| "contains p (a # s) = (starts_with p (a # s) \<or> contains p s)"

subsection \<open>Lemmas\<close>

lemma emit_simps [simp]:
  "w_db (emit es w) = w_db w" "w_store (emit es w) = w_store w"
  "w_mqtt_client (emit es w) = w_mqtt_client w" "w_effects (emit es w) = w_effects w @ es"
  by (simp_all add: emit_def)

lemma starts_with_iff: "starts_with p s \<longleftrightarrow> (\<exists>t. s = p @ t)"
  by (induction p s rule: starts_with.induct) auto

lemma contains_iff: "contains p s \<longleftrightarrow> (\<exists>a b. s = a @ p @ b)"
proof (induction p s rule: contains.induct)
  case (2 p a s)
  have "(\<exists>x b. a # s = x @ p @ b) \<longleftrightarrow> (\<exists>b. a # s = p @ b) \<or> (\<exists>x b. s = x @ p @ b)"
    by (metis append_Cons append_Nil list.inject neq_Nil_conv)
  with 2 show ?case by (simp add: starts_with_iff)
qed simp

end
