(* ===== verification/Caps.thy ===== *)
theory Caps
  imports Effects
begin

text \<open>
  Circuit current limits (\<open>backend/services/caps.py\<close>), the capacity-request fan-out
  (\<open>backend/services/capacity.py\<close>) and the plug-watch fan-out
  (\<open>backend/services/plug_watch.py\<close>).

  The join of plugs with their active sessions is taken in the order of the session table; the
  float sum runs in that order.  \<open>circuit_ok\<close> is the promise of the admission gate, an upper
  bound on the committed load of every capped circuit; starts and stops keep it.
\<close>

subsection \<open>Definitions\<close>

definition effective_plug_cap :: "config \<Rightarrow> plug \<Rightarrow> pyfloat" where
  "effective_plug_cap cfg plug =
     (case pl_max_current_a plug of Some a \<Rightarrow> a | None \<Rightarrow> DEFAULT_PLUG_CAP_A cfg)"

definition active_group_plugs :: "db \<Rightarrow> int \<Rightarrow> int option \<Rightarrow> plug list" where
  "active_group_plugs d group_id exclude_plug_id =
     List.map_filter
       (\<lambda>s. if cs_status s = ACTIVE
            then (case row_by pl_id (cs_plug_id s) (plugs d) of
                    Some p \<Rightarrow> (if pl_group_id p = Some group_id \<and> exclude_plug_id \<noteq> Some (pl_id p)
                               then Some p else None)
                  | None \<Rightarrow> None)
            else None) (charging_sessions d)"

definition circuit_load_a :: "config \<Rightarrow> db \<Rightarrow> int \<Rightarrow> int option \<Rightarrow> pyfloat" where
  "circuit_load_a cfg d group_id exclude_plug_id =
     foldl (\<lambda>acc p. fadd acc (effective_plug_cap cfg p)) 0 (active_group_plugs d group_id exclude_plug_id)"

definition fresh_measured_current_a ::
  "config \<Rightarrow> pyfloat \<Rightarrow> telemetry_store option \<Rightarrow> int \<Rightarrow> pyfloat option" where
  "fresh_measured_current_a cfg now store plug_id =
     (case store of
        None \<Rightarrow> None
      | Some st \<Rightarrow>
          (case get_latest st plug_id of
             None \<Rightarrow> None
           | Some snap \<Rightarrow>
               if sn_current_a snap \<le> 0 then None
               else if TELEMETRY_STALE_AFTER_SEC cfg < fsub now (sn_updated_at snap) then None
               else Some (sn_current_a snap)))"

definition measured_circuit_load_a ::
  "config \<Rightarrow> pyfloat \<Rightarrow> db \<Rightarrow> int \<Rightarrow> telemetry_store option \<Rightarrow> int option \<Rightarrow> pyfloat" where
  "measured_circuit_load_a cfg now d group_id store exclude_plug_id =
     foldl (\<lambda>total p.
       (case fresh_measured_current_a cfg now store (pl_id p) of
          Some measured \<Rightarrow> fadd total measured
        | None \<Rightarrow> fadd total (effective_plug_cap cfg p))) 0
       (active_group_plugs d group_id exclude_plug_id)"

definition ADMISSION_EPS :: pyfloat where
  "ADMISSION_EPS = fl (1 / 1000000)"

definition group_cap :: "db \<Rightarrow> int \<Rightarrow> pyfloat option" where
  "group_cap d group_id =
     (case row_by cg_id group_id (charger_groups d) of None \<Rightarrow> None | Some g \<Rightarrow> cg_max_current_a g)"

definition check_circuit_admission :: "config \<Rightarrow> db \<Rightarrow> plug \<Rightarrow> unit response" where
  "check_circuit_admission cfg d plug =
     (if \<not> ENFORCE_CIRCUIT_ADMISSION cfg then Inr ()
      else case pl_group_id plug of
             None \<Rightarrow> Inr ()
           | Some group_id \<Rightarrow>
               (case group_cap d group_id of
                  None \<Rightarrow> Inr ()
                | Some max_current_a \<Rightarrow>
                    (let load = circuit_load_a cfg d group_id (Some (pl_id plug));
                         projected = fadd load (effective_plug_cap cfg plug)
                     in if fadd max_current_a ADMISSION_EPS < projected
                        then Inl (HTTPException 409 ''circuit_full'')
                        else Inr ())))"

definition pending_requests :: "db \<Rightarrow> int \<Rightarrow> int option \<Rightarrow> capacity_request list" where
  "pending_requests d g exclude_user_id =
     filter (\<lambda>r. cr_group_id r = g \<and> exclude_user_id \<noteq> Some (cr_user_id r)) (capacity_requests d)"

definition now_fits :: "config \<Rightarrow> db \<Rightarrow> int \<Rightarrow> pyfloat \<Rightarrow> plug \<Rightarrow> bool" where
  "now_fits cfg d g max_current_a plug \<longleftrightarrow>
     fadd (circuit_load_a cfg d g None) (effective_plug_cap cfg plug) \<le> fadd max_current_a ADMISSION_EPS"

definition request_fires :: "config \<Rightarrow> db \<Rightarrow> int \<Rightarrow> pyfloat \<Rightarrow> capacity_request \<Rightarrow> bool" where
  "request_fires cfg d g max_current_a r =
     (case row_by pl_id (cr_plug_id r) (plugs d) of
        None \<Rightarrow> True
      | Some plug \<Rightarrow> now_fits cfg d g max_current_a plug)"

definition request_note :: "config \<Rightarrow> db \<Rightarrow> int \<Rightarrow> pyfloat \<Rightarrow> capacity_request \<Rightarrow> effect option" where
  "request_note cfg d g max_current_a r =
     (case row_by pl_id (cr_plug_id r) (plugs d) of
        None \<Rightarrow> None
      | Some plug \<Rightarrow>
          (if now_fits cfg d g max_current_a plug
           then Some (Notify (cr_user_id r) ''capacity_available'' ''info'' (Some (pl_id plug)) None)
           else None))"

definition notify_capacity_available :: "config \<Rightarrow> world \<Rightarrow> int option \<Rightarrow> int option \<Rightarrow> world \<times> nat" where
  "notify_capacity_available cfg w group_id exclude_user_id =
     (case group_id of
        None \<Rightarrow> (w, 0)
      | Some g \<Rightarrow>
          (let d = w_db w in
           case group_cap d g of
             None \<Rightarrow> (w, 0)
           | Some max_current_a \<Rightarrow>
               (let requests = pending_requests d g exclude_user_id;
                    fired = filter (request_fires cfg d g max_current_a) requests;
                    notes = List.map_filter (request_note cfg d g max_current_a) requests
                in if requests = [] then (w, 0)
                   else (emit notes (w\<lparr>w_db := d\<lparr>capacity_requests :=
                           filter (\<lambda>r. cr_id r \<notin> cr_id ` set fired) (capacity_requests d)\<rparr>\<rparr>), length fired))))"

definition notify_watchers_plug_available :: "world \<Rightarrow> plug \<Rightarrow> int option \<Rightarrow> world \<times> nat" where
  "notify_watchers_plug_available w plug exclude_user_id =
     (let d = w_db w;
          watches = filter (\<lambda>r. pw_plug_id r = pl_id plug \<and> exclude_user_id \<noteq> Some (pw_user_id r)) (plug_watches d)
      in if watches = [] then (w, 0)
         else (emit (map (\<lambda>r. Notify (pw_user_id r) ''plug_available'' ''info'' (Some (pl_id plug)) None) watches)
                 (w\<lparr>w_db := d\<lparr>plug_watches := filter (\<lambda>r. pw_id r \<notin> pw_id ` set watches) (plug_watches d)\<rparr>\<rparr>),
               length watches))"

text \<open>The committed load of every capped circuit stays within its limit.\<close>

definition caps_sane :: "config \<Rightarrow> db \<Rightarrow> bool" where
  "caps_sane cfg d \<longleftrightarrow> list_all (\<lambda>p. 0 \<le> effective_plug_cap cfg p) (plugs d)"

definition circuit_ok :: "config \<Rightarrow> db \<Rightarrow> bool" where
  "circuit_ok cfg d \<longleftrightarrow>
     list_all (\<lambda>g. case group_cap d (cg_id g) of
                     None \<Rightarrow> True
                   | Some m \<Rightarrow> circuit_load_a cfg d (cg_id g) None \<le> fadd m ADMISSION_EPS) (charger_groups d)"

definition sample_free_plug :: plug where
  "sample_free_plug = \<lparr>pl_id = 1, pl_gateway_id = ''gw'', pl_status = AVAILABLE, pl_current_power_w = 0,
     pl_last_seen_at = 0, pl_last_telemetry_at = None, pl_powered_since = None, pl_group_id = None,
     pl_tariff_id = None, pl_max_current_a = None, pl_queued_charging_enabled = None,
     pl_auto_start_delay_min = None, pl_last_today_energy_kwh = None, pl_last_month_energy_kwh = None, pl_unique_id = None\<rparr>"

text \<open>
  What the load depends on: identity, group and cap of every plug, and per session the current
  it commits.
\<close>

definition cap_row :: "plug \<Rightarrow> int \<times> int option \<times> pyfloat option" where
  "cap_row p = (pl_id p, pl_group_id p, pl_max_current_a p)"

definition commits ::
  "config \<Rightarrow> (int \<times> int option \<times> pyfloat option) list \<Rightarrow> int \<Rightarrow> int option \<Rightarrow> charging_session \<Rightarrow> pyfloat option" where
  "commits cfg rows g ex s =
     (if cs_status s = ACTIVE
      then (case row_by fst (cs_plug_id s) rows of
              Some (i, grp, cap) \<Rightarrow>
                (if grp = Some g \<and> ex \<noteq> Some i
                 then Some (case cap of Some a \<Rightarrow> a | None \<Rightarrow> DEFAULT_PLUG_CAP_A cfg) else None)
            | None \<Rightarrow> None)
      else None)"

subsection \<open>The load under changes of the session table\<close>

lemma row_by_cap_row: "row_by fst i (map cap_row ps) = map_option cap_row (row_by pl_id i ps)"
  by (induction ps) (auto simp: row_by_Cons cap_row_def)

lemma map_filter_Nil [simp]: "List.map_filter f [] = []"
  by (simp add: List.map_filter_def)

lemma map_filter_Cons [simp]:
  "List.map_filter f (x # xs) = (case f x of None \<Rightarrow> List.map_filter f xs | Some y \<Rightarrow> y # List.map_filter f xs)"
  by (simp add: List.map_filter_def split: option.split)

lemma map_filter_append [simp]: "List.map_filter f (xs @ ys) = List.map_filter f xs @ List.map_filter f ys"
  by (simp add: List.map_filter_def)

lemma map_filter_cong: "(\<And>x. x \<in> set xs \<Longrightarrow> f x = g x) \<Longrightarrow> List.map_filter f xs = List.map_filter g xs"
  by (induction xs) (auto split: option.splits)

lemma circuit_load_commits:
  "circuit_load_a cfg d g ex = foldl fadd 0 (List.map_filter (commits cfg (map cap_row (plugs d)) g ex) (charging_sessions d))"
proof -
  have "foldl (\<lambda>acc p. fadd acc (effective_plug_cap cfg p)) a
      (List.map_filter (\<lambda>s. if cs_status s = ACTIVE
            then (case row_by pl_id (cs_plug_id s) (plugs d) of
                    Some p \<Rightarrow> (if pl_group_id p = Some g \<and> ex \<noteq> Some (pl_id p) then Some p else None)
                  | None \<Rightarrow> None)
            else None) ss)
    = foldl fadd a (List.map_filter (commits cfg (map cap_row (plugs d)) g ex) ss)" for a ss
    by (induction ss arbitrary: a)
       (auto simp: commits_def row_by_cap_row effective_plug_cap_def cap_row_def split: option.splits)
  then show ?thesis by (simp add: circuit_load_a_def active_group_plugs_def)
qed

lemma circuit_load_cong:
  "map cap_row (plugs d') = map cap_row (plugs d) \<Longrightarrow> charging_sessions d' = charging_sessions d
    \<Longrightarrow> circuit_load_a cfg d' g ex = circuit_load_a cfg d g ex"
  by (simp add: circuit_load_commits)

lemma foldl_fadd_mono: "a \<le> b \<Longrightarrow> foldl fadd a xs \<le> foldl fadd b xs"
  by (induction xs arbitrary: a b) (simp_all add: fadd_mono)

lemma foldl_fadd_drop:
  assumes "\<forall>s \<in> set ss. f s = g s \<or> f s = None" "\<forall>s \<in> set ss. \<forall>c. g s = Some c \<longrightarrow> 0 \<le> c" "is_float a"
  shows "foldl fadd a (List.map_filter f ss) \<le> foldl fadd a (List.map_filter g ss)"
  using assms
proof (induction ss arbitrary: a)
  case (Cons s ss)
  show ?case
  proof (cases "g s")
    case None
    with Cons show ?thesis by fastforce
  next
    case (Some c)
    show ?thesis
    proof (cases "f s = None")
      case True
      have "foldl fadd a (List.map_filter f ss) \<le> foldl fadd a (List.map_filter g ss)"
        using Cons by simp
      also have "\<dots> \<le> foldl fadd (fadd a c) (List.map_filter g ss)"
        using Cons.prems Some by (intro foldl_fadd_mono fadd_ge_left) auto
      finally show ?thesis using True Some by simp
    next
      case False
      with Cons Some show ?thesis by auto
    qed
  qed
qed simp

lemma commits_nonneg:
  assumes "caps_sane cfg d" "commits cfg (map cap_row (plugs d)) g ex s = Some c"
  shows "0 \<le> c"
  using assms
  by (auto simp: commits_def row_by_cap_row caps_sane_def list_all_iff cap_row_def effective_plug_cap_def
      split: if_splits option.splits dest!: row_by_SomeD)

text \<open>A change of the session table that only ends sessions never raises a circuit's load.\<close>

lemma circuit_load_update:
  assumes "caps_sane cfg d" "map cap_row (plugs d') = map cap_row (plugs d)"
    "charging_sessions d' = update_where P f (charging_sessions d)"
    "\<And>s. P s \<Longrightarrow> cs_plug_id (f s) = cs_plug_id s" "\<And>s. P s \<Longrightarrow> cs_status (f s) = ACTIVE \<Longrightarrow> cs_status s = ACTIVE"
  shows "circuit_load_a cfg d' g ex \<le> circuit_load_a cfg d g ex"
proof -
  let ?c = "commits cfg (map cap_row (plugs d)) g ex"
  have "List.map_filter ?c (update_where P f ss) = List.map_filter (\<lambda>s. ?c (if P s then f s else s)) ss" for ss
    by (induction ss) (auto split: option.splits)
  moreover have "foldl fadd 0 (List.map_filter (\<lambda>s. ?c (if P s then f s else s)) (charging_sessions d))
      \<le> foldl fadd 0 (List.map_filter ?c (charging_sessions d))"
    using assms(4,5) commits_nonneg [OF assms(1)]
    by (intro foldl_fadd_drop) (auto simp: commits_def)
  ultimately show ?thesis by (simp add: circuit_load_commits assms(2,3))
qed

lemma circuit_ok_update:
  assumes "circuit_ok cfg d" "caps_sane cfg d" "map cap_row (plugs d') = map cap_row (plugs d)"
    "charger_groups d' = charger_groups d"
    "charging_sessions d' = update_where P f (charging_sessions d)"
    "\<And>s. P s \<Longrightarrow> cs_plug_id (f s) = cs_plug_id s" "\<And>s. P s \<Longrightarrow> cs_status (f s) = ACTIVE \<Longrightarrow> cs_status s = ACTIVE"
  shows "circuit_ok cfg d'"
proof -
  have cap: "group_cap d' = group_cap d" using assms(4) by (simp add: group_cap_def fun_eq_iff)
  have "circuit_load_a cfg d' g None \<le> circuit_load_a cfg d g None" for g
    by (rule circuit_load_update [OF assms(2,3,5,6,7)])
  then show ?thesis
    using assms(1) unfolding circuit_ok_def cap assms(4) list_all_iff
    by (fastforce split: option.splits intro: order_trans)
qed

lemma admission_start:
  assumes ok: "circuit_ok cfg d" and adm: "check_circuit_admission cfg d plug = Inr ()"
    and enforce: "ENFORCE_CIRCUIT_ADMISSION cfg"
    and plug: "row_by pl_id (pl_id plug) (plugs d) = Some plug"
    and free: "\<forall>s \<in> set (charging_sessions d). cs_status s = ACTIVE \<longrightarrow> cs_plug_id s \<noteq> pl_id plug"
    and d': "map cap_row (plugs d') = map cap_row (plugs d)" "charger_groups d' = charger_groups d"
      "charging_sessions d' = charging_sessions d @ [s]" "cs_plug_id s = pl_id plug" "cs_status s = ACTIVE"
  shows "circuit_ok cfg d'"
proof -
  have cap: "group_cap d' = group_cap d" using d'(2) by (simp add: group_cap_def fun_eq_iff)
  have new: "commits cfg (map cap_row (plugs d)) g None s =
      (if pl_group_id plug = Some g then Some (effective_plug_cap cfg plug) else None)" for g
    using d'(4,5) plug by (simp add: commits_def row_by_cap_row cap_row_def effective_plug_cap_def)
  have same: "circuit_load_a cfg d g (Some (pl_id plug)) = circuit_load_a cfg d g None" for g
  proof -
    have "commits cfg (map cap_row (plugs d)) g (Some (pl_id plug)) x = commits cfg (map cap_row (plugs d)) g None x"
      if "x \<in> set (charging_sessions d)" for x
      using free that by (auto simp: commits_def row_by_cap_row cap_row_def split: option.splits dest!: row_by_SomeD)
    then have "List.map_filter (commits cfg (map cap_row (plugs d)) g (Some (pl_id plug))) (charging_sessions d)
        = List.map_filter (commits cfg (map cap_row (plugs d)) g None) (charging_sessions d)"
      by (rule map_filter_cong)
    then show ?thesis by (simp only: circuit_load_commits)
  qed
  have "circuit_load_a cfg d' (cg_id g) None \<le> fadd m ADMISSION_EPS"
    if g: "g \<in> set (charger_groups d)" and m: "group_cap d (cg_id g) = Some m" for g m
  proof (cases "pl_group_id plug = Some (cg_id g)")
    case True
    have "circuit_load_a cfg d' (cg_id g) None = fadd (circuit_load_a cfg d (cg_id g) None) (effective_plug_cap cfg plug)"
      by (simp add: circuit_load_commits d' new True)
    with adm enforce True m show ?thesis
      by (simp add: check_circuit_admission_def same Let_def not_less split: if_splits)
  next
    case False
    then have "circuit_load_a cfg d' (cg_id g) None = circuit_load_a cfg d (cg_id g) None"
      by (simp add: circuit_load_commits d' new)
    with ok g m show ?thesis by (auto simp: circuit_ok_def list_all_iff split: option.splits)
  qed
  then show ?thesis unfolding circuit_ok_def cap d'(2) by (auto simp: list_all_iff split: option.splits)
qed

lemma request_fires_cong:
  assumes "plugs d' = plugs d" "charging_sessions d' = charging_sessions d"
  shows "request_fires cfg d' g c r = request_fires cfg d g c r"
proof -
  have "now_fits cfg d' g c p = now_fits cfg d g c p" for p
    using assms by (simp add: now_fits_def circuit_load_commits)
  with assms show ?thesis by (simp add: request_fires_def split: option.split)
qed

lemma request_note_None: "\<not> request_fires cfg d g c r \<Longrightarrow> request_note cfg d g c r = None"
  by (auto simp: request_fires_def request_note_def split: option.splits)

lemma map_filter_None: "(\<And>x. x \<in> set xs \<Longrightarrow> f x = None) \<Longrightarrow> List.map_filter f xs = []"
  by (induction xs) auto

lemma no_request_fires:
  assumes "\<forall>r \<in> set (pending_requests (w_db w) g ex). \<not> request_fires cfg (w_db w) g c r"
    "group_cap (w_db w) g = Some c"
  shows "notify_capacity_available cfg w (Some g) ex = (w, 0)"
proof -
  have "filter (request_fires cfg (w_db w) g c) (pending_requests (w_db w) g ex) = []"
    using assms(1) by (simp add: filter_empty_conv)
  moreover have "List.map_filter (request_note cfg (w_db w) g c) (pending_requests (w_db w) g ex) = []"
    using assms(1) by (intro map_filter_None request_note_None) simp
  ultimately show ?thesis
    by (simp add: notify_capacity_available_def Let_def assms(2) emit_def)
qed

lemma capacity_fan_out_idem:
  assumes "notify_capacity_available cfg w g ex = (w1, n)"
  shows "notify_capacity_available cfg w1 g ex = (w1, 0)"
proof (cases g)
  case None
  with assms show ?thesis by (auto simp: notify_capacity_available_def)
next
  case (Some i)
  show ?thesis
  proof (cases "group_cap (w_db w) i = None \<or> pending_requests (w_db w) i ex = []")
    case True
    then have "notify_capacity_available cfg w g ex = (w, 0)"
      by (cases "group_cap (w_db w) i") (auto simp: Some notify_capacity_available_def Let_def)
    with assms show ?thesis by simp
  next
    case False
    then obtain c where c: "group_cap (w_db w) i = Some c" by auto
    let ?d = "w_db w" and ?d1 = "w_db w1"
    let ?fired = "filter (request_fires cfg ?d i c) (pending_requests ?d i ex)"
    let ?new = "?d\<lparr>capacity_requests := filter (\<lambda>r. cr_id r \<notin> cr_id ` set ?fired) (capacity_requests ?d)\<rparr>"
    have "notify_capacity_available cfg w g ex =
        (emit (List.map_filter (request_note cfg ?d i c) (pending_requests ?d i ex)) (w\<lparr>w_db := ?new\<rparr>), length ?fired)"
      using False c by (simp add: Some notify_capacity_available_def Let_def)
    with assms have "w1 = emit (List.map_filter (request_note cfg ?d i c) (pending_requests ?d i ex)) (w\<lparr>w_db := ?new\<rparr>)"
      by simp
    then have d1: "?d1 = ?new" by simp
    have same: "group_cap ?d1 i = group_cap ?d i" "request_fires cfg ?d1 i c r = request_fires cfg ?d i c r" for r
      by (simp_all add: d1 group_cap_def) (rule request_fires_cong; simp)
    have "\<forall>r \<in> set (pending_requests ?d1 i ex). \<not> request_fires cfg ?d i c r"
      by (auto simp: d1 pending_requests_def)
    then have "\<forall>r \<in> set (pending_requests ?d1 i ex). \<not> request_fires cfg ?d1 i c r"
      by (simp add: same(2))
    then show ?thesis unfolding Some by (rule no_request_fires) (simp add: same(1) c)
  qed
qed

subsection \<open>Properties\<close>

text \<open>
  The fan-outs are one-shot: announcing a free plug notifies every watcher but the excluded
  driver exactly once, in table order, and a second announcement right after notifies nobody and
  changes nothing; a second capacity announcement right after the first does nothing either.
\<close>

lemma fan_outs_one_shot:
  assumes "notify_watchers_plug_available w plug ex = (w1, n)"
    and "notify_capacity_available cfg v g ex = (v1, m)"
  shows "w_effects w1 = w_effects w @ map (\<lambda>r. Notify (pw_user_id r) ''plug_available'' ''info'' (Some (pl_id plug)) None)
             (filter (\<lambda>r. pw_plug_id r = pl_id plug \<and> ex \<noteq> Some (pw_user_id r)) (plug_watches (w_db w)))
    \<and> notify_watchers_plug_available w1 plug ex = (w1, 0)
    \<and> notify_capacity_available cfg v1 g ex = (v1, 0)"
proof (intro conjI)
  show "notify_capacity_available cfg v1 g ex = (v1, 0)"
    using assms(2) by (rule capacity_fan_out_idem)
qed (use assms(1) in \<open>auto simp: notify_watchers_plug_available_def Let_def filter_empty_conv split: if_splits\<close>)

end
