(* ===== verification/Lifecycle.thy ===== *)
theory Lifecycle
  imports Wallet Caps
begin

text \<open>
  The end of a charging session (\<open>backend/services/session_lifecycle.py\<close>).

  \<open>finalize_charging_session\<close> is the shared stop path of the stop endpoint, the auto-stops and
  the reaper.  The whole function runs under the user's and the session's row locks, so it is one
  step of the model; an exception before the commit rolls the database back and leaves only the
  OFF command that was already published.  \<open>money_ok\<close> is the invariant of the money side: keys are
  unique, balances are in range, every running session has a hold, and the holds of a user are
  covered by the balance.
\<close>

subsection \<open>Definitions\<close>

definition gateway_is_live :: "config \<Rightarrow> gateway \<Rightarrow> timestamp \<Rightarrow> bool" where
  "gateway_is_live cfg gw now \<longleftrightarrow>
     gw_status gw = ONLINE \<and> total_seconds (now - gw_last_seen_at gw) \<le> of_int (GATEWAY_LIVENESS_WINDOW_SEC cfg)"

definition plug_is_powered :: "config \<Rightarrow> plug \<Rightarrow> timestamp \<Rightarrow> bool" where
  "plug_is_powered cfg plug now =
     (case pl_last_telemetry_at plug of
        None \<Rightarrow> False
      | Some t \<Rightarrow> total_seconds (now - t) \<le> of_int (PLUG_POWER_STALE_SEC cfg))"

definition set_plug_telemetry_interval :: "world \<Rightarrow> int \<Rightarrow> int \<Rightarrow> world" where
  "set_plug_telemetry_interval w plug_id interval_ms =
     (if get_interval (w_store w) plug_id = interval_ms then w
      else case row_by pl_id plug_id (plugs (w_db w)) of
             None \<Rightarrow> w
           | Some plug \<Rightarrow>
               (let w1 = w\<lparr>w_store := set_interval (w_store w) plug_id interval_ms\<rparr>
                in if w_mqtt_client w then emit [Plug_Interval (pl_gateway_id plug) plug_id interval_ms] w1
                   else w1))"

definition check_and_speed_up_active_session :: "world \<Rightarrow> int \<Rightarrow> world" where
  "check_and_speed_up_active_session w user_id =
     fold (\<lambda>s w. set_plug_telemetry_interval w (cs_plug_id s) 1000)
       (filter (\<lambda>s. cs_user_id s = user_id \<and> cs_status s = ACTIVE) (charging_sessions (w_db w))) w"

datatype stop_kind =
    Balance_Exhausted
  | Telemetry_Lost
  | Safety_Cutoff
  | Current_Cap
  | Limit_Reached
  | Plug_Reserved
  | Charging_Complete

definition stop_kind_of :: "string option \<Rightarrow> stop_kind" where
  "stop_kind_of reason =
     (case reason of
        None \<Rightarrow> Charging_Complete
      | Some r \<Rightarrow>
          (if contains ''exhausted'' r then Balance_Exhausted
           else if contains ''telemetry lost'' r then Telemetry_Lost
           else if starts_with ''safety cutoff'' r then Safety_Cutoff
           else if contains ''current cap exceeded'' r then Current_Cap
           else if contains ''limit reached'' r then Limit_Reached
           else if contains ''reserved'' r then Plug_Reserved
           else Charging_Complete))"

fun stop_severity :: "stop_kind \<Rightarrow> string" where
  "stop_severity Balance_Exhausted = ''warning''"
| "stop_severity Telemetry_Lost = ''warning''"
| "stop_severity Safety_Cutoff = ''critical''"
| "stop_severity Current_Cap = ''warning''"
| "stop_severity Limit_Reached = ''info''"
| "stop_severity Plug_Reserved = ''warning''"
| "stop_severity Charging_Complete = ''info''"

record receipt =
  rc_session_id :: int
  rc_plug_id :: int
  rc_energy_kwh :: pyfloat
  rc_peak_power_w :: pyfloat
  rc_price_per_kwh :: pyfloat
  rc_settled_cost_coins :: "pyfloat option"
  rc_coins_spent :: money
  rc_shortfall_coins :: money
  rc_balance_before :: money
  rc_balance_remaining :: money
  rc_duration_sec :: int
  rc_started_at :: timestamp
  rc_ended_at :: timestamp
  rc_max_kwh :: "pyfloat option"
  rc_max_duration_seconds :: "int option"
  rc_reason :: "string option"

definition find_session :: "db \<Rightarrow> int \<Rightarrow> int option \<Rightarrow> charging_session option" where
  "find_session d session_id expected_user_id =
     find (\<lambda>s. cs_id s = session_id \<and> (case expected_user_id of None \<Rightarrow> True | Some u \<Rightarrow> cs_user_id s = u))
       (charging_sessions d)"

definition requested_debit :: "config \<Rightarrow> charging_session \<Rightarrow> money" where
  "requested_debit cfg session =
     (let final_cost = session_cost cfg session (cs_energy_kwh session)
      in case cs_hold_coins session of Some hold \<Rightarrow> min final_cost hold | None \<Rightarrow> final_cost)"

definition settle_session ::
  "config \<Rightarrow> timestamp \<Rightarrow> db \<Rightarrow> charging_session \<Rightarrow> (db \<times> money \<times> money) response" where
  "settle_session cfg now d session =
     (case debit_wallet_clamped d (cs_user_id session) (requested_debit cfg session) of
        Inl err \<Rightarrow> Inl err
      | Inr (d1, actual_debit, new_balance) \<Rightarrow>
          (let d2 = upd_session (cs_id session)
                 (\<lambda>s. s\<lparr>cs_status := COMPLETED, cs_coins_spent := actual_debit, cs_ended_at := Some now\<rparr>) d1;
               d3 = add_ledger \<lparr>lt_id = 0, lt_user_id = cs_user_id session, lt_session_id = Some (cs_id session),
                      lt_amount = - actual_debit, lt_transaction_type = SESSION_DEBIT,
                      lt_razorpay_payment_id = None, lt_balance_after = new_balance, lt_created_at = now\<rparr> d2;
               d4 = upd_plug (cs_plug_id session) (\<lambda>p. p\<lparr>pl_status := AVAILABLE\<rparr>) d3
           in Inr (d4, actual_debit, new_balance)))"

definition make_receipt ::
  "config \<Rightarrow> timestamp \<Rightarrow> charging_session \<Rightarrow> money \<Rightarrow> money \<Rightarrow> string option \<Rightarrow> receipt" where
  "make_receipt cfg now session actual_debit new_balance reason =
     \<lparr>rc_session_id = cs_id session, rc_plug_id = cs_plug_id session,
      rc_energy_kwh = py_round 3 (cs_energy_kwh session), rc_peak_power_w = py_round 1 (cs_peak_power_w session),
      rc_price_per_kwh = (case cs_rate_coins_per_kwh session of Some r \<Rightarrow> fl (money_dec r) | None \<Rightarrow> COINS_PER_KWH cfg),
      rc_settled_cost_coins = map_option (\<lambda>c. fl (money_dec c)) (cs_settled_cost_coins session),
      rc_coins_spent = actual_debit,
      rc_shortfall_coins = session_cost cfg session (cs_energy_kwh session) - actual_debit,
      rc_balance_before = new_balance + actual_debit, rc_balance_remaining = new_balance,
      rc_duration_sec = trunc_int (total_seconds (now - cs_started_at session)),
      rc_started_at = cs_started_at session, rc_ended_at = now,
      rc_max_kwh = cs_max_kwh session, rc_max_duration_seconds = cs_max_duration_seconds session,
      rc_reason = reason\<rparr>"

definition after_settlement :: "config \<Rightarrow> world \<Rightarrow> charging_session \<Rightarrow> plug \<Rightarrow> string option \<Rightarrow> world" where
  "after_settlement cfg w session plug reason =
     (let w1 = emit [Emit_Plug_Status (pl_id plug) AVAILABLE] w;
          w2 = fst (notify_watchers_plug_available w1 plug (Some (cs_user_id session)));
          w3 = fst (notify_capacity_available cfg w2 (pl_group_id plug) (Some (cs_user_id session)));
          w4 = w3\<lparr>w_store := end_session (w_store w3) (pl_id plug)\<rparr>;
          w5 = set_plug_telemetry_interval w4 (pl_id plug) 10000
      in emit [Notify (cs_user_id session) ''session_stopped'' (stop_severity (stop_kind_of reason))
                 (Some (pl_id plug)) (Some (cs_id session)),
               Bill_Email (cs_user_id session) (cs_id session)] w5)"

definition finalize_charging_session ::
  "config \<Rightarrow> timestamp \<Rightarrow> world \<Rightarrow> int \<Rightarrow> int option \<Rightarrow> string option \<Rightarrow> world \<times> receipt option response" where
  "finalize_charging_session cfg now w session_id expected_user_id reason =
     (case find_session (w_db w) session_id expected_user_id of
        None \<Rightarrow> (w, Inr None)
      | Some session \<Rightarrow>
          if cs_status session \<noteq> ACTIVE then (w, Inr None)
          else case row_by pl_id (cs_plug_id session) (plugs (w_db w)) of
                 None \<Rightarrow> (w, Inl NoResultFound)
               | Some plug \<Rightarrow>
                   (let w1 = emit [Plug_Off (pl_gateway_id plug) (pl_id plug)] w
                    in case settle_session cfg now (w_db w) session of
                         Inl err \<Rightarrow> (w1, Inl err)
                       | Inr (d', actual_debit, new_balance) \<Rightarrow>
                           (after_settlement cfg (w1\<lparr>w_db := d'\<rparr>) session plug reason,
                            Inr (Some (make_receipt cfg now session actual_debit new_balance reason)))))"

text \<open>The invariants of the money side.\<close>

definition keys_ok :: "db \<Rightarrow> bool" where
  "keys_ok d \<longleftrightarrow> distinct (map us_id (users d)) \<and> distinct (map cs_id (charging_sessions d))
     \<and> distinct (map pl_id (plugs d))"

definition holds_ok :: "db \<Rightarrow> bool" where
  "holds_ok d \<longleftrightarrow>
     list_all (\<lambda>s. cs_status s = ACTIVE \<longrightarrow> cs_hold_coins s \<noteq> None \<and> 0 \<le> hold_of s
                 \<and> balance_of d (cs_user_id s) \<noteq> None \<and> row_by pl_id (cs_plug_id s) (plugs d) \<noteq> None)
       (charging_sessions d)
   \<and> list_all (\<lambda>u. held_coins d (us_id u) \<le> us_coin_balance u) (users d)"

definition money_ok :: "db \<Rightarrow> bool" where
  "money_ok d \<longleftrightarrow> keys_ok d \<and> balances_ok d \<and> holds_ok d"

text \<open>A session row whose metered energy, rate and settled part are in their domains.\<close>

definition session_sane :: "config \<Rightarrow> charging_session \<Rightarrow> bool" where
  "session_sane cfg s \<longleftrightarrow> is_float (cs_energy_kwh s) \<and> 0 \<le> cs_energy_kwh s
     \<and> 0 \<le> to_money (current_rate cfg s) \<and> 0 \<le> settled_of s"

text \<open>A driver with 100.00 coins and one running session at 2 kWh, on one plug.\<close>

definition sample_world :: world where
  "sample_world = empty_world\<lparr>w_db := empty_db\<lparr>users := [sample_user],
     plugs := [sample_free_plug\<lparr>pl_status := OCCUPIED\<rparr>], charging_sessions := [sample_session]\<rparr>\<rparr>"

text \<open>The database after a settlement that collected \<open>q\<close> and left the balance \<open>b\<close>.\<close>

definition settled_db :: "timestamp \<Rightarrow> db \<Rightarrow> charging_session \<Rightarrow> money \<Rightarrow> money \<Rightarrow> db" where
  "settled_db now d s q b =
     upd_plug (cs_plug_id s) (\<lambda>p. p\<lparr>pl_status := AVAILABLE\<rparr>)
       (add_ledger \<lparr>lt_id = 0, lt_user_id = cs_user_id s, lt_session_id = Some (cs_id s), lt_amount = - q,
          lt_transaction_type = SESSION_DEBIT, lt_razorpay_payment_id = None, lt_balance_after = b, lt_created_at = now\<rparr>
         (upd_session (cs_id s) (\<lambda>r. r\<lparr>cs_status := COMPLETED, cs_coins_spent := q, cs_ended_at := Some now\<rparr>)
           (upd_user (cs_user_id s) (\<lambda>r. r\<lparr>us_coin_balance := b\<rparr>) d)))"

subsection \<open>Frames\<close>

lemma set_plug_telemetry_interval_db [simp]: "w_db (set_plug_telemetry_interval w p i) = w_db w"
  by (simp add: set_plug_telemetry_interval_def Let_def split: option.split)

lemma notify_watchers_frame [simp]:
  "users (w_db (fst (notify_watchers_plug_available w p ex))) = users (w_db w)"
  "plugs (w_db (fst (notify_watchers_plug_available w p ex))) = plugs (w_db w)"
  "charging_sessions (w_db (fst (notify_watchers_plug_available w p ex))) = charging_sessions (w_db w)"
  "ledger (w_db (fst (notify_watchers_plug_available w p ex))) = ledger (w_db w)"
  "charger_groups (w_db (fst (notify_watchers_plug_available w p ex))) = charger_groups (w_db w)"
  "reservations (w_db (fst (notify_watchers_plug_available w p ex))) = reservations (w_db w)"
  "payouts (w_db (fst (notify_watchers_plug_available w p ex))) = payouts (w_db w)"
  "disputes (w_db (fst (notify_watchers_plug_available w p ex))) = disputes (w_db w)"
  "offline_topups (w_db (fst (notify_watchers_plug_available w p ex))) = offline_topups (w_db w)"
  "gateways (w_db (fst (notify_watchers_plug_available w p ex))) = gateways (w_db w)"
  "tenants (w_db (fst (notify_watchers_plug_available w p ex))) = tenants (w_db w)"
  "tariffs (w_db (fst (notify_watchers_plug_available w p ex))) = tariffs (w_db w)"
  "tariff_slots (w_db (fst (notify_watchers_plug_available w p ex))) = tariff_slots (w_db w)"
  "queued_charges (w_db (fst (notify_watchers_plug_available w p ex))) = queued_charges (w_db w)"
  "invoices (w_db (fst (notify_watchers_plug_available w p ex))) = invoices (w_db w)"
  by (simp_all add: notify_watchers_plug_available_def Let_def)

lemma notify_capacity_frame [simp]:
  "users (w_db (fst (notify_capacity_available cfg w g ex))) = users (w_db w)"
  "plugs (w_db (fst (notify_capacity_available cfg w g ex))) = plugs (w_db w)"
  "charging_sessions (w_db (fst (notify_capacity_available cfg w g ex))) = charging_sessions (w_db w)"
  "ledger (w_db (fst (notify_capacity_available cfg w g ex))) = ledger (w_db w)"
  "charger_groups (w_db (fst (notify_capacity_available cfg w g ex))) = charger_groups (w_db w)"
  "reservations (w_db (fst (notify_capacity_available cfg w g ex))) = reservations (w_db w)"
  "payouts (w_db (fst (notify_capacity_available cfg w g ex))) = payouts (w_db w)"
  "disputes (w_db (fst (notify_capacity_available cfg w g ex))) = disputes (w_db w)"
  "offline_topups (w_db (fst (notify_capacity_available cfg w g ex))) = offline_topups (w_db w)"
  "gateways (w_db (fst (notify_capacity_available cfg w g ex))) = gateways (w_db w)"
  "tenants (w_db (fst (notify_capacity_available cfg w g ex))) = tenants (w_db w)"
  "tariffs (w_db (fst (notify_capacity_available cfg w g ex))) = tariffs (w_db w)"
  "tariff_slots (w_db (fst (notify_capacity_available cfg w g ex))) = tariff_slots (w_db w)"
  "queued_charges (w_db (fst (notify_capacity_available cfg w g ex))) = queued_charges (w_db w)"
  "invoices (w_db (fst (notify_capacity_available cfg w g ex))) = invoices (w_db w)"
  by (simp_all add: notify_capacity_available_def Let_def split: option.split)

lemma after_settlement_frame [simp]:
  "users (w_db (after_settlement cfg w s p r)) = users (w_db w)"
  "plugs (w_db (after_settlement cfg w s p r)) = plugs (w_db w)"
  "charging_sessions (w_db (after_settlement cfg w s p r)) = charging_sessions (w_db w)"
  "ledger (w_db (after_settlement cfg w s p r)) = ledger (w_db w)"
  "charger_groups (w_db (after_settlement cfg w s p r)) = charger_groups (w_db w)"
  "reservations (w_db (after_settlement cfg w s p r)) = reservations (w_db w)"
  "payouts (w_db (after_settlement cfg w s p r)) = payouts (w_db w)"
  "disputes (w_db (after_settlement cfg w s p r)) = disputes (w_db w)"
  "offline_topups (w_db (after_settlement cfg w s p r)) = offline_topups (w_db w)"
  "gateways (w_db (after_settlement cfg w s p r)) = gateways (w_db w)"
  "tenants (w_db (after_settlement cfg w s p r)) = tenants (w_db w)"
  "tariffs (w_db (after_settlement cfg w s p r)) = tariffs (w_db w)"
  "tariff_slots (w_db (after_settlement cfg w s p r)) = tariff_slots (w_db w)"
  "queued_charges (w_db (after_settlement cfg w s p r)) = queued_charges (w_db w)"
  "invoices (w_db (after_settlement cfg w s p r)) = invoices (w_db w)"
  by (simp_all add: after_settlement_def Let_def)

lemma find_session_SomeD:
  "find_session d i u = Some s \<Longrightarrow> s \<in> set (charging_sessions d) \<and> cs_id s = i \<and> (\<forall>v. u = Some v \<longrightarrow> cs_user_id s = v)"
  by (auto simp: find_session_def find_Some_iff in_set_conv_nth split: option.splits)

lemma find_session_row:
  "keys_ok d \<Longrightarrow> find_session d i u = Some s \<Longrightarrow> row_by cs_id i (charging_sessions d) = Some s"
  using find_session_SomeD [of d i u s] row_by_in_set [of cs_id "charging_sessions d" s]
  by (auto simp: keys_ok_def)

subsection \<open>Settlement\<close>

lemma requested_debit_nonneg:
  "session_sane cfg s \<Longrightarrow> 0 \<le> hold_of s \<Longrightarrow> 0 \<le> requested_debit cfg s"
  by (auto simp: requested_debit_def session_sane_def hold_of_def Let_def session_cost_nonneg split: option.splits)

lemma held_member_le:
  assumes "holds_ok d" "s \<in> set (charging_sessions d)" "cs_status s = ACTIVE"
  shows "hold_of s \<le> held_coins d (cs_user_id s)"
  unfolding held_coins_def using assms
  by (intro sum_where_member_le) (auto simp: holds_ok_def list_all_iff)

lemma hold_covered:
  assumes "holds_ok d" "s \<in> set (charging_sessions d)" "cs_status s = ACTIVE" "balance_of d (cs_user_id s) = Some b"
  shows "hold_of s \<le> b"
proof -
  from assms(4) obtain u where "u \<in> set (users d)" "us_id u = cs_user_id s" "us_coin_balance u = b"
    by (auto simp: balance_of_def dest!: row_by_SomeD)
  then have "held_coins d (cs_user_id s) \<le> b" using assms(1) by (auto simp: holds_ok_def list_all_iff)
  with held_member_le [OF assms(1-3)] show ?thesis by simp
qed

lemma settle_session_exact:
  assumes ok: "money_ok d" and s: "s \<in> set (charging_sessions d)" "cs_status s = ACTIVE" and sane: "session_sane cfg s"
  obtains p where "balance_of d (cs_user_id s) = Some p" "0 \<le> requested_debit cfg s" "requested_debit cfg s \<le> p"
    "p \<le> MAX_MONEY"
    "settle_session cfg now d s =
       Inr (settled_db now d s (requested_debit cfg s) (p - requested_debit cfg s),
            requested_debit cfg s, p - requested_debit cfg s)"
proof -
  have hold: "cs_hold_coins s \<noteq> None" "0 \<le> hold_of s" "balance_of d (cs_user_id s) \<noteq> None"
    using ok s by (auto simp: money_ok_def holds_ok_def list_all_iff)
  then obtain p where p: "balance_of d (cs_user_id s) = Some p" by auto
  have range: "0 \<le> p" "p \<le> MAX_MONEY" using ok p balances_ok_balance by (auto simp: money_ok_def)
  have q: "0 \<le> requested_debit cfg s" using sane hold(2) by (rule requested_debit_nonneg)
  have "requested_debit cfg s \<le> hold_of s"
    using hold(1) by (auto simp: requested_debit_def hold_of_def Let_def)
  also have "\<dots> \<le> p" using ok s p by (auto simp: money_ok_def intro: hold_covered)
  finally have le: "requested_debit cfg s \<le> p" .
  show thesis
    by (rule that [OF p q le range(2)])
       (use debit_wallet_total [OF p range q] le in
         \<open>simp add: settle_session_def settled_db_def Let_def min_absorb1\<close>)
qed

lemma held_coins_settled:
  assumes "keys_ok d" "s \<in> set (charging_sessions d)" "cs_status s = ACTIVE"
  shows "held_coins (settled_db now d s q b) v = held_coins d v - (if v = cs_user_id s then hold_of s else 0)"
proof -
  have "row_by cs_id (cs_id s) (charging_sessions d) = Some s" "distinct (map cs_id (charging_sessions d))"
    using assms by (auto simp: keys_ok_def row_by_in_set)
  from sum_where_update_key [OF this(2,1)] assms(3) show ?thesis
    by (auto simp: held_coins_def settled_db_def)
qed

lemma balance_of_settled:
  assumes "balance_of d (cs_user_id s) = Some p"
  shows "balance_of (settled_db now d s q b) v = (if v = cs_user_id s then Some b else balance_of d v)"
proof -
  have "balance_of (settled_db now d s q b) = balance_of (upd_user (cs_user_id s) (\<lambda>r. r\<lparr>us_coin_balance := b\<rparr>) d)"
    by (rule balance_of_cong) (simp add: settled_db_def)
  then show ?thesis using assms by (simp add: balance_of_store)
qed

lemma keys_ok_settled: "keys_ok d \<Longrightarrow> keys_ok (settled_db now d s q b)"
  by (simp add: keys_ok_def settled_db_def map_update_where)

lemma row_by_plug_settled:
  "row_by pl_id i (plugs (settled_db now d s q b)) =
     map_option (\<lambda>p. if pl_id p = cs_plug_id s then p\<lparr>pl_status := AVAILABLE\<rparr> else p) (row_by pl_id i (plugs d))"
  by (simp add: settled_db_def row_by_update_where)

lemma users_settled:
  "u \<in> set (users (settled_db now d s q b)) \<Longrightarrow>
     (us_id u = cs_user_id s \<and> us_coin_balance u = b) \<or> (us_id u \<noteq> cs_user_id s \<and> u \<in> set (users d))"
  by (auto simp: settled_db_def set_update_where)

lemma sessions_settled:
  "r \<in> set (charging_sessions (settled_db now d s q b)) \<Longrightarrow> cs_status r = ACTIVE \<Longrightarrow>
     r \<in> set (charging_sessions d) \<and> cs_id r \<noteq> cs_id s"
  by (auto simp: settled_db_def set_update_where)

lemma money_ok_settled:
  assumes ok: "money_ok d" and s: "s \<in> set (charging_sessions d)" "cs_status s = ACTIVE"
    and p: "balance_of d (cs_user_id s) = Some p" and q: "0 \<le> q" "q \<le> hold_of s"
  shows "money_ok (settled_db now d s q (p - q))"
proof -
  let ?d = "settled_db now d s q (p - q)"
  have k: "keys_ok d" "balances_ok d" "holds_ok d" using ok by (auto simp: money_ok_def)
  have le: "hold_of s \<le> p" using k(3) s p by (rule hold_covered)
  have rng: "0 \<le> p" "p \<le> MAX_MONEY" using k(2) p balances_ok_balance by auto
  have "held_coins d (cs_user_id s) \<le> p"
    using k(3) p by (auto simp: holds_ok_def list_all_iff balance_of_def dest!: row_by_SomeD)
  then have held: "held_coins ?d (us_id u) \<le> us_coin_balance u" if "u \<in> set (users ?d)" for u
    using users_settled [OF that] k s q(2) held_coins_settled [OF k(1) s]
    by (auto simp: holds_ok_def list_all_iff)
  have "balances_ok (upd_user (cs_user_id s) (\<lambda>r. r\<lparr>us_coin_balance := p - q\<rparr>) d)"
    using k(2) rng le q by (intro balances_ok_store) auto
  then have bal: "balances_ok ?d" by (simp add: settled_db_def balances_ok_def)
  have "holds_ok ?d"
    using k(3) sessions_settled [of _ now d s q "p - q"] held
    by (auto simp: holds_ok_def list_all_iff balance_of_settled [OF p] row_by_plug_settled)
  with k(1) bal show ?thesis by (simp add: money_ok_def keys_ok_settled)
qed

lemma ledger_total_settled:
  "ledger_total (settled_db now d s q b) v = ledger_total d v + (if cs_user_id s = v then - q else 0)"
  by (simp add: ledger_total_def settled_db_def)

lemma drift_settled:
  "balance_of d (cs_user_id s) = Some p \<Longrightarrow> drift (settled_db now d s q (p - q)) v = drift d v"
  by (simp add: drift_def balance_of_settled ledger_total_settled)

lemma session_row_settled:
  "keys_ok d \<Longrightarrow> s \<in> set (charging_sessions d) \<Longrightarrow>
     row_by cs_id (cs_id s) (charging_sessions (settled_db now d s q b)) =
       Some (s\<lparr>cs_status := COMPLETED, cs_coins_spent := q, cs_ended_at := Some now\<rparr>)"
  by (simp add: settled_db_def row_by_update_where row_by_in_set keys_ok_def)

subsection \<open>The stop path\<close>

lemma finalize_result:
  assumes ok: "money_ok (w_db w)" and s: "find_session (w_db w) i u = Some s" "cs_status s = ACTIVE"
    and sane: "session_sane cfg s"
  obtains p plug where "balance_of (w_db w) (cs_user_id s) = Some p"
    "row_by pl_id (cs_plug_id s) (plugs (w_db w)) = Some plug"
    "0 \<le> requested_debit cfg s" "requested_debit cfg s \<le> hold_of s" "requested_debit cfg s \<le> p"
    "finalize_charging_session cfg now w i u reason =
       (after_settlement cfg
          ((emit [Plug_Off (pl_gateway_id plug) (pl_id plug)] w)
             \<lparr>w_db := settled_db now (w_db w) s (requested_debit cfg s) (p - requested_debit cfg s)\<rparr>) s plug reason,
        Inr (Some (make_receipt cfg now s (requested_debit cfg s) (p - requested_debit cfg s) reason)))"
proof -
  have mem: "s \<in> set (charging_sessions (w_db w))" using find_session_SomeD [OF s(1)] by simp
  have plug: "\<exists>plug. row_by pl_id (cs_plug_id s) (plugs (w_db w)) = Some plug" and h: "cs_hold_coins s \<noteq> None"
    using ok mem s(2) by (auto simp: money_ok_def holds_ok_def list_all_iff)
  from plug obtain plug where plug: "row_by pl_id (cs_plug_id s) (plugs (w_db w)) = Some plug" by blast
  have le: "requested_debit cfg s \<le> hold_of s"
    using h by (auto simp: requested_debit_def hold_of_def Let_def)
  obtain p where p: "balance_of (w_db w) (cs_user_id s) = Some p" "0 \<le> requested_debit cfg s" "requested_debit cfg s \<le> p"
    "settle_session cfg now (w_db w) s =
       Inr (settled_db now (w_db w) s (requested_debit cfg s) (p - requested_debit cfg s),
            requested_debit cfg s, p - requested_debit cfg s)"
    using settle_session_exact [OF ok mem s(2) sane] by metis
  show thesis
    by (rule that [OF p(1) plug p(2) le p(3)])
       (use s plug p(4) in \<open>simp add: finalize_charging_session_def Let_def\<close>)
qed

lemma finalize_receipt_cases:
  assumes "finalize_charging_session cfg now w i u reason = (w', res)"
  obtains (no_session) "w' = w" "res = Inr None"
  | (failed) err where "w_db w' = w_db w" "res = Inl err"
  | (settled) s plug d' q b where "find_session (w_db w) i u = Some s" "cs_status s = ACTIVE"
      "settle_session cfg now (w_db w) s = Inr (d', q, b)"
      "w' = after_settlement cfg ((emit [Plug_Off (pl_gateway_id plug) (pl_id plug)] w)\<lparr>w_db := d'\<rparr>) s plug reason"
      "row_by pl_id (cs_plug_id s) (plugs (w_db w)) = Some plug"
      "res = Inr (Some (make_receipt cfg now s q b reason))"
proof (cases "find_session (w_db w) i u")
  case None
  then show ?thesis using assms no_session by (simp add: finalize_charging_session_def)
next
  case s: (Some s)
  show ?thesis
  proof (cases "cs_status s = ACTIVE")
    case False
    then show ?thesis using assms s no_session by (simp add: finalize_charging_session_def)
  next
    case active: True
    show ?thesis
    proof (cases "row_by pl_id (cs_plug_id s) (plugs (w_db w))")
      case None
      then show ?thesis using assms s active failed by (auto simp: finalize_charging_session_def)
    next
      case plug: (Some plug)
      show ?thesis
      proof (cases "settle_session cfg now (w_db w) s")
        case (Inl err)
        then show ?thesis using assms s active plug failed by (auto simp: finalize_charging_session_def Let_def)
      next
        case (Inr x)
        obtain d' q b where x: "x = (d', q, b)" by (metis prod_cases3)
        show ?thesis
          by (rule settled [OF s active Inr [unfolded x] _ plug])
             (use assms s active plug Inr x in \<open>simp_all add: finalize_charging_session_def Let_def\<close>)
      qed
    qed
  qed
qed

lemma settle_session_rows:
  assumes "settle_session cfg now d s = Inr (d', q, b)"
  shows "charging_sessions d' = update_where (\<lambda>r. cs_id r = cs_id s)
           (\<lambda>r. r\<lparr>cs_status := COMPLETED, cs_coins_spent := q, cs_ended_at := Some now\<rparr>) (charging_sessions d)"
    "plugs d' = update_where (\<lambda>r. pl_id r = cs_plug_id s) (\<lambda>p. p\<lparr>pl_status := AVAILABLE\<rparr>) (plugs d)"
    "charger_groups d' = charger_groups d"
  using assms
  by (auto simp: settle_session_def Let_def upd_user_def upd_session_def upd_plug_def add_ledger_def
      split: sum.splits prod.splits elim!: debit_walletD)

subsection \<open>Properties\<close>

text \<open>
  C2. Stopping a running session collects exactly the smaller of its bill and its hold: in a state
  where holds are covered, the stop succeeds, the wallet goes down by that amount, no other wallet
  changes, one ledger row of the same amount is appended, the session is completed and the plug
  freed, balance minus ledger is unchanged for every user, and the invariant holds again.
\<close>

theorem finalize_settles_exactly:
  assumes "money_ok (w_db w)" "find_session (w_db w) i u = Some s" "cs_status s = ACTIVE" "session_sane cfg s"
  shows "\<exists>w' r p. finalize_charging_session cfg now w i u reason = (w', Inr (Some r))
    \<and> rc_coins_spent r = min (session_cost cfg s (cs_energy_kwh s)) (hold_of s)
    \<and> balance_of (w_db w) (cs_user_id s) = Some p
    \<and> balance_of (w_db w') (cs_user_id s) = Some (p - rc_coins_spent r) \<and> rc_coins_spent r \<le> p
    \<and> (\<forall>v. v \<noteq> cs_user_id s \<longrightarrow> balance_of (w_db w') v = balance_of (w_db w) v)
    \<and> map (\<lambda>t. (lt_user_id t, lt_amount t, lt_balance_after t)) (ledger (w_db w')) =
        map (\<lambda>t. (lt_user_id t, lt_amount t, lt_balance_after t)) (ledger (w_db w))
          @ [(cs_user_id s, - rc_coins_spent r, p - rc_coins_spent r)]
    \<and> row_by cs_id i (charging_sessions (w_db w')) =
        Some (s\<lparr>cs_status := COMPLETED, cs_coins_spent := rc_coins_spent r, cs_ended_at := Some now\<rparr>)
    \<and> map_option pl_status (row_by pl_id (cs_plug_id s) (plugs (w_db w'))) = Some AVAILABLE
    \<and> drift (w_db w') = drift (w_db w) \<and> money_ok (w_db w')"
proof -
  let ?q = "requested_debit cfg s"
  have mem: "s \<in> set (charging_sessions (w_db w))" "cs_id s = i" using find_session_SomeD [OF assms(2)] by auto
  have keys: "keys_ok (w_db w)" using assms(1) by (simp add: money_ok_def)
  obtain p plug where r: "balance_of (w_db w) (cs_user_id s) = Some p"
    "row_by pl_id (cs_plug_id s) (plugs (w_db w)) = Some plug" "0 \<le> ?q" "?q \<le> hold_of s" "?q \<le> p"
    "finalize_charging_session cfg now w i u reason =
       (after_settlement cfg ((emit [Plug_Off (pl_gateway_id plug) (pl_id plug)] w)
             \<lparr>w_db := settled_db now (w_db w) s ?q (p - ?q)\<rparr>) s plug reason,
        Inr (Some (make_receipt cfg now s ?q (p - ?q) reason)))"
    using finalize_result [OF assms] by metis
  let ?w = "after_settlement cfg ((emit [Plug_Off (pl_gateway_id plug) (pl_id plug)] w)
             \<lparr>w_db := settled_db now (w_db w) s ?q (p - ?q)\<rparr>) s plug reason"
  let ?d = "settled_db now (w_db w) s ?q (p - ?q)"
  have same: "users (w_db ?w) = users ?d" "ledger (w_db ?w) = ledger ?d" "plugs (w_db ?w) = plugs ?d"
    "charging_sessions (w_db ?w) = charging_sessions ?d" by simp_all
  have bal: "balance_of (w_db ?w) = balance_of ?d" using same(1) by (rule balance_of_cong)
  have "min (session_cost cfg s (cs_energy_kwh s)) (hold_of s) = ?q"
    using assms(1,3) mem(1) by (auto simp: requested_debit_def hold_of_def Let_def money_ok_def holds_ok_def list_all_iff)
  moreover have "map (\<lambda>t. (lt_user_id t, lt_amount t, lt_balance_after t)) (ledger ?d) =
      map (\<lambda>t. (lt_user_id t, lt_amount t, lt_balance_after t)) (ledger (w_db w)) @ [(cs_user_id s, - ?q, p - ?q)]"
    by (simp add: settled_db_def)
  moreover have "drift (w_db ?w) = drift (w_db w)"
    using drift_cong [OF same(1,2)] drift_settled [OF r(1)] by (simp add: fun_eq_iff)
  moreover have "money_ok (w_db ?w)"
  proof -
    have "held_coins (w_db ?w) = held_coins ?d" using same(4) by (rule held_coins_cong)
    then show ?thesis using money_ok_settled [OF assms(1) mem(1) assms(3) r(1,3,4), of now]
      by (simp add: money_ok_def keys_ok_def balances_ok_def holds_ok_def bal)
  qed
  moreover have "map_option pl_status (row_by pl_id (cs_plug_id s) (plugs ?d)) = Some AVAILABLE"
    using r(2) row_by_SomeD [OF r(2)] by (simp add: row_by_plug_settled)
  ultimately show ?thesis
    using r(1,3,5) session_row_settled [OF keys mem(1)] mem(2)
    by (intro exI [of _ ?w] exI [of _ "make_receipt cfg now s ?q (p - ?q) reason"] exI [of _ p])
       (simp add: r(6) bal balance_of_settled [OF r(1)] same make_receipt_def)
qed

theorem finalize_settles_exactly_witness:
  "\<exists>w' r p. finalize_charging_session default_config 60000000 sample_world 1 None None = (w', Inr (Some r))
    \<and> rc_coins_spent r = 1000 \<and> p - rc_coins_spent r = 9000
    \<and> balance_of (w_db w') 1 = Some (p - rc_coins_spent r)"
proof -
  have *: "money_ok (w_db sample_world)" "find_session (w_db sample_world) 1 None = Some sample_session"
    "cs_status sample_session = ACTIVE" "session_sane default_config sample_session"
    "session_cost default_config sample_session (cs_energy_kwh sample_session) = 1000"
    "hold_of sample_session = 5000" "cs_user_id sample_session = 1"
    "balance_of (w_db sample_world) 1 = Some 10000" by code_simp+
  from finalize_settles_exactly [OF *(1-4), of 60000000 None] *(5-8) show ?thesis by fastforce
qed

text \<open>
  C14. A session settles exactly once: after a stop that returned a receipt, every further stop of
  that session, by whichever caller and for whatever reason, returns nothing and changes nothing;
  and a stop that fails leaves the database as it was.
\<close>

theorem finalize_exactly_once:
  assumes "finalize_charging_session cfg now w i u reason = (w', res)"
  shows "(\<forall>r. res = Inr (Some r) \<longrightarrow>
            finalize_charging_session cfg' now' w' i u' reason' = (w', Inr None))
       \<and> (\<forall>err. res = Inl err \<longrightarrow> w_db w' = w_db w) \<and> (res = Inr None \<longrightarrow> w' = w)"
  using assms
proof (cases rule: finalize_receipt_cases)
  case (settled s plug d' q b)
  have i: "cs_id s = i" using find_session_SomeD [OF settled(1)] by simp
  have sess: "charging_sessions (w_db w') = update_where (\<lambda>r. cs_id r = i)
       (\<lambda>r. r\<lparr>cs_status := COMPLETED, cs_coins_spent := q, cs_ended_at := Some now\<rparr>) (charging_sessions (w_db w))"
    using settle_session_rows(1) [OF settled(3)] i by (simp add: settled(4))
  have "cs_status r \<noteq> ACTIVE" if r: "find_session (w_db w') i u' = Some r" for r
  proof -
    let ?f = "\<lambda>r. r\<lparr>cs_status := COMPLETED, cs_coins_spent := q, cs_ended_at := Some now\<rparr>"
    have "r \<in> (\<lambda>r. if cs_id r = i then ?f r else r) ` set (charging_sessions (w_db w))" "cs_id r = i"
      using find_session_SomeD [OF r] unfolding sess set_update_where by blast+
    then obtain r0 where "r = (if cs_id r0 = i then ?f r0 else r0)" "cs_id r = i" by blast
    then show ?thesis by (cases "cs_id r0 = i") simp_all
  qed
  then have "finalize_charging_session cfg' now' w' i u' reason' = (w', Inr None)"
    by (cases "find_session (w_db w') i u'") (simp_all add: finalize_charging_session_def)
  then show ?thesis by (simp add: settled(6))
qed simp_all

theorem finalize_exactly_once_witness:
  "\<exists>w' r. finalize_charging_session default_config 60000000 sample_world 1 None None = (w', Inr (Some r))
     \<and> finalize_charging_session default_config 90000000 w' 1 (Some 1) (Some ''user'') = (w', Inr None)"
proof -
  define w' res where "w' = fst (finalize_charging_session default_config 60000000 sample_world 1 None None)"
    and "res = snd (finalize_charging_session default_config 60000000 sample_world 1 None None)"
  have r: "finalize_charging_session default_config 60000000 sample_world 1 None None = (w', res)"
    by (simp add: w'_def res_def)
  have "case res of Inl _ \<Rightarrow> False | Inr x \<Rightarrow> x \<noteq> None" unfolding res_def by code_simp
  then obtain rc where "res = Inr (Some rc)" by (auto split: sum.splits)
  with finalize_exactly_once [OF r, of default_config 90000000 "Some 1" "Some ''user''"] r show ?thesis by blast
qed

end
