(* ===== verification/Pricing.thy ===== *)
theory Pricing
  imports Billing "HOL-Library.Product_Lexorder" "HOL-Library.Word"
begin

unbundle bit_operations_syntax

text \<open>
  Tariff resolution (\<open>backend/services/pricing.py\<close>).

  A local datetime is its wall-clock reading in microseconds; Python's arithmetic and
  comparison of datetimes of one zone work on that reading.  The time-zone database is a
  parameter: \<open>zones name\<close> is the zone \<open>ZoneInfo(name)\<close> or \<open>None\<close> where the constructor
  raises, and a zone converts between UTC instants and wall-clock readings.  The locale
  \<open>rate_schedule\<close> is what billing relies on: the rate is constant up to the announced
  boundary, and the boundary lies in the future.
\<close>

subsection \<open>Definitions\<close>

record tz =
  tz_wall :: "timestamp \<Rightarrow> int"
  tz_utc :: "int \<Rightarrow> timestamp"

type_synonym zones = "string \<Rightarrow> tz option"

definition DEFAULT_TZ :: string where
  "DEFAULT_TZ = ''Asia/Kolkata''"

definition utc_zone :: tz where
  "utc_zone = \<lparr>tz_wall = (\<lambda>t. t), tz_utc = (\<lambda>w. w)\<rparr>"

definition DAY_US :: int where
  "DAY_US = 86400000000"

definition MINUTE_US :: int where
  "MINUTE_US = 60000000"

definition default_rate :: "config \<Rightarrow> money" where
  "default_rate cfg = to_money_f (COINS_PER_KWH cfg)"

definition zone_of :: "zones \<Rightarrow> string \<Rightarrow> tz" where
  "zone_of zones tz_name =
     (case (if tz_name = '''' then None else zones tz_name) of
        Some z \<Rightarrow> z
      | None \<Rightarrow> (case zones DEFAULT_TZ of Some z \<Rightarrow> z | None \<Rightarrow> utc_zone))"

definition to_local :: "timestamp \<Rightarrow> tz \<Rightarrow> int" where
  "to_local dt z = tz_wall z dt"

definition day_start :: "int \<Rightarrow> int" where
  "day_start w = w - w mod DAY_US"

definition weekday :: "int \<Rightarrow> nat" where
  "weekday w = nat ((w div DAY_US + 3) mod 7)"

definition minute_of_day :: "int \<Rightarrow> int" where
  "minute_of_day w = (w mod DAY_US) div MINUTE_US"

definition active_on :: "tariff_slot \<Rightarrow> nat \<Rightarrow> bool" where
  "active_on s wd = odd (ts_days_mask s div 2 ^ wd)"

definition covers :: "int \<Rightarrow> tariff_slot \<Rightarrow> bool" where
  "covers minute s \<longleftrightarrow> ts_start_min s \<le> minute \<and> minute < ts_end_min s"

definition slot_key :: "tariff_slot \<Rightarrow> int \<times> int" where
  "slot_key s = (ts_start_min s, ts_end_min s)"

fun roll_forward :: "tariff_slot list \<Rightarrow> int \<Rightarrow> int list \<Rightarrow> int option" where
  "roll_forward slots ds [] = None"
| "roll_forward slots ds (delta # deltas) =
     (let d = ds + delta * DAY_US;
          day_slots = filter (\<lambda>s. active_on s (weekday d)) slots
      in case min_row ts_start_min day_slots of
           Some s \<Rightarrow> Some (d + ts_start_min s * MINUTE_US)
         | None \<Rightarrow> roll_forward slots ds deltas)"

definition slot_rate_and_bound :: "tariff_slot list \<Rightarrow> int \<Rightarrow> money option \<times> int option" where
  "slot_rate_and_bound slots at_local =
     (let minute = minute_of_day at_local;
          ds = day_start at_local;
          todays = filter (\<lambda>s. active_on s (weekday at_local)) slots
      in case min_row slot_key (filter (covers minute) todays) of
           Some slot \<Rightarrow> (Some (to_money_m (ts_price_per_kwh slot)), Some (ds + ts_end_min slot * MINUTE_US))
         | None \<Rightarrow>
             (case min_row ts_start_min (filter (\<lambda>s. minute < ts_start_min s) todays) of
                Some nxt \<Rightarrow> (None, Some (ds + ts_start_min nxt * MINUTE_US))
              | None \<Rightarrow> (None, roll_forward slots ds [1, 2, 3, 4, 5, 6, 7])))"

definition find_tariff :: "db \<Rightarrow> int option \<Rightarrow> tariff option" where
  "find_tariff d tid = (case tid of None \<Rightarrow> None | Some i \<Rightarrow> row_by tf_id i (tariffs d))"

definition plug_tenant :: "db \<Rightarrow> plug \<Rightarrow> tenant option" where
  "plug_tenant d plug =
     (case row_by gw_id (pl_gateway_id plug) (gateways d) of
        None \<Rightarrow> None
      | Some gateway \<Rightarrow>
          (case gw_tenant_id gateway of None \<Rightarrow> None | Some i \<Rightarrow> row_by tn_id i (tenants d)))"

definition tenant_tz_name :: "tenant option \<Rightarrow> string" where
  "tenant_tz_name tenant =
     (case tenant of
        None \<Rightarrow> DEFAULT_TZ
      | Some t \<Rightarrow> (if tn_timezone t = '''' then DEFAULT_TZ else tn_timezone t))"

definition group_tariff :: "db \<Rightarrow> plug \<Rightarrow> tariff option" where
  "group_tariff d plug =
     (case pl_group_id plug of
        None \<Rightarrow> None
      | Some g \<Rightarrow>
          (case row_by cg_id g (charger_groups d) of
             None \<Rightarrow> None
           | Some grp \<Rightarrow> find_tariff d (cg_tariff_id grp)))"

definition resolve_tariff_and_tz :: "db \<Rightarrow> plug \<Rightarrow> tariff option \<times> string" where
  "resolve_tariff_and_tz d plug =
     (let tenant = plug_tenant d plug;
          tariff = find_tariff d (pl_tariff_id plug);
          tariff = (if tariff = None then group_tariff d plug else tariff);
          tariff = (if tariff = None
                    then (case tenant of None \<Rightarrow> None | Some t \<Rightarrow> find_tariff d (tn_default_tariff_id t))
                    else tariff)
      in (tariff, tenant_tz_name tenant))"

definition slots_of :: "db \<Rightarrow> tariff \<Rightarrow> tariff_slot list" where
  "slots_of d t = filter (\<lambda>s. ts_tariff_id s = tf_id t) (tariff_slots d)"

definition resolve_rate_window ::
  "config \<Rightarrow> zones \<Rightarrow> db \<Rightarrow> plug \<Rightarrow> timestamp \<Rightarrow> money \<times> timestamp option" where
  "resolve_rate_window cfg zones d plug t =
     (case resolve_tariff_and_tz d plug of
        (None, _) \<Rightarrow> (default_rate cfg, None)
      | (Some tariff, tz_name) \<Rightarrow>
          (let z = zone_of zones tz_name;
               (slot_rate, boundary) = slot_rate_and_bound (slots_of d tariff) (to_local t z);
               rate = (case slot_rate of Some r \<Rightarrow> r | None \<Rightarrow> to_money_m (tf_price_per_kwh tariff))
           in (rate, map_option (tz_utc z) boundary)))"

definition resolve_rate_for_plug :: "config \<Rightarrow> zones \<Rightarrow> db \<Rightarrow> plug \<Rightarrow> timestamp \<Rightarrow> money" where
  "resolve_rate_for_plug cfg zones d plug now = fst (resolve_rate_window cfg zones d plug now)"

definition day_rates :: "tariff_slot list \<Rightarrow> int \<Rightarrow> int \<Rightarrow> int \<Rightarrow> money list" where
  "day_rates slots start_local end_local day =
     map (\<lambda>s. to_money_m (ts_price_per_kwh s))
       (filter (\<lambda>s. active_on s (weekday day)
                  \<and> day + ts_start_min s * MINUTE_US < end_local
                  \<and> start_local < day + ts_end_min s * MINUTE_US) slots)"

function walk_days :: "tariff_slot list \<Rightarrow> int \<Rightarrow> int \<Rightarrow> int \<Rightarrow> int \<Rightarrow> money list \<Rightarrow> money list" where
  "walk_days slots start_local end_local day last_day rates =
     (if day \<le> last_day
      then walk_days slots start_local end_local (day + DAY_US) last_day
             (rates @ day_rates slots start_local end_local day)
      else rates)"
  by pat_completeness auto

termination walk_days
  by (relation "measure (\<lambda>(_, _, _, day, last_day, _). nat (last_day - day + 1))")
     (auto simp: DAY_US_def)

declare walk_days.simps [simp del]

definition max_rate_over_window ::
  "config \<Rightarrow> zones \<Rightarrow> db \<Rightarrow> plug \<Rightarrow> timestamp \<Rightarrow> int \<Rightarrow> money" where
  "max_rate_over_window cfg zones d plug start_at max_duration_seconds =
     (case resolve_tariff_and_tz d plug of
        (None, _) \<Rightarrow> default_rate cfg
      | (Some tariff, tz_name) \<Rightarrow>
          (let base = to_money_m (tf_price_per_kwh tariff); slots = slots_of d tariff
           in if slots = [] then base
              else if 24 * 3600 \<le> max_duration_seconds
              then foldl max base (map (\<lambda>s. to_money_m (ts_price_per_kwh s)) slots)
              else let start_local = to_local start_at (zone_of zones tz_name);
                       end_local = start_local + max_duration_seconds * 1000000
                   in foldl max base (walk_days slots start_local end_local
                        (day_start start_local) (day_start end_local) [])))"

definition slot_overlaps :: "int \<Rightarrow> int \<Rightarrow> int \<Rightarrow> int \<Rightarrow> int \<Rightarrow> int \<Rightarrow> bool" where
  "slot_overlaps start_a end_a days_a start_b end_b days_b =
     (if days_a AND days_b = 0 then False else start_a < end_b \<and> start_b < end_a)"

definition price_display_from_slots ::
  "tariff_slot list \<Rightarrow> int \<Rightarrow> money \<Rightarrow> money \<times> int option \<times> money option" where
  "price_display_from_slots slots at_local flat =
     (let (slot_rate, boundary) = slot_rate_and_bound slots at_local;
          rate = (case slot_rate of Some r \<Rightarrow> r | None \<Rightarrow> flat)
      in case boundary of
           None \<Rightarrow> (rate, None, None)
         | Some b \<Rightarrow>
             if b div DAY_US \<noteq> at_local div DAY_US then (rate, None, None)
             else let next_rate = (case fst (slot_rate_and_bound slots b) of Some r \<Rightarrow> r | None \<Rightarrow> flat)
                  in if next_rate = rate then (rate, None, None) else (rate, Some b, Some next_rate))"

definition resolve_price_display ::
  "config \<Rightarrow> zones \<Rightarrow> db \<Rightarrow> plug \<Rightarrow> timestamp \<Rightarrow> money \<times> int option \<times> money option" where
  "resolve_price_display cfg zones d plug t =
     (case resolve_tariff_and_tz d plug of
        (None, _) \<Rightarrow> (default_rate cfg, None, None)
      | (Some tariff, tz_name) \<Rightarrow>
          price_display_from_slots (slots_of d tariff) (to_local t (zone_of zones tz_name))
            (to_money_m (tf_price_per_kwh tariff)))"

fun pick_tariff :: "int option list \<Rightarrow> (int \<rightharpoonup> tariff) \<Rightarrow> tariff option" where
  "pick_tariff [] tariffs_by_id = None"
| "pick_tariff (tid # tids) tariffs_by_id =
     (case tid of
        None \<Rightarrow> pick_tariff tids tariffs_by_id
      | Some i \<Rightarrow> (case tariffs_by_id i of Some t \<Rightarrow> Some t | None \<Rightarrow> pick_tariff tids tariffs_by_id))"

type_synonym price_item = "plug \<times> int option \<times> tenant option"

definition price_chain :: "price_item \<Rightarrow> int option list" where
  "price_chain it =
     (case it of (plug, group_tariff_id, tenant) \<Rightarrow>
        [pl_tariff_id plug, group_tariff_id,
         (case tenant of None \<Rightarrow> None | Some t \<Rightarrow> tn_default_tariff_id t)])"

definition tariffs_by_id :: "db \<Rightarrow> int option list \<Rightarrow> (int \<rightharpoonup> tariff)" where
  "tariffs_by_id d candidates =
     fold (\<lambda>t m. m(tf_id t \<mapsto> t)) (filter (\<lambda>t. Some (tf_id t) \<in> set candidates) (tariffs d)) Map.empty"

definition slots_by_tariff :: "db \<Rightarrow> int list \<Rightarrow> (int \<rightharpoonup> tariff_slot list)" where
  "slots_by_tariff d winners =
     fold (\<lambda>s m. m(ts_tariff_id s \<mapsto> (case m (ts_tariff_id s) of None \<Rightarrow> [] | Some l \<Rightarrow> l) @ [s]))
       (filter (\<lambda>s. ts_tariff_id s \<in> set winners) (tariff_slots d)) Map.empty"

definition resolve_price_display_batch ::
  "config \<Rightarrow> zones \<Rightarrow> db \<Rightarrow> price_item list \<Rightarrow> timestamp
     \<Rightarrow> (int \<rightharpoonup> money \<times> int option \<times> money option)" where
  "resolve_price_display_batch cfg zones d items t =
     (let chains = fold (\<lambda>it m. m(pl_id (fst it) \<mapsto> price_chain it)) items Map.empty;
          chain_values = map (\<lambda>it. the (chains (pl_id (fst it)))) items;
          candidate_ids = filter (\<lambda>tid. tid \<noteq> None) (concat chain_values);
          by_id = tariffs_by_id d candidate_ids;
          winner_ids = map tf_id (List.map_filter (\<lambda>chain. pick_tariff chain by_id) chain_values);
          slots = slots_by_tariff d winner_ids
      in fold (\<lambda>(plug, g, tenant) out.
           (case pick_tariff (the (chains (pl_id plug))) by_id of
              None \<Rightarrow> out(pl_id plug \<mapsto> (default_rate cfg, None, None))
            | Some tariff \<Rightarrow>
                out(pl_id plug \<mapsto> price_display_from_slots
                     (case slots (tf_id tariff) of None \<Rightarrow> [] | Some l \<Rightarrow> l)
                     (to_local t (zone_of zones (tenant_tz_name tenant)))
                     (to_money_m (tf_price_per_kwh tariff))))) items Map.empty)"

definition reprice_session_if_due ::
  "config \<Rightarrow> zones \<Rightarrow> db \<Rightarrow> charging_session \<Rightarrow> plug \<Rightarrow> timestamp
     \<Rightarrow> charging_session \<times> (money \<times> timestamp option) option" where
  "reprice_session_if_due cfg zones d session plug t =
     (case cs_rate_valid_until session of
        None \<Rightarrow> (session, None)
      | Some valid_until \<Rightarrow>
          if t < valid_until then (session, None)
          else let (new_rate, boundary) = resolve_rate_window cfg zones d plug t;
                   at_energy = cs_energy_kwh session
               in if Some new_rate \<noteq> cs_rate_coins_per_kwh session
                  then (close_out_segment cfg session new_rate at_energy boundary, Some (new_rate, boundary))
                  else (session\<lparr>cs_rate_valid_until := boundary\<rparr>, None))"

definition mark_tenant_sessions_for_reprice :: "config \<Rightarrow> db \<Rightarrow> int \<Rightarrow> timestamp \<Rightarrow> db" where
  "mark_tenant_sessions_for_reprice cfg d tenant_id now =
     (if \<not> AUTO_REPRICE_ACTIVE_SESSIONS cfg then d
      else d\<lparr>charging_sessions :=
        update_where (\<lambda>s. cs_tenant_id s = tenant_id \<and> cs_status s = ACTIVE)
          (\<lambda>s. s\<lparr>cs_rate_valid_until := Some now\<rparr>) (charging_sessions d)\<rparr>)"

text \<open>
  What the operator's slot validation guarantees of a stored slot, the rate of a tariff at a
  wall-clock reading, a zone without offset changes, and Indian Standard Time.
\<close>

definition slots_ok :: "tariff_slot list \<Rightarrow> bool" where
  "slots_ok slots \<longleftrightarrow> list_all (\<lambda>s. 0 \<le> ts_start_min s \<and> ts_start_min s < ts_end_min s \<and> ts_end_min s \<le> 1440) slots"

definition rate_at :: "tariff_slot list \<Rightarrow> money \<Rightarrow> int \<Rightarrow> money" where
  "rate_at slots flat w = (case fst (slot_rate_and_bound slots w) of Some r \<Rightarrow> r | None \<Rightarrow> flat)"

definition fixed_offset :: "tz \<Rightarrow> int \<Rightarrow> bool" where
  "fixed_offset z off \<longleftrightarrow> tz_wall z = (\<lambda>t. t + off) \<and> tz_utc z = (\<lambda>w. w - off)"

definition ist :: tz where
  "ist = \<lparr>tz_wall = (\<lambda>t. t + 19800000000), tz_utc = (\<lambda>w. w - 19800000000)\<rparr>"

text \<open>The row of a plug list carries its group's tariff id and its owning tenant.\<close>

definition item_matches :: "db \<Rightarrow> price_item \<Rightarrow> bool" where
  "item_matches d it =
     (case it of (plug, g, tenant) \<Rightarrow>
        tenant = plug_tenant d plug
        \<and> g = (case pl_group_id plug of None \<Rightarrow> None
               | Some i \<Rightarrow> (case row_by cg_id i (charger_groups d) of None \<Rightarrow> None | Some grp \<Rightarrow> cg_tariff_id grp)))"

text \<open>
  A day tariff with a peak window on every day and a cheap weekend night, a one-plug site in
  Indian Standard Time that uses it, and the zone table that knows that zone.
\<close>

definition sample_slots :: "tariff_slot list" where
  "sample_slots =
     [\<lparr>ts_id = 1, ts_tariff_id = 7, ts_start_min = 1080, ts_end_min = 1320, ts_price_per_kwh = 900, ts_days_mask = 127\<rparr>,
      \<lparr>ts_id = 2, ts_tariff_id = 7, ts_start_min = 0, ts_end_min = 360, ts_price_per_kwh = 300, ts_days_mask = 96\<rparr>]"

definition sample_plug :: plug where
  "sample_plug = \<lparr>pl_id = 1, pl_gateway_id = ''gw'', pl_status = AVAILABLE, pl_current_power_w = 0,
     pl_last_seen_at = 0, pl_last_telemetry_at = None, pl_powered_since = None, pl_group_id = None,
     pl_tariff_id = Some 7, pl_max_current_a = None, pl_queued_charging_enabled = None,
     pl_auto_start_delay_min = None, pl_last_today_energy_kwh = None, pl_last_month_energy_kwh = None, pl_unique_id = None\<rparr>"

definition sample_tenant :: tenant where
  "sample_tenant = \<lparr>tn_id = 1, tn_default_tariff_id = None, tn_gstin = None, tn_legal_name = None,
     tn_invoice_prefix = None, tn_next_invoice_seq = 1, tn_timezone = ''Asia/Kolkata'',
     tn_queued_charging_enabled = False, tn_auto_start_delay_min = 2, tn_queue_ttl_min = 720\<rparr>"

definition sample_site :: db where
  "sample_site = empty_db\<lparr>tenants := [sample_tenant],
     gateways := [\<lparr>gw_id = ''gw'', gw_tenant_id = Some 1, gw_status = ONLINE, gw_last_seen_at = 0, gw_firmware_version = None,
       gw_claim_code = None, gw_claimed_at = None\<rparr>],
     plugs := [sample_plug],
     tariffs := [\<lparr>tf_id = 7, tf_tenant_id = 1, tf_price_per_kwh = 500\<rparr>],
     tariff_slots := sample_slots\<rparr>"

definition ist_zones :: zones where
  "ist_zones name = (if name = ''Asia/Kolkata'' then Some ist else None)"

subsection \<open>Calendar arithmetic\<close>

lemma min_row_le_filter:
  "filter (\<lambda>x. key x \<le> k) rows \<noteq> [] \<Longrightarrow> min_row key (filter (\<lambda>x. key x \<le> k) rows) = min_row key rows"
proof (induction rows)
  case (Cons a rows)
  show ?case
  proof (cases "filter (\<lambda>x. key x \<le> k) rows = []")
    case False
    with Cons.IH have IH: "min_row key (filter (\<lambda>x. key x \<le> k) rows) = min_row key rows" by blast
    with False obtain r where r: "min_row key rows = Some r" "r \<in> set (filter (\<lambda>x. key x \<le> k) rows)"
      by (metis min_row_None_iff min_row_SomeD option.exhaust)
    show ?thesis using r IH by (auto simp: not_le)
  next
    case True
    with Cons.prems have a: "key a \<le> k" by (auto split: if_splits)
    have "\<And>s. min_row key rows = Some s \<Longrightarrow> k < key s"
      using True by (fastforce simp: filter_empty_conv dest: min_row_SomeD)
    with a True show ?thesis by (auto split: option.splits)
  qed
qed simp

lemma min_row_filter_agree:
  assumes "min_row key (filter P xs) = Some r"
    and "\<And>x. x \<in> set xs \<Longrightarrow> key x \<le> key r \<Longrightarrow> P x = Q x"
  shows "min_row key (filter Q xs) = Some r"
proof -
  have r: "r \<in> set xs" "P r" using min_row_SomeD [OF assms(1)] by auto
  have eq: "filter (\<lambda>x. key x \<le> key r) (filter P xs) = filter (\<lambda>x. key x \<le> key r) (filter Q xs)"
    using assms(2) by (auto intro: filter_cong)
  have ne: "filter (\<lambda>x. key x \<le> key r) (filter P xs) \<noteq> []"
    using r by (auto simp: filter_empty_conv)
  have "min_row key (filter Q xs) = min_row key (filter (\<lambda>x. key x \<le> key r) (filter Q xs))"
    using ne eq by (intro min_row_le_filter [symmetric]) metis
  also have "\<dots> = min_row key (filter P xs)"
    using min_row_le_filter [OF ne] eq by metis
  finally show ?thesis using assms(1) by simp
qed

lemma unit_pos [simp]: "0 < DAY_US" "0 < MINUTE_US" "DAY_US \<noteq> 0" "MINUTE_US \<noteq> 0"
    "0 \<le> DAY_US" "0 \<le> MINUTE_US"
  by (simp_all add: DAY_US_def MINUTE_US_def)

lemma int_div_less_iff: "0 < q \<Longrightarrow> a div q < b \<longleftrightarrow> a < b * (q :: int)"
proof -
  assume q: "0 < q"
  have a: "a = (a div q) * q + a mod q" by simp
  have m: "0 \<le> a mod q" "a mod q < q" using q by simp_all
  show ?thesis
  proof
    assume "a div q < b"
    then have "(a div q + 1) * q \<le> b * q" using q by (intro mult_right_mono) auto
    with a m show "a < b * q" by (simp only: distrib_right)
  next
    assume "a < b * q"
    show "a div q < b"
    proof (rule ccontr)
      assume "\<not> a div q < b"
      then have "b * q \<le> (a div q) * q" using q by (intro mult_right_mono) auto
      with a m \<open>a < b * q\<close> show False by linarith
    qed
  qed
qed

lemma day_start_div: "day_start w = w div DAY_US * DAY_US"
  by (simp add: day_start_def minus_mod_eq_div_mult)

lemma wall_split: "day_start w + w mod DAY_US = w"
  by (simp add: day_start_def)

lemma bound_less: "w < day_start w + m * MINUTE_US \<longleftrightarrow> minute_of_day w < m"
proof -
  have "w < day_start w + m * MINUTE_US \<longleftrightarrow> w mod DAY_US < m * MINUTE_US"
    using wall_split [of w] by linarith
  also have "\<dots> \<longleftrightarrow> minute_of_day w < m"
    by (simp add: minute_of_day_def int_div_less_iff)
  finally show ?thesis .
qed

lemma minute_of_day_range: "0 \<le> minute_of_day w" "minute_of_day w < 1440"
proof -
  have "DAY_US = 1440 * MINUTE_US" by (simp add: DAY_US_def MINUTE_US_def)
  moreover have "w mod DAY_US < DAY_US" "0 \<le> w mod DAY_US" by simp_all
  ultimately show "0 \<le> minute_of_day w" "minute_of_day w < 1440"
    by (simp_all add: minute_of_day_def int_div_less_iff pos_imp_zdiv_nonneg_iff)
qed

lemma same_day_minute_mono:
  assumes "day_start w = day_start w'" "w \<le> w'"
  shows "minute_of_day w \<le> minute_of_day w'"
  unfolding minute_of_day_def
  by (rule zdiv_mono1) (use assms wall_split [of w] wall_split [of w'] in simp_all)

lemma weekday_cong: "day_start w = day_start w' \<Longrightarrow> weekday w = weekday w'"
  by (simp add: day_start_div weekday_def)

lemma day_start_idem [simp]: "day_start (day_start w) = day_start w"
  by (simp add: day_start_div)

lemma day_start_shift: "day_start (w + k * DAY_US) = day_start w + k * DAY_US"
  by (simp add: day_start_div distrib_right)

lemma day_start_mono: "w \<le> w' \<Longrightarrow> day_start w \<le> day_start w'"
  by (simp add: day_start_div zdiv_mono1)

lemma day_start_le [simp]: "day_start w \<le> w"
  using wall_split [of w] pos_mod_sign [OF unit_pos(1), of w] by linarith

lemma less_next_day: "w < day_start w + DAY_US"
  using wall_split [of w] pos_mod_bound [OF unit_pos(1), of w] by linarith

lemma later_day: "w \<le> w' \<Longrightarrow> \<exists>k \<ge> 0. day_start w' = day_start w + k * DAY_US"
  by (rule exI [of _ "w' div DAY_US - w div DAY_US"])
     (simp add: day_start_div zdiv_mono1 algebra_simps)

subsection \<open>Slot resolution\<close>

lemma slots_okD: "slots_ok slots \<Longrightarrow> s \<in> set slots \<Longrightarrow>
    0 \<le> ts_start_min s \<and> ts_start_min s < ts_end_min s \<and> ts_end_min s \<le> 1440"
  by (simp add: slots_ok_def list_all_iff)

lemma roll_forward_SomeD:
  assumes "roll_forward slots ds deltas = Some b"
  obtains delta s where "delta \<in> set deltas" "s \<in> set slots" "active_on s (weekday (ds + delta * DAY_US))"
    "b = ds + delta * DAY_US + ts_start_min s * MINUTE_US"
    "\<forall>s' \<in> set slots. active_on s' (weekday (ds + delta * DAY_US)) \<longrightarrow> ts_start_min s \<le> ts_start_min s'"
    "sorted deltas \<Longrightarrow> \<forall>e \<in> set deltas. e < delta \<longrightarrow> (\<forall>s' \<in> set slots. \<not> active_on s' (weekday (ds + e * DAY_US)))"
  using assms
proof (induction slots ds deltas arbitrary: thesis rule: roll_forward.induct)
  case (2 slots ds delta deltas)
  let ?day = "filter (\<lambda>s. active_on s (weekday (ds + delta * DAY_US))) slots"
  show ?case
  proof (cases "min_row ts_start_min ?day")
    case None
    then have none: "\<forall>s' \<in> set slots. \<not> active_on s' (weekday (ds + delta * DAY_US))"
      by (simp add: filter_empty_conv)
    have "roll_forward slots ds deltas = Some b" using None "2.prems"(2) by (simp add: Let_def)
    then show ?thesis
      using None by (rule_tac "2.IH" [OF refl refl None]) (rule "2.prems"(1), use none in auto)
  next
    case (Some s)
    show ?thesis
      by (rule "2.prems"(1) [of delta s])
         (use min_row_SomeD [OF Some] Some "2.prems"(2) in \<open>auto simp: Let_def\<close>)
  qed
qed simp

lemma roll_forward_NoneD:
  "roll_forward slots ds deltas = None \<Longrightarrow> delta \<in> set deltas \<Longrightarrow> s \<in> set slots
    \<Longrightarrow> \<not> active_on s (weekday (ds + delta * DAY_US))"
  by (induction slots ds deltas rule: roll_forward.induct)
     (auto simp: Let_def filter_empty_conv split: option.splits)

lemma slot_resolution_cases:
  fixes slots w
  defines "todays \<equiv> filter (\<lambda>s. active_on s (weekday w)) slots"
  obtains
    (covering) slot where "min_row slot_key (filter (covers (minute_of_day w)) todays) = Some slot"
      "slot_rate_and_bound slots w =
         (Some (to_money_m (ts_price_per_kwh slot)), Some (day_start w + ts_end_min slot * MINUTE_US))"
  | (gap) nxt where "filter (covers (minute_of_day w)) todays = []"
      "min_row ts_start_min (filter (\<lambda>s. minute_of_day w < ts_start_min s) todays) = Some nxt"
      "slot_rate_and_bound slots w = (None, Some (day_start w + ts_start_min nxt * MINUTE_US))"
  | (roll) "filter (covers (minute_of_day w)) todays = []"
      "filter (\<lambda>s. minute_of_day w < ts_start_min s) todays = []"
      "slot_rate_and_bound slots w = (None, roll_forward slots (day_start w) [1, 2, 3, 4, 5, 6, 7])"
proof (cases "min_row slot_key (filter (covers (minute_of_day w)) todays)")
  case (Some slot)
  then show ?thesis using covering by (simp add: slot_rate_and_bound_def Let_def todays_def)
next
  case nocover: None
  show ?thesis
  proof (cases "min_row ts_start_min (filter (\<lambda>s. minute_of_day w < ts_start_min s) todays)")
    case (Some nxt)
    with nocover show ?thesis using gap by (simp add: slot_rate_and_bound_def Let_def todays_def)
  next
    case None
    with nocover show ?thesis using roll
      by (simp add: slot_rate_and_bound_def Let_def todays_def del: filter_filter)
  qed
qed

lemma rate_None_iff:
  "fst (slot_rate_and_bound slots w) = None \<longleftrightarrow>
     (\<forall>s \<in> set slots. active_on s (weekday w) \<longrightarrow> \<not> covers (minute_of_day w) s)"
proof (cases slots w rule: slot_resolution_cases)
  case (covering slot)
  from min_row_SomeD [OF covering(1)] covering(2) show ?thesis by auto
qed (auto simp: filter_empty_conv)

lemma weekday_add_week: "weekday (w + 7 * k * DAY_US) = weekday w"
proof -
  have "(w + 7 * k * DAY_US) div DAY_US = w div DAY_US + 7 * k" by (simp add: mult.commute)
  moreover have "(x + 7 * k + 3) mod 7 = (x + 3) mod 7" for x :: int
    using mod_mult_self2 [of "x + 3" 7 k] by (simp add: algebra_simps)
  ultimately show ?thesis by (simp only: weekday_def)
qed

lemma weekday_within_week:
  assumes "0 < k"
  obtains delta where "delta \<in> {1..7 :: int}" "weekday (w + k * DAY_US) = weekday (w + delta * DAY_US)"
proof -
  define delta where "delta = (k - 1) mod 7 + 1"
  have k: "k = delta + 7 * ((k - 1) div 7)" by (simp add: delta_def)
  have "w + k * DAY_US = (w + delta * DAY_US) + 7 * ((k - 1) div 7) * DAY_US"
    by (subst k) (simp add: distrib_right)
  then have "weekday (w + k * DAY_US) = weekday (w + delta * DAY_US)" by (simp only: weekday_add_week)
  moreover have "delta \<in> {1..7}" by (simp add: delta_def)
  ultimately show thesis using that by blast
qed

text \<open>The covering slot stays the chosen one until it ends.\<close>

lemma covering_slot_stays:
  assumes "min_row slot_key (filter (covers m) todays) = Some slot" "m \<le> m'" "m' < ts_end_min slot"
  shows "min_row slot_key (filter (covers m') todays) = Some slot"
  using assms(1)
proof (rule min_row_filter_agree)
  fix x
  assume x: "x \<in> set todays" "slot_key x \<le> slot_key slot"
  have slot: "covers m slot" "\<forall>y \<in> set todays. covers m y \<longrightarrow> slot_key slot \<le> slot_key y"
    using min_row_SomeD [OF assms(1)] by auto
  show "covers m x = covers m' x"
  proof
    assume "covers m x"
    with slot x have "slot_key x = slot_key slot" by (simp add: antisym)
    with \<open>covers m x\<close> assms show "covers m' x" by (auto simp: covers_def slot_key_def)
  next
    assume "covers m' x"
    with x(2) slot(1) assms show "covers m x"
      by (auto simp: covers_def slot_key_def less_eq_prod_def)
  qed
qed

lemma boundary_in_future:
  assumes "slots_ok slots" "snd (slot_rate_and_bound slots w) = Some b"
  shows "w < b"
proof (cases slots w rule: slot_resolution_cases)
  case (covering slot)
  with min_row_SomeD [OF covering(1)] assms(2) show ?thesis by (auto simp: covers_def bound_less)
next
  case (gap nxt)
  with min_row_SomeD [OF gap(2)] assms(2) show ?thesis by (auto simp: bound_less)
next
  case roll
  with assms(2) have "roll_forward slots (day_start w) [1, 2, 3, 4, 5, 6, 7] = Some b" by simp
  then show ?thesis
  proof (rule roll_forward_SomeD)
    fix delta s
    assume d: "delta \<in> set [1, 2, 3, 4, 5, 6, 7 :: int]" and s: "s \<in> set slots"
      and b: "b = day_start w + delta * DAY_US + ts_start_min s * MINUTE_US"
    have "1 * DAY_US \<le> delta * DAY_US" using d by (intro mult_right_mono) auto
    moreover have "0 \<le> ts_start_min s * MINUTE_US"
      using slots_okD [OF assms(1) s] by (simp add: MINUTE_US_def)
    ultimately show "w < b" using less_next_day [of w] b by linarith
  qed
qed

lemma day_minutes: "DAY_US = 1440 * MINUTE_US"
  by (simp add: DAY_US_def MINUTE_US_def)

lemma same_day_before:
  assumes "w \<le> w'" "w' < day_start w + m * MINUTE_US" "m \<le> 1440"
  shows "day_start w' = day_start w"
proof -
  obtain k where k: "0 \<le> k" "day_start w' = day_start w + k * DAY_US"
    using later_day [OF assms(1)] by blast
  have m: "m * MINUTE_US \<le> 1440 * MINUTE_US" using assms(3) by (intro mult_right_mono) auto
  have "k = 0"
  proof (rule ccontr)
    assume "k \<noteq> 0"
    with k(1) have "1 * DAY_US \<le> k * DAY_US" by (intro mult_right_mono) auto
    with k(2) m assms(2) day_start_le [of w'] day_minutes show False by linarith
  qed
  with k(2) show ?thesis by simp
qed

lemma rate_constant_covering:
  assumes ok: "slots_ok slots" and w': "w \<le> w'" "w' < day_start w + ts_end_min slot * MINUTE_US"
    and slot: "min_row slot_key (filter (covers (minute_of_day w))
                 (filter (\<lambda>s. active_on s (weekday w)) slots)) = Some slot"
  shows "fst (slot_rate_and_bound slots w') = Some (to_money_m (ts_price_per_kwh slot))"
proof -
  have "slot \<in> set slots" using min_row_SomeD [OF slot] by simp
  then have d: "day_start w' = day_start w" using slots_okD [OF ok] w' by (intro same_day_before) auto
  then have wd: "weekday w' = weekday w" by (rule weekday_cong)
  have "minute_of_day w \<le> minute_of_day w'" using d w'(1) by (simp add: same_day_minute_mono)
  moreover have "minute_of_day w' < ts_end_min slot" using w'(2) d by (simp flip: bound_less)
  ultimately have "min_row slot_key (filter (covers (minute_of_day w'))
      (filter (\<lambda>s. active_on s (weekday w')) slots)) = Some slot"
    unfolding wd by (rule covering_slot_stays [OF slot])
  then show ?thesis by (simp add: slot_rate_and_bound_def Let_def del: filter_filter)
qed

lemma rate_constant_gap:
  assumes ok: "slots_ok slots" and w': "w \<le> w'" "w' < day_start w + ts_start_min nxt * MINUTE_US"
    and nocover: "filter (covers (minute_of_day w)) (filter (\<lambda>s. active_on s (weekday w)) slots) = []"
    and nxt: "min_row ts_start_min (filter (\<lambda>s. minute_of_day w < ts_start_min s)
                (filter (\<lambda>s. active_on s (weekday w)) slots)) = Some nxt"
  shows "fst (slot_rate_and_bound slots w') = None"
proof -
  have n: "nxt \<in> set slots" using min_row_SomeD [OF nxt] by simp
  then have d: "day_start w' = day_start w"
    using slots_okD [OF ok n] w' by (intro same_day_before) auto
  then have wd: "weekday w' = weekday w" by (rule weekday_cong)
  have m: "minute_of_day w \<le> minute_of_day w'" using d w'(1) by (simp add: same_day_minute_mono)
  have "minute_of_day w' < ts_start_min nxt" using w'(2) d by (simp flip: bound_less)
  with nocover min_row_SomeD [OF nxt] m wd show ?thesis
    by (fastforce simp: rate_None_iff filter_empty_conv covers_def)
qed

lemma rate_constant_roll:
  assumes ok: "slots_ok slots" and w': "w \<le> w'" "w' < b"
    and nocover: "filter (covers (minute_of_day w)) (filter (\<lambda>s. active_on s (weekday w)) slots) = []"
    and nonext: "filter (\<lambda>s. minute_of_day w < ts_start_min s) (filter (\<lambda>s. active_on s (weekday w)) slots) = []"
    and roll: "roll_forward slots (day_start w) [1, 2, 3, 4, 5, 6, 7] = Some b"
  shows "fst (slot_rate_and_bound slots w') = None"
proof -
  obtain k where k: "0 \<le> k" "day_start w' = day_start w + k * DAY_US"
    using later_day [OF w'(1)] by blast
  have wd: "weekday w' = weekday (day_start w + k * DAY_US)"
    using k(2) by (intro weekday_cong) (simp add: day_start_shift)
  from roll obtain delta s where roll': "delta \<in> set [1, 2, 3, 4, 5, 6, 7 :: int]" "s \<in> set slots"
    "b = (day_start w + delta * DAY_US) + ts_start_min s * MINUTE_US"
    "\<forall>s' \<in> set slots. active_on s' (weekday (day_start w + delta * DAY_US)) \<longrightarrow> ts_start_min s \<le> ts_start_min s'"
    "\<forall>e \<in> set [1, 2, 3, 4, 5, 6, 7]. e < delta \<longrightarrow> (\<forall>s' \<in> set slots. \<not> active_on s' (weekday (day_start w + e * DAY_US)))"
    by (rule roll_forward_SomeD) auto
  consider "k = 0" | "0 < k" "k < delta" | "delta \<le> k" using k(1) by linarith
  then show ?thesis
  proof cases
    case 1
    then have "day_start w = day_start w'" using k(2) by simp
    then have "weekday w' = weekday w" "minute_of_day w \<le> minute_of_day w'"
      using w'(1) weekday_cong [of w w'] by (simp_all add: same_day_minute_mono)
    then show ?thesis using nocover nonext by (fastforce simp: rate_None_iff filter_empty_conv covers_def)
  next
    case 2
    then have "k \<in> set [1, 2, 3, 4, 5, 6, 7]" using roll'(1) by auto
    with roll'(5) 2 show ?thesis by (auto simp: rate_None_iff wd)
  next
    case 3
    then have "delta * DAY_US \<le> k * DAY_US" by (intro mult_right_mono) auto
    then have "day_start w + delta * DAY_US \<le> w'" using k(2) day_start_le [of w'] by linarith
    moreover have dd: "day_start (day_start w + delta * DAY_US) = day_start w + delta * DAY_US"
      by (simp add: day_start_shift)
    ultimately have d: "day_start w' = day_start w + delta * DAY_US"
      using same_day_before [of "day_start w + delta * DAY_US" w' "ts_start_min s"]
        w'(2) roll'(3) slots_okD [OF ok roll'(2)] by simp
    then have "minute_of_day w' < ts_start_min s" using w'(2) roll'(3) by (simp flip: bound_less)
    moreover have "weekday w' = weekday (day_start w + delta * DAY_US)"
      using d dd by (intro weekday_cong) simp
    ultimately show ?thesis using roll'(4) by (fastforce simp: rate_None_iff covers_def)
  qed
qed

lemma rate_constant_until_boundary:
  assumes ok: "slots_ok slots" and b: "snd (slot_rate_and_bound slots w) = Some b"
    and w': "w \<le> w'" "w' < b"
  shows "fst (slot_rate_and_bound slots w') = fst (slot_rate_and_bound slots w)"
proof (cases slots w rule: slot_resolution_cases)
  case (covering slot)
  then show ?thesis using rate_constant_covering [OF ok w'(1) _ covering(1)] b w'(2) by simp
next
  case (gap nxt)
  then show ?thesis using rate_constant_gap [OF ok w'(1) _ gap(1,2)] b w'(2) by simp
next
  case roll
  then show ?thesis using rate_constant_roll [OF ok w' roll(1,2)] b by simp
qed

lemma rate_constant_without_boundary:
  assumes b: "snd (slot_rate_and_bound slots w) = None" and w': "w \<le> w'"
  shows "fst (slot_rate_and_bound slots w') = fst (slot_rate_and_bound slots w)"
proof (cases slots w rule: slot_resolution_cases)
  case roll
  obtain k where k: "0 \<le> k" "day_start w' = day_start w + k * DAY_US"
    using later_day [OF w'] by blast
  have none: "roll_forward slots (day_start w) [1, 2, 3, 4, 5, 6, 7] = None" using roll(3) b by simp
  have all: "\<not> active_on s (weekday (day_start w + i * DAY_US))" if i: "0 < i" and s: "s \<in> set slots" for i s
  proof -
    obtain delta where "delta \<in> {1..7}" "weekday (day_start w + i * DAY_US) = weekday (day_start w + delta * DAY_US)"
      using weekday_within_week [OF i] by blast
    moreover from \<open>delta \<in> {1..7}\<close> have "delta \<in> set [1, 2, 3, 4, 5, 6, 7]" by auto
    ultimately show ?thesis using roll_forward_NoneD [OF none _ s] by metis
  qed
  have "weekday w' = weekday (day_start w + k * DAY_US)"
    using k(2) by (intro weekday_cong) (simp add: day_start_shift)
  also have "\<dots> = weekday (day_start w + (k + 7) * DAY_US)"
    using weekday_add_week [of "day_start w + k * DAY_US" 1] by (simp add: distrib_right add.assoc)
  finally have "\<not> active_on s (weekday w')" if "s \<in> set slots" for s
    using all [of "k + 7" s] k(1) that by simp
  then have "fst (slot_rate_and_bound slots w') = None" by (auto simp: rate_None_iff)
  with roll(3) show ?thesis by simp
qed (use b in simp_all)

subsection \<open>What billing relies on\<close>

locale rate_schedule =
  fixes valid :: "'c \<Rightarrow> bool"
    and rate :: "'c \<Rightarrow> int \<Rightarrow> 'r"
    and boundary :: "'c \<Rightarrow> int \<Rightarrow> int option"
  assumes future: "valid c \<Longrightarrow> boundary c t = Some b \<Longrightarrow> t < b"
    and constant_until: "valid c \<Longrightarrow> boundary c t = Some b \<Longrightarrow> t \<le> u \<Longrightarrow> u < b \<Longrightarrow> rate c u = rate c t"
    and constant_forever: "valid c \<Longrightarrow> boundary c t = None \<Longrightarrow> t \<le> u \<Longrightarrow> rate c u = rate c t"
begin

lemma change_announced:
  assumes "valid c" "t \<le> u" "rate c u \<noteq> rate c t"
  obtains b where "boundary c t = Some b" "t < b" "b \<le> u"
  using assms constant_until constant_forever future by (metis not_le option.exhaust)

end

interpretation sched: rate_schedule slots_ok
  "\<lambda>slots w. fst (slot_rate_and_bound slots w)" "\<lambda>slots w. snd (slot_rate_and_bound slots w)"
  by unfold_locales
     (blast intro: boundary_in_future rate_constant_until_boundary rate_constant_without_boundary)+

lemma foldl_max_ge: "m \<le> foldl max m xs" "x \<in> set xs \<Longrightarrow> x \<le> foldl max (m :: int) xs"
proof -
  have "m \<le> foldl max m xs \<and> (\<forall>x \<in> set xs. x \<le> foldl max m xs)"
  proof (induction xs arbitrary: m)
    case (Cons a xs)
    from Cons [of "max m a"] show ?case by auto
  qed simp
  then show "m \<le> foldl max m xs" "x \<in> set xs \<Longrightarrow> x \<le> foldl max m xs" by auto
qed

lemma walk_days_mono: "set rates \<subseteq> set (walk_days slots s e day ld rates)"
  by (induction slots s e day ld rates rule: walk_days.induct) (subst walk_days.simps, auto)

lemma walk_days_day:
  assumes "day + k * DAY_US \<le> ld" "0 \<le> k"
  shows "set (day_rates slots s e (day + k * DAY_US)) \<subseteq> set (walk_days slots s e day ld rates)"
  using assms
proof (induction slots s e day ld rates arbitrary: k rule: walk_days.induct)
  case (1 slots s e day ld rates)
  have "0 \<le> k * DAY_US" using "1.prems" by simp
  then have le: "day \<le> ld" using "1.prems" by linarith
  show ?case
  proof (cases "k = 0")
    case True
    with le show ?thesis
      using walk_days_mono [of "rates @ day_rates slots s e day" slots s e "day + DAY_US" ld]
      by (subst walk_days.simps) auto
  next
    case False
    have "set (day_rates slots s e ((day + DAY_US) + (k - 1) * DAY_US))
        \<subseteq> set (walk_days slots s e (day + DAY_US) ld (rates @ day_rates slots s e day))"
      using "1.prems" False le by (intro "1.IH") (simp_all add: left_diff_distrib)
    then have "set (day_rates slots s e (day + k * DAY_US))
        \<subseteq> set (walk_days slots s e (day + DAY_US) ld (rates @ day_rates slots s e day))"
      by (simp add: left_diff_distrib)
    with le show ?thesis by (subst walk_days.simps) simp
  qed
qed

lemma covering_slot:
  assumes "fst (slot_rate_and_bound slots w) = Some r"
  obtains slot where "slot \<in> set slots" "active_on slot (weekday w)" "covers (minute_of_day w) slot"
    "r = to_money_m (ts_price_per_kwh slot)"
proof (cases slots w rule: slot_resolution_cases)
  case (covering slot)
  with min_row_SomeD [OF covering(1)] assms show ?thesis by (intro that [of slot]) auto
qed (use assms in simp_all)

lemma slot_rate_in_window:
  assumes w: "start_local \<le> w" "w < end_local" and r: "fst (slot_rate_and_bound slots w) = Some r"
  shows "r \<in> set (walk_days slots start_local end_local (day_start start_local) (day_start end_local) rates)"
proof -
  obtain slot where slot: "slot \<in> set slots" "active_on slot (weekday w)" "covers (minute_of_day w) slot"
    "r = to_money_m (ts_price_per_kwh slot)" using covering_slot [OF r] .
  obtain k where k: "0 \<le> k" "day_start w = day_start start_local + k * DAY_US"
    using later_day [OF w(1)] by blast
  have "day_start w + ts_start_min slot * MINUTE_US \<le> w"
    using slot(3) bound_less [of w "ts_start_min slot"] by (auto simp: covers_def not_less [symmetric])
  moreover have "w < day_start w + ts_end_min slot * MINUTE_US"
    using slot(3) by (simp add: covers_def bound_less)
  moreover have "weekday (day_start w) = weekday w" by (rule weekday_cong) simp
  ultimately have "r \<in> set (day_rates slots start_local end_local (day_start w))"
    using slot w by (auto simp: day_rates_def)
  moreover have "day_start start_local + k * DAY_US \<le> day_start end_local"
    using day_start_mono [of w end_local] w k by simp
  ultimately show ?thesis
    using walk_days_day [OF _ k(1), of "day_start start_local" "day_start end_local" slots start_local end_local rates]
    by (auto simp: k(2))
qed

lemma resolve_rate_window_rate:
  assumes "resolve_tariff_and_tz d plug = (Some tariff, tz_name)"
  shows "fst (resolve_rate_window cfg zones d plug t) =
    rate_at (slots_of d tariff) (to_money_m (tf_price_per_kwh tariff)) (to_local t (zone_of zones tz_name))"
  using assms by (simp add: resolve_rate_window_def rate_at_def Let_def split: prod.splits)

lemma rate_at_le:
  assumes "flat \<le> m" "\<And>r. fst (slot_rate_and_bound slots w) = Some r \<Longrightarrow> r \<le> m"
  shows "rate_at slots flat w \<le> m"
  using assms by (simp add: rate_at_def split: option.splits)

subsection \<open>The batched display\<close>

lemma fold_upd_notin: "y \<notin> k ` set xs \<Longrightarrow> fold (\<lambda>x m. m(k x \<mapsto> v x)) xs m y = m y"
  by (induction xs arbitrary: m) auto

lemma fold_upd_in:
  "distinct (map k xs) \<Longrightarrow> x \<in> set xs \<Longrightarrow> fold (\<lambda>x m. m(k x \<mapsto> v x)) xs m (k x) = Some (v x)"
  by (induction xs arbitrary: m) (auto simp: fold_upd_notin)

lemma tariffs_by_id_lookup:
  assumes "distinct (map tf_id (tariffs d))" "Some i \<in> set candidates"
  shows "tariffs_by_id d candidates i = row_by tf_id i (tariffs d)"
proof (cases "row_by tf_id i (tariffs d)")
  case None
  then have "i \<notin> tf_id ` set (filter (\<lambda>t. Some (tf_id t) \<in> set candidates) (tariffs d))"
    by (auto simp: row_by_None_iff)
  with None show ?thesis by (simp add: tariffs_by_id_def fold_upd_notin del: set_filter)
next
  case (Some t)
  then have t: "t \<in> set (tariffs d)" "tf_id t = i" using row_by_SomeD by fastforce+
  have "distinct (map tf_id (filter (\<lambda>t. Some (tf_id t) \<in> set candidates) (tariffs d)))"
    using assms(1) by (simp add: distinct_map_filter)
  from fold_upd_in [OF this, of t] t assms(2) Some show ?thesis by (simp add: tariffs_by_id_def)
qed

lemma slots_fold_lookup:
  "(case fold (\<lambda>s m. m(ts_tariff_id s \<mapsto> (case m (ts_tariff_id s) of None \<Rightarrow> [] | Some l \<Rightarrow> l) @ [s])) xs m tid
      of None \<Rightarrow> [] | Some l \<Rightarrow> l) =
   (case m tid of None \<Rightarrow> [] | Some l \<Rightarrow> l) @ filter (\<lambda>s. ts_tariff_id s = tid) xs"
  by (induction xs arbitrary: m) auto

lemma slots_by_tariff_lookup:
  assumes "tf_id t \<in> set winners"
  shows "(case slots_by_tariff d winners (tf_id t) of None \<Rightarrow> [] | Some l \<Rightarrow> l) = slots_of d t"
proof -
  have "filter (\<lambda>s. ts_tariff_id s = tf_id t \<and> ts_tariff_id s \<in> set winners) (tariff_slots d) = slots_of d t"
    unfolding slots_of_def using assms by (intro filter_cong) auto
  then show ?thesis by (simp add: slots_by_tariff_def slots_fold_lookup conj_commute)
qed

lemma pick_tariff_cong:
  "(\<And>i. Some i \<in> set chain \<Longrightarrow> m i = m' i) \<Longrightarrow> pick_tariff chain m = pick_tariff chain m'"
  by (induction chain m rule: pick_tariff.induct) (auto split: option.splits)

lemma resolve_tariff_chain:
  assumes "item_matches d (plug, g, tenant)"
  shows "resolve_tariff_and_tz d plug =
    (pick_tariff (price_chain (plug, g, tenant)) (\<lambda>i. row_by tf_id i (tariffs d)), tenant_tz_name tenant)"
  using assms
  by (auto simp: item_matches_def resolve_tariff_and_tz_def price_chain_def find_tariff_def group_tariff_def
      Let_def split: option.splits)

lemma price_display_batch_lookup:
  assumes "distinct (map tf_id (tariffs d))" "distinct (map (\<lambda>it. pl_id (fst it)) items)"
    "(plug, g, tenant) \<in> set items" "item_matches d (plug, g, tenant)"
  shows "resolve_price_display_batch cfg zones d items t (pl_id plug) = Some (resolve_price_display cfg zones d plug t)"
proof -
  let ?it = "(plug, g, tenant)"
  define chains where "chains = fold (\<lambda>it m. m(pl_id (fst it) \<mapsto> price_chain it)) items Map.empty"
  define cvals where "cvals = map (\<lambda>it. the (chains (pl_id (fst it)))) items"
  define by_id where "by_id = tariffs_by_id d (filter (\<lambda>tid. tid \<noteq> None) (concat cvals))"
  define winners where "winners = map tf_id (List.map_filter (\<lambda>chain. pick_tariff chain by_id) cvals)"
  have chain: "chains (pl_id plug) = Some (price_chain ?it)"
    using fold_upd_in [OF assms(2,3)] by (simp add: chains_def)
  then have vmem: "price_chain ?it \<in> set cvals"
    using assms(3) by (force simp: cvals_def)
  have pick: "pick_tariff (price_chain ?it) by_id = fst (resolve_tariff_and_tz d plug)"
    unfolding resolve_tariff_chain [OF assms(4)] fst_conv by_id_def
    by (rule pick_tariff_cong, rule tariffs_by_id_lookup [OF assms(1)]) (use vmem in auto)
  have winner: "tf_id tf \<in> set winners" if "pick_tariff (price_chain ?it) by_id = Some tf" for tf
    using that vmem by (force simp: winners_def List.map_filter_def)
  define v where "v = (\<lambda>(plug :: plug, g :: int option, tenant). case pick_tariff (the (chains (pl_id plug))) by_id of
      None \<Rightarrow> (default_rate cfg, None, None)
    | Some tariff \<Rightarrow> price_display_from_slots
        (case slots_by_tariff d winners (tf_id tariff) of None \<Rightarrow> [] | Some l \<Rightarrow> l)
        (to_local t (zone_of zones (tenant_tz_name tenant))) (to_money_m (tf_price_per_kwh tariff)))"
  have "resolve_price_display_batch cfg zones d items t = fold (\<lambda>it m. m(pl_id (fst it) \<mapsto> v it)) items Map.empty"
    unfolding resolve_price_display_batch_def Let_def
    unfolding chains_def [symmetric] cvals_def [symmetric] by_id_def [symmetric] winners_def [symmetric]
    by (intro fold_cong) (auto simp: v_def fun_eq_iff split: option.splits)
  then have "resolve_price_display_batch cfg zones d items t (pl_id plug) = Some (v ?it)"
    using fold_upd_in [OF assms(2,3), of v Map.empty] by simp
  also have "v ?it = resolve_price_display cfg zones d plug t"
    using pick winner resolve_tariff_chain [OF assms(4)]
    by (auto simp: v_def chain resolve_price_display_def slots_by_tariff_lookup split: option.splits prod.splits)
  finally show ?thesis .
qed

lemma shared_weekday:
  assumes "(a :: int) \<in> {0..127}"
  shows "a AND b \<noteq> 0 \<longleftrightarrow> (\<exists>wd < 7. odd (a div 2 ^ wd) \<and> odd (b div 2 ^ wd))"
proof -
  have high: "\<not> bit a n" if "7 \<le> n" for n
  proof -
    have "(2 :: int) ^ 7 \<le> 2 ^ n" using that by (intro power_increasing) auto
    then have "a div 2 ^ n = 0" using assms by (intro div_pos_pos_trivial) auto
    then show ?thesis by (simp add: bit_iff_odd)
  qed
  have "a AND b \<noteq> 0 \<longleftrightarrow> (\<exists>n. bit a n \<and> bit b n)"
    by (auto simp: bit_eq_iff bit_and_iff)
  also have "\<dots> \<longleftrightarrow> (\<exists>n < 7. bit a n \<and> bit b n)" using high by (meson not_le)
  finally show ?thesis by (simp add: bit_iff_odd)
qed

subsection \<open>Properties\<close>

text \<open>
  C26. No price change goes unannounced: whenever a tariff's slots give different rates at two
  wall-clock readings, the boundary resolved at the earlier one is in its future and not after
  the later one; so a session repriced at its boundaries is always on the tariff's rate.
\<close>

theorem slot_boundary_complete:
  assumes "slots_ok slots" "t \<le> u"
    "fst (slot_rate_and_bound slots u) \<noteq> fst (slot_rate_and_bound slots t)"
  shows "\<exists>b. snd (slot_rate_and_bound slots t) = Some b \<and> t < b \<and> b \<le> u"
  using sched.change_announced [OF assms(1,2)] assms(3) by metis

theorem slot_boundary_complete_witness:
  "\<exists>b. snd (slot_rate_and_bound sample_slots 0) = Some b \<and> 0 < b \<and> b \<le> 70000000000"
  by (rule slot_boundary_complete) (code_simp+)

text \<open>
  C25. A hold sized at \<open>max_rate_over_window\<close> is not out-priced before the window ends: for a site whose
  zone keeps one offset from UTC, at every instant from the start up to but not including the end
  of the window the rate that \<open>resolve_rate_window\<close> gives is at most the maximum reserved for.  The
  end itself is excluded, because a slot that begins exactly there is not looked at, and so are
  zones with daylight saving.
\<close>

theorem max_rate_bounds_window:
  assumes zone: "fixed_offset (zone_of zones (snd (resolve_tariff_and_tz d plug))) off"
    and t: "start_at \<le> t" "t < start_at + max_duration_seconds * 1000000"
  shows "fst (resolve_rate_window cfg zones d plug t)
           \<le> max_rate_over_window cfg zones d plug start_at max_duration_seconds"
proof -
  obtain tf tzn where rt: "resolve_tariff_and_tz d plug = (tf, tzn)" by fastforce
  show ?thesis
  proof (cases tf)
    case None
    then show ?thesis by (simp add: rt resolve_rate_window_def max_rate_over_window_def)
  next
    case (Some tariff)
    let ?slots = "slots_of d tariff" and ?base = "to_money_m (tf_price_per_kwh tariff)"
    let ?z = "zone_of zones tzn"
    have wall: "to_local x ?z = x + off" for x using zone rt by (simp add: fixed_offset_def to_local_def)
    have rate: "fst (resolve_rate_window cfg zones d plug t) = rate_at ?slots ?base (t + off)"
      using resolve_rate_window_rate [of d plug tariff tzn] rt Some by (simp add: wall)
    have "rate_at ?slots ?base (t + off) \<le> max_rate_over_window cfg zones d plug start_at max_duration_seconds"
    proof (rule rate_at_le)
      fix r assume r: "fst (slot_rate_and_bound ?slots (t + off)) = Some r"
      then obtain slot where "slot \<in> set ?slots" "r = to_money_m (ts_price_per_kwh slot)"
        by (rule covering_slot)
      moreover have "r \<in> set (walk_days ?slots (start_at + off) (start_at + off + max_duration_seconds * 1000000)
          (day_start (start_at + off)) (day_start (start_at + off + max_duration_seconds * 1000000)) [])"
        using t r by (intro slot_rate_in_window) auto
      ultimately show "r \<le> max_rate_over_window cfg zones d plug start_at max_duration_seconds"
        by (auto simp: max_rate_over_window_def rt Some Let_def wall intro!: foldl_max_ge(2))
    qed (simp add: max_rate_over_window_def rt Some Let_def foldl_max_ge(1))
    with rate show ?thesis by simp
  qed
qed

theorem max_rate_bounds_window_witness:
  "fst (resolve_rate_window default_config ist_zones sample_site sample_plug 50000000000)
     \<le> max_rate_over_window default_config ist_zones sample_site sample_plug 0 57600"
proof (rule max_rate_bounds_window)
  show "fixed_offset (zone_of ist_zones (snd (resolve_tariff_and_tz sample_site sample_plug))) 19800000000"
    by (simp add: resolve_tariff_and_tz_def plug_tenant_def sample_site_def sample_plug_def sample_tenant_def
        empty_db_def row_by_def tenant_tz_name_def zone_of_def ist_zones_def ist_def fixed_offset_def Let_def)
qed simp_all

text \<open>
  C33. The batched price list is the single-plug resolver applied to every plug: for rows that
  carry the plug's own group tariff and tenant, each entry equals \<open>resolve_price_display\<close>.
\<close>

theorem price_display_batch_correct:
  assumes "distinct (map tf_id (tariffs d))" "distinct (map (\<lambda>it. pl_id (fst it)) items)"
    "\<forall>it \<in> set items. item_matches d it" "(plug, g, tenant) \<in> set items"
  shows "resolve_price_display_batch cfg zones d items t (pl_id plug) =
           Some (resolve_price_display cfg zones d plug t)"
  using assms price_display_batch_lookup by blast

theorem price_display_batch_correct_witness:
  "resolve_price_display_batch default_config ist_zones sample_site
      [(sample_plug, None, Some sample_tenant)] 45000000000 (pl_id sample_plug) =
     Some (resolve_price_display default_config ist_zones sample_site sample_plug 45000000000)"
proof (rule price_display_batch_correct)
  show "\<forall>it \<in> set [(sample_plug, None, Some sample_tenant)]. item_matches sample_site it"
    by (simp add: item_matches_def plug_tenant_def sample_site_def sample_plug_def sample_tenant_def
        empty_db_def row_by_def)
qed (simp_all add: sample_site_def empty_db_def)

text \<open>
  C29. Repricing a running session never changes what it already owes.  When the current segment
  has expired, the session leaves with the tariff's rate at that instant and its next boundary;
  before that, or for a flat session, it is left untouched; a notice is due exactly when the
  rate changed.
\<close>

theorem reprice_session_correct:
  assumes "is_float (cs_energy_kwh session)" "0 \<le> cs_energy_kwh session"
    and r: "reprice_session_if_due cfg zones d session plug t = (session', notice)"
  shows "session_cost cfg session' (cs_energy_kwh session) = session_cost cfg session (cs_energy_kwh session)
    \<and> (case cs_rate_valid_until session of
         None \<Rightarrow> session' = session \<and> notice = None
       | Some v \<Rightarrow>
           (t < v \<longrightarrow> session' = session \<and> notice = None)
           \<and> (v \<le> t \<longrightarrow>
                 cs_rate_coins_per_kwh session' = Some (fst (resolve_rate_window cfg zones d plug t))
               \<and> cs_rate_valid_until session' = snd (resolve_rate_window cfg zones d plug t)
               \<and> (notice \<noteq> None \<longleftrightarrow> cs_rate_coins_per_kwh session \<noteq> cs_rate_coins_per_kwh session')))"
proof -
  have keep: "session_cost cfg (session\<lparr>cs_rate_valid_until := v\<rparr>) e = session_cost cfg session e" for v e
    by (simp add: session_cost_def current_rate_def settled_of_def split: option.split)
  have close: "session_cost cfg (close_out_segment cfg session rr (cs_energy_kwh session) v) (cs_energy_kwh session)
      = session_cost cfg session (cs_energy_kwh session)" for rr v
    using assms(1,2) close_out_settled [of "cs_energy_kwh session" cfg session rr v]
      session_cost_bounds [of cfg session "cs_energy_kwh session"]
    by (simp add: session_cost_segmented clamp_money_id)
  show ?thesis
    using r by (auto simp: reprice_session_if_due_def keep close Let_def split: option.splits if_splits prod.splits)
qed

theorem reprice_session_correct_witness:
  "reprice_session_if_due default_config ist_zones sample_site
      (sample_session\<lparr>cs_rate_valid_until := Some 45000000000\<rparr>) sample_plug 45000000000 \<noteq>
     (sample_session\<lparr>cs_rate_valid_until := Some 45000000000\<rparr>, None)
   \<and> session_cost default_config
       (fst (reprice_session_if_due default_config ist_zones sample_site
          (sample_session\<lparr>cs_rate_valid_until := Some 45000000000\<rparr>) sample_plug 45000000000)) 2 = 1000"
proof -
  let ?s = "sample_session\<lparr>cs_rate_valid_until := Some 45000000000\<rparr>"
  let ?r = "reprice_session_if_due default_config ist_zones sample_site ?s sample_plug 45000000000"
  have e: "cs_energy_kwh ?s = 2" "is_float 2" "session_cost default_config ?s 2 = 1000" by code_simp+
  have "snd ?r \<noteq> None" by code_simp
  then have "?r \<noteq> (?s, None)" by (metis snd_conv)
  moreover have "session_cost default_config (fst ?r) 2 = 1000"
    using reprice_session_correct [of ?s default_config ist_zones sample_site sample_plug 45000000000 "fst ?r" "snd ?r"] e
    by simp
  ultimately show ?thesis by simp
qed

text \<open>
  Slot validation is exact: for windows that are non-empty and lie within one day and weekday
  masks of seven bits, two slots are reported as overlapping if and only if some weekday and
  minute falls into both.
\<close>

lemma slot_overlaps_iff:
  assumes "ts_start_min a < ts_end_min a" "ts_start_min b < ts_end_min b" "ts_days_mask a \<in> {0..127}"
  shows "slot_overlaps (ts_start_min a) (ts_end_min a) (ts_days_mask a)
             (ts_start_min b) (ts_end_min b) (ts_days_mask b)
    \<longleftrightarrow> (\<exists>wd < 7. \<exists>m. active_on a wd \<and> active_on b wd \<and> covers m a \<and> covers m b)"
proof -
  have "ts_days_mask a AND ts_days_mask b \<noteq> 0 \<longleftrightarrow> (\<exists>wd < 7. active_on a wd \<and> active_on b wd)"
    using shared_weekday [OF assms(3)] by (simp add: active_on_def)
  moreover have "ts_start_min a < ts_end_min b \<and> ts_start_min b < ts_end_min a
      \<longleftrightarrow> (\<exists>m. covers m a \<and> covers m b)"
  proof
    assume "ts_start_min a < ts_end_min b \<and> ts_start_min b < ts_end_min a"
    with assms(1,2) have "covers (max (ts_start_min a) (ts_start_min b)) a"
      "covers (max (ts_start_min a) (ts_start_min b)) b" by (auto simp: covers_def)
    then show "\<exists>m. covers m a \<and> covers m b" by blast
  qed (auto simp: covers_def)
  ultimately show ?thesis by (auto simp: slot_overlaps_def)
qed

end
