(* ===== verification/Reservations.thy ===== *)
theory Reservations
  imports Wallet Caps "HOL-Library.Product_Lexorder"
begin

text \<open>
  Plug reservations: the policy service (\<open>backend/services/reservations.py\<close>) and the driver
  endpoints (\<open>backend/routers/reservations.py\<close>).

  Every endpoint takes the user's and the plug's row locks for its whole transaction, so it is one
  step.  An HTTP error rolls the transaction back, the lazy expiry included.  The calendar
  invariant is that booked windows of one plug never overlap; it is proved for all states
  reachable by bookings, cancellations, expiry and fulfilment through \<open>transition_invariant\<close>.
\<close>

subsection \<open>Definitions\<close>

definition minutes_us :: "pyfloat \<Rightarrow> int" where
  "minutes_us m = round_half_even (m * 60000000)"

definition hours_us :: "pyfloat \<Rightarrow> int" where
  "hours_us h = round_half_even (h * 3600000000)"

definition days_us :: "pyfloat \<Rightarrow> int" where
  "days_us x = round_half_even (x * 86400000000)"

definition RESERVATION_MIN_MINUTES :: pyfloat where
  "RESERVATION_MIN_MINUTES = 15"

definition RESERVATION_START_GRACE_MIN :: pyfloat where
  "RESERVATION_START_GRACE_MIN = 2"

definition opt_matches :: "'a option \<Rightarrow> 'a \<Rightarrow> bool" where
  "opt_matches filter_value x = (case filter_value of None \<Rightarrow> True | Some v \<Rightarrow> x = v)"

definition lapsed :: "config \<Rightarrow> timestamp \<Rightarrow> reservation \<Rightarrow> bool" where
  "lapsed cfg now r \<longleftrightarrow> rs_status r = RS_BOOKED
     \<and> (rs_start_at r \<le> now - minutes_us (RESERVATION_NO_SHOW_GRACE_MIN cfg) \<or> rs_end_at r \<le> now)"

definition in_scope ::
  "int option \<Rightarrow> int list option \<Rightarrow> int option \<Rightarrow> int option \<Rightarrow> reservation \<Rightarrow> bool" where
  "in_scope plug_id plug_ids user_id tenant_id r \<longleftrightarrow>
     opt_matches plug_id (rs_plug_id r)
     \<and> (case plug_ids of None \<Rightarrow> True | Some ids \<Rightarrow> rs_plug_id r \<in> set ids)
     \<and> opt_matches user_id (rs_user_id r) \<and> opt_matches tenant_id (rs_tenant_id r)"

definition expire_lapsed_reservations ::
  "config \<Rightarrow> timestamp \<Rightarrow> db \<Rightarrow> int option \<Rightarrow> int list option \<Rightarrow> int option \<Rightarrow> int option \<Rightarrow> db \<times> nat" where
  "expire_lapsed_reservations cfg now d plug_id plug_ids user_id tenant_id =
     (let hit = (\<lambda>r. lapsed cfg now r \<and> in_scope plug_id plug_ids user_id tenant_id r)
      in (d\<lparr>reservations := update_where hit (\<lambda>r. r\<lparr>rs_status := RS_EXPIRED\<rparr>) (reservations d)\<rparr>,
          count_where hit (reservations d)))"

text \<open>No constraint keeps a membership unique; \<open>scalar_one_or_none\<close> raises on a second row.\<close>

definition user_can_access_plug :: "db \<Rightarrow> int \<Rightarrow> plug \<Rightarrow> bool response" where
  "user_can_access_plug d user_id plug =
     (case pl_group_id plug of
        None \<Rightarrow> Inr True
      | Some g \<Rightarrow>
          (case row_by cg_id g (charger_groups d) of
             None \<Rightarrow> Inr True
           | Some grp \<Rightarrow>
               if cg_is_public grp then Inr True
               else case filter (\<lambda>m. gm_user_id m = user_id \<and> gm_group_id m = cg_id grp) (memberships d) of
                      [] \<Rightarrow> Inr False | [_] \<Rightarrow> Inr True | _ \<Rightarrow> Inl MultipleResultsFound))"

definition next_conflicting_reservation ::
  "db \<Rightarrow> int \<Rightarrow> int \<Rightarrow> timestamp \<Rightarrow> timestamp \<Rightarrow> reservation option" where
  "next_conflicting_reservation d plug_id exclude_user_id horizon now =
     min_row rs_start_at
       (filter (\<lambda>r. rs_plug_id r = plug_id \<and> rs_status r = RS_BOOKED \<and> rs_user_id r \<noteq> exclude_user_id
                  \<and> now < rs_start_at r \<and> rs_start_at r \<le> horizon) (reservations d))"

definition check_window :: "config \<Rightarrow> timestamp \<Rightarrow> timestamp \<Rightarrow> timestamp \<Rightarrow> unit response" where
  "check_window cfg now start_at end_at =
     (if end_at \<le> start_at then Inl (HTTPException 400 ''end_at must be after start_at.'')
      else if end_at - start_at < minutes_us RESERVATION_MIN_MINUTES
      then Inl (HTTPException 400 ''too short'')
      else if hours_us (RESERVATION_MAX_HOURS cfg) < end_at - start_at
      then Inl (HTTPException 400 ''too long'')
      else if start_at < now - minutes_us RESERVATION_START_GRACE_MIN
      then Inl (HTTPException 400 ''Reservation start is in the past.'')
      else if now + days_us (RESERVATION_MAX_ADVANCE_DAYS cfg) < start_at
      then Inl (HTTPException 400 ''too far ahead'')
      else Inr ())"

definition upcoming :: "timestamp \<Rightarrow> int \<Rightarrow> reservation \<Rightarrow> bool" where
  "upcoming now user_id r \<longleftrightarrow> rs_user_id r = user_id \<and> rs_status r = RS_BOOKED \<and> now < rs_end_at r"

definition conflicts :: "int \<Rightarrow> timestamp \<Rightarrow> timestamp \<Rightarrow> reservation \<Rightarrow> bool" where
  "conflicts plug_id start_at end_at r \<longleftrightarrow>
     rs_plug_id r = plug_id \<and> rs_status r = RS_BOOKED \<and> rs_start_at r < end_at \<and> start_at < rs_end_at r"

definition book_on_plug ::
  "config \<Rightarrow> timestamp \<Rightarrow> db \<Rightarrow> int \<Rightarrow> int \<Rightarrow> timestamp \<Rightarrow> timestamp \<Rightarrow> (db \<times> reservation) response" where
  "book_on_plug cfg now d user_id plug_id start_at end_at =
     (case row_by pl_id plug_id (plugs d) of
        None \<Rightarrow> Inl (HTTPException 404 ''Plug not found.'')
      | Some plug \<Rightarrow>
          case user_can_access_plug d user_id plug of Inl err \<Rightarrow> Inl err | Inr access \<Rightarrow>
          if \<not> access then Inl (HTTPException 403 ''You do not have access to this plug.'')
          else if pl_status plug = MAINTENANCE
          then Inl (HTTPException 409 ''This plug is under maintenance and cannot be reserved.'')
          else let d2 = fst (expire_lapsed_reservations cfg now d (Some (pl_id plug)) None None None)
               in if exists_row (conflicts (pl_id plug) start_at end_at) (reservations d2)
                  then Inl (HTTPException 409 ''That slot overlaps an existing reservation.'')
                  else case row_by gw_id (pl_gateway_id plug) (gateways d2) of
                         None \<Rightarrow> Inl NoResultFound
                       | Some gw \<Rightarrow>
                           (case gw_tenant_id gw of
                              None \<Rightarrow> Inl IntegrityError
                            | Some tenant_id \<Rightarrow>
                                (let r = \<lparr>rs_id = fresh_id rs_id (reservations d2), rs_plug_id = pl_id plug,
                                          rs_user_id = user_id, rs_tenant_id = tenant_id, rs_start_at = start_at,
                                          rs_end_at = end_at, rs_status = RS_BOOKED, rs_session_id = None,
                                          rs_started_notified_at = None\<rparr>
                                 in Inr (d2\<lparr>reservations := reservations d2 @ [r]\<rparr>, r))))"

definition create_reservation ::
  "config \<Rightarrow> timestamp \<Rightarrow> world \<Rightarrow> int \<Rightarrow> int \<Rightarrow> timestamp \<Rightarrow> timestamp \<Rightarrow> world \<times> reservation response" where
  "create_reservation cfg now w user_id plug_id start_at end_at =
     (case check_window cfg now start_at end_at of
        Inl err \<Rightarrow> (w, Inl err)
      | Inr _ \<Rightarrow>
          (case row_by us_id user_id (users (w_db w)) of
             None \<Rightarrow> (w, Inl NoResultFound)
           | Some _ \<Rightarrow>
               (let d1 = fst (expire_lapsed_reservations cfg now (w_db w) None None (Some user_id) None)
                in if MAX_UPCOMING_RESERVATIONS_PER_USER cfg \<le> int (count_where (upcoming now user_id) (reservations d1))
                   then (w, Inl (HTTPException 409 ''Too many upcoming reservations.''))
                   else case book_on_plug cfg now d1 user_id plug_id start_at end_at of
                          Inl err \<Rightarrow> (w, Inl err)
                        | Inr (d', r) \<Rightarrow>
                            (emit [Notify user_id ''reservation_booked'' ''info'' (Some (rs_plug_id r)) None]
                               (w\<lparr>w_db := d'\<rparr>), Inr r))))"

definition my_reservations ::
  "config \<Rightarrow> timestamp \<Rightarrow> world \<Rightarrow> int \<Rightarrow> world \<times> reservation list \<times> reservation list" where
  "my_reservations cfg now w user_id =
     (let d = fst (expire_lapsed_reservations cfg now (w_db w) None None (Some user_id) None);
          joined = filter (\<lambda>r. exists_row (\<lambda>p. pl_id p = rs_plug_id r) (plugs d)) (reservations d)
      in (w\<lparr>w_db := d\<rparr>,
          sort_key rs_start_at (filter (upcoming now user_id) joined),
          take 20 (sort_key (\<lambda>r. (- rs_start_at r, - rs_id r))
            (filter (\<lambda>r. rs_user_id r = user_id \<and> (rs_status r \<noteq> RS_BOOKED \<or> rs_end_at r \<le> now)) joined))))"

definition cancel_reservation :: "world \<Rightarrow> int \<Rightarrow> user \<Rightarrow> world \<times> reservation response" where
  "cancel_reservation w reservation_id user =
     (case row_by rs_id reservation_id (reservations (w_db w)) of
        None \<Rightarrow> (w, Inl (HTTPException 404 ''Reservation not found.''))
      | Some reservation \<Rightarrow>
          (let is_owner = rs_user_id reservation = us_id user;
               is_tenant_operator = us_role user = ADMIN
                 \<or> (us_role user = CPO \<and> us_tenant_id user = Some (rs_tenant_id reservation))
           in if \<not> (is_owner \<or> is_tenant_operator) then (w, Inl (HTTPException 404 ''Reservation not found.''))
              else if rs_status reservation \<noteq> RS_BOOKED
              then (w, Inl (HTTPException 409 ''This reservation is not booked any more.''))
              else let d = upd_reservation reservation_id (\<lambda>r. r\<lparr>rs_status := RS_CANCELLED\<rparr>) (w_db w)
                   in (emit (if is_owner then []
                             else [Notify (rs_user_id reservation) ''reservation_cancelled'' ''warning''
                                     (Some (rs_plug_id reservation)) None]) (w\<lparr>w_db := d\<rparr>),
                       Inr (reservation\<lparr>rs_status := RS_CANCELLED\<rparr>))))"

text \<open>The plug's schedule: each booked window with whether the holder's name is shown.\<close>

definition plug_reservations ::
  "config \<Rightarrow> timestamp \<Rightarrow> world \<Rightarrow> int \<Rightarrow> int \<Rightarrow> world \<times> (reservation \<times> bool) list response" where
  "plug_reservations cfg now w plug_id user_id =
     (case row_by pl_id plug_id (plugs (w_db w)) of
        None \<Rightarrow> (w, Inl (HTTPException 404 ''Plug not found.''))
      | Some plug \<Rightarrow>
          case user_can_access_plug (w_db w) user_id plug of Inl err \<Rightarrow> (w, Inl err) | Inr access \<Rightarrow>
          if \<not> access then (w, Inl (HTTPException 403 ''You do not have access to this plug.''))
          else let reveal_identities =
                     (case pl_group_id plug of
                        None \<Rightarrow> False
                      | Some g \<Rightarrow> (case row_by cg_id g (charger_groups (w_db w)) of
                                    None \<Rightarrow> False | Some grp \<Rightarrow> \<not> cg_is_public grp));
                   d = fst (expire_lapsed_reservations cfg now (w_db w) (Some (pl_id plug)) None None None);
                   horizon = now + days_us (RESERVATION_MAX_ADVANCE_DAYS cfg);
                   rows = sort_key rs_start_at
                     (filter (\<lambda>r. rs_plug_id r = pl_id plug \<and> rs_status r = RS_BOOKED \<and> now < rs_end_at r
                                \<and> rs_start_at r < horizon \<and> exists_row (\<lambda>u. us_id u = rs_user_id r) (users d))
                       (reservations d))
               in (w\<lparr>w_db := d\<rparr>, Inr (map (\<lambda>r. (r, reveal_identities \<or> rs_user_id r = user_id)) rows)))"

text \<open>
  The calendar: two booked windows of one plug do not overlap.  \<open>calendar_step\<close> collects the
  operations that change reservations.  The start of a session fulfils the reservation that covers
  it and, when the gateway could not be reached, gives the window back in a second transaction
  (\<open>backend/services/session_start.py\<close>).  The code does not look at the calendar then; the step
  \<open>give_back\<close> is the case in which nobody has booked the window meanwhile, and \<open>give_back_double_books\<close>
  shows the other one.
\<close>

definition windows_disjoint :: "reservation \<Rightarrow> reservation \<Rightarrow> bool" where
  "windows_disjoint r r' \<longleftrightarrow> rs_end_at r \<le> rs_start_at r' \<or> rs_end_at r' \<le> rs_start_at r"

definition calendar_ok :: "db \<Rightarrow> bool" where
  "calendar_ok d \<longleftrightarrow> distinct (map rs_id (reservations d))
     \<and> list_all (\<lambda>r. list_all (\<lambda>r'. rs_id r \<noteq> rs_id r' \<longrightarrow> rs_plug_id r = rs_plug_id r'
           \<longrightarrow> rs_status r = RS_BOOKED \<longrightarrow> rs_status r' = RS_BOOKED \<longrightarrow> windows_disjoint r r')
         (reservations d)) (reservations d)"

definition give_back_window :: "int \<Rightarrow> db \<Rightarrow> db" where
  "give_back_window i d = upd_reservation i (\<lambda>r. r\<lparr>rs_status := RS_BOOKED, rs_session_id := None\<rparr>) d"

definition window_still_free :: "db \<Rightarrow> int \<Rightarrow> bool" where
  "window_still_free d i \<longleftrightarrow>
     list_all (\<lambda>r. rs_id r = i \<longrightarrow>
       \<not> exists_row (\<lambda>r'. rs_id r' \<noteq> i \<and> conflicts (rs_plug_id r) (rs_start_at r) (rs_end_at r) r') (reservations d)) (reservations d)"

inductive calendar_step :: "config \<Rightarrow> world \<Rightarrow> world \<Rightarrow> bool" for cfg where
  book: "calendar_step cfg w (fst (create_reservation cfg now w user_id plug_id start_at end_at))"
| cancel: "calendar_step cfg w (fst (cancel_reservation w reservation_id user))"
| my_list: "calendar_step cfg w (fst (my_reservations cfg now w user_id))"
| schedule: "calendar_step cfg w (fst (plug_reservations cfg now w plug_id user_id))"
| expire: "calendar_step cfg w (w\<lparr>w_db := fst (expire_lapsed_reservations cfg now (w_db w) p ps u t)\<rparr>)"
| fulfil: "calendar_step cfg w (w\<lparr>w_db := upd_reservation i
             (\<lambda>r. r\<lparr>rs_status := RS_FULFILLED, rs_session_id := s\<rparr>) (w_db w)\<rparr>)"
| give_back: "window_still_free (w_db w) i \<Longrightarrow> calendar_step cfg w (w\<lparr>w_db := give_back_window i (w_db w)\<rparr>)"

inductive_cases calendar_stepE [consumes 1, case_names book cancel my_list schedule expire fulfil give_back]:
  "calendar_step cfg w w'"

text \<open>Two drivers and a free plug; the first books its first hour, the second the hour after it.\<close>

definition booking_site :: world where
  "booking_site = empty_world\<lparr>w_db := empty_db\<lparr>users := [sample_user, sample_user\<lparr>us_id := 2\<rparr>], plugs := [sample_free_plug],
     gateways := [\<lparr>gw_id = ''gw'', gw_tenant_id = Some 1, gw_status = ONLINE, gw_last_seen_at = 0, gw_firmware_version = None,
       gw_claim_code = None, gw_claimed_at = None\<rparr>]\<rparr>\<rparr>"

definition one_booking :: world where
  "one_booking = fst (create_reservation default_config 0 booking_site 1 1 0 3600000000)"

definition two_bookings :: world where
  "two_bookings = fst (create_reservation default_config 0 one_booking 2 1 3600000000 7200000000)"

subsection \<open>Lemmas\<close>

lemma calendar_ok_iff:
  "calendar_ok d \<longleftrightarrow> distinct (map rs_id (reservations d))
     \<and> (\<forall>r \<in> set (reservations d). \<forall>r' \<in> set (reservations d). rs_id r \<noteq> rs_id r' \<longrightarrow> rs_plug_id r = rs_plug_id r'
           \<longrightarrow> rs_status r = RS_BOOKED \<longrightarrow> rs_status r' = RS_BOOKED \<longrightarrow> windows_disjoint r r')"
  by (simp add: calendar_ok_def list_all_iff)

lemma calendar_ok_update [row_intros]:
  assumes "calendar_ok d" "reservations d' = update_where P f (reservations d)"
    and keep: "\<And>r. r \<in> set (reservations d) \<Longrightarrow> P r \<Longrightarrow> rs_id (f r) = rs_id r \<and> rs_plug_id (f r) = rs_plug_id r \<and> rs_start_at (f r) = rs_start_at r
                \<and> rs_end_at (f r) = rs_end_at r \<and> (rs_status (f r) = RS_BOOKED \<longrightarrow> rs_status r = RS_BOOKED)"
  shows "calendar_ok d'"
proof -
  have "map rs_id (reservations d') = map rs_id (reservations d)"
    using keep unfolding assms(2) update_where_def by simp
  then have "distinct (map rs_id (reservations d'))" using assms(1) by (simp add: calendar_ok_iff)
  moreover have "\<exists>r0 \<in> set (reservations d). rs_id r = rs_id r0 \<and> rs_plug_id r = rs_plug_id r0
      \<and> rs_start_at r = rs_start_at r0 \<and> rs_end_at r = rs_end_at r0 \<and> (rs_status r = RS_BOOKED \<longrightarrow> rs_status r0 = RS_BOOKED)"
    if "r \<in> set (reservations d')" for r
    using that keep unfolding assms(2) set_update_where by fastforce
  ultimately show ?thesis
    using assms(1) unfolding calendar_ok_iff windows_disjoint_def by metis
qed

lemma expire_reservations:
  "reservations (fst (expire_lapsed_reservations cfg now d p ps u t)) =
     update_where (\<lambda>r. lapsed cfg now r \<and> in_scope p ps u t r) (\<lambda>r. r\<lparr>rs_status := RS_EXPIRED\<rparr>) (reservations d)"
  by (simp add: expire_lapsed_reservations_def Let_def)

lemma expire_frame [simp]:
  "users (fst (expire_lapsed_reservations cfg now d p ps u t)) = users d"
  "plugs (fst (expire_lapsed_reservations cfg now d p ps u t)) = plugs d"
  "gateways (fst (expire_lapsed_reservations cfg now d p ps u t)) = gateways d"
  "ledger (fst (expire_lapsed_reservations cfg now d p ps u t)) = ledger d"
  "charging_sessions (fst (expire_lapsed_reservations cfg now d p ps u t)) = charging_sessions d"
  "charger_groups (fst (expire_lapsed_reservations cfg now d p ps u t)) = charger_groups d"
  "tenants (fst (expire_lapsed_reservations cfg now d p ps u t)) = tenants d"
  "tariffs (fst (expire_lapsed_reservations cfg now d p ps u t)) = tariffs d"
  "tariff_slots (fst (expire_lapsed_reservations cfg now d p ps u t)) = tariff_slots d"
  "queued_charges (fst (expire_lapsed_reservations cfg now d p ps u t)) = queued_charges d"
  by (simp_all add: expire_lapsed_reservations_def Let_def)

lemma calendar_ok_expire: "calendar_ok d \<Longrightarrow> calendar_ok (fst (expire_lapsed_reservations cfg now d p ps u t))"
  by (rule calendar_ok_update [OF _ expire_reservations]) auto

lemma book_on_plug_InrD:
  assumes "book_on_plug cfg now d user_id plug_id start_at end_at = Inr (d', r)"
  obtains d2 where "d2 = fst (expire_lapsed_reservations cfg now d (Some plug_id) None None None)"
    "reservations d' = reservations d2 @ [r]" "rs_id r = fresh_id rs_id (reservations d2)"
    "rs_plug_id r = plug_id" "rs_user_id r = user_id" "rs_start_at r = start_at" "rs_end_at r = end_at"
    "rs_status r = RS_BOOKED" "\<not> exists_row (conflicts plug_id start_at end_at) (reservations d2)"
proof -
  obtain plug where plug: "row_by pl_id plug_id (plugs d) = Some plug" "pl_id plug = plug_id"
    using assms by (auto simp: book_on_plug_def split: option.splits sum.splits dest: row_by_SomeD)
  let ?d2 = "fst (expire_lapsed_reservations cfg now d (Some plug_id) None None None)"
  have "reservations d' = reservations ?d2 @ [r] \<and> rs_id r = fresh_id rs_id (reservations ?d2)
      \<and> rs_plug_id r = plug_id \<and> rs_user_id r = user_id \<and> rs_start_at r = start_at \<and> rs_end_at r = end_at
      \<and> rs_status r = RS_BOOKED \<and> \<not> exists_row (conflicts plug_id start_at end_at) (reservations ?d2)"
    using assms plug by (auto simp: book_on_plug_def Let_def split: if_splits option.splits sum.splits)
  then show thesis using that by blast
qed

lemma calendar_ok_book:
  assumes "calendar_ok d" "book_on_plug cfg now d user_id plug_id start_at end_at = Inr (d', r)"
  shows "calendar_ok d'"
proof -
  obtain d2 where d2: "d2 = fst (expire_lapsed_reservations cfg now d (Some plug_id) None None None)"
    "reservations d' = reservations d2 @ [r]" "rs_id r = fresh_id rs_id (reservations d2)"
    "rs_plug_id r = plug_id" "rs_start_at r = start_at" "rs_end_at r = end_at"
    "\<not> exists_row (conflicts plug_id start_at end_at) (reservations d2)"
    using book_on_plug_InrD [OF assms(2)] by metis
  have ok: "calendar_ok d2" using assms(1) d2(1) calendar_ok_expire by simp
  have "windows_disjoint r r' \<and> windows_disjoint r' r"
    if "r' \<in> set (reservations d2)" "rs_plug_id r' = plug_id" "rs_status r' = RS_BOOKED" for r'
    using d2(4-7) that by (auto simp: exists_row_iff conflicts_def windows_disjoint_def not_less)
  moreover have "distinct (map rs_id (reservations d2 @ [r]))"
    using ok d2(3) by (intro distinct_insert_fresh) (simp_all add: calendar_ok_iff)
  ultimately show ?thesis using ok d2(2,4) unfolding calendar_ok_iff by auto
qed

lemma create_reservation_cases:
  assumes "create_reservation cfg now w user_id plug_id start_at end_at = (w', res)"
  obtains (refused) err where "w' = w" "res = Inl err"
  | (booked) d1 d' r where "d1 = fst (expire_lapsed_reservations cfg now (w_db w) None None (Some user_id) None)"
      "int (count_where (upcoming now user_id) (reservations d1)) < MAX_UPCOMING_RESERVATIONS_PER_USER cfg"
      "book_on_plug cfg now d1 user_id plug_id start_at end_at = Inr (d', r)"
      "check_window cfg now start_at end_at = Inr ()" "w_db w' = d'" "res = Inr r"
  using assms
  by (auto simp: create_reservation_def Let_def not_le split: sum.splits option.splits if_splits)

lemma calendar_ok_give_back:
  assumes ok: "calendar_ok d" and free: "window_still_free d i"
  shows "calendar_ok (give_back_window i d)"
proof -
  let ?f = "\<lambda>r. r\<lparr>rs_status := RS_BOOKED, rs_session_id := None\<rparr>"
  have rows: "reservations (give_back_window i d) = update_where (\<lambda>r. rs_id r = i) ?f (reservations d)"
    by (simp add: give_back_window_def)
  have apart: "windows_disjoint r r' \<and> windows_disjoint r' r" if "r \<in> set (reservations d)" "rs_id r = i" "r' \<in> set (reservations d)"
      "rs_id r' \<noteq> i" "rs_plug_id r' = rs_plug_id r" "rs_status r' = RS_BOOKED" for r r'
    using free that by (auto simp: window_still_free_def list_all_iff exists_row_iff conflicts_def windows_disjoint_def not_less)
  have orig: "\<exists>r0 \<in> set (reservations d). rs_id r = rs_id r0 \<and> rs_plug_id r = rs_plug_id r0 \<and> rs_start_at r = rs_start_at r0
      \<and> rs_end_at r = rs_end_at r0 \<and> (rs_id r0 \<noteq> i \<longrightarrow> rs_status r0 = rs_status r)"
    if "r \<in> set (reservations (give_back_window i d))" for r
    using that unfolding rows set_update_where by fastforce
  have "windows_disjoint r r'" if booked: "r \<in> set (reservations (give_back_window i d))" "r' \<in> set (reservations (give_back_window i d))"
      "rs_id r \<noteq> rs_id r'" "rs_plug_id r = rs_plug_id r'" "rs_status r = RS_BOOKED" "rs_status r' = RS_BOOKED" for r r'
  proof -
    obtain q q' where q: "q \<in> set (reservations d)" "rs_id r = rs_id q" "rs_plug_id r = rs_plug_id q" "rs_start_at r = rs_start_at q"
        "rs_end_at r = rs_end_at q" "rs_id q \<noteq> i \<longrightarrow> rs_status q = rs_status r"
      and q': "q' \<in> set (reservations d)" "rs_id r' = rs_id q'" "rs_plug_id r' = rs_plug_id q'" "rs_start_at r' = rs_start_at q'"
        "rs_end_at r' = rs_end_at q'" "rs_id q' \<noteq> i \<longrightarrow> rs_status q' = rs_status r'"
      using orig [of r] orig [of r'] booked(1,2) by blast
    have "windows_disjoint q q'"
      using ok apart [of q q'] apart [of q' q] q q' booked(3-6) unfolding calendar_ok_iff by metis
    then show ?thesis using q q' by (simp add: windows_disjoint_def)
  qed
  moreover have "distinct (map rs_id (reservations (give_back_window i d)))"
    using ok by (simp add: rows map_update_where calendar_ok_iff)
  ultimately show ?thesis unfolding calendar_ok_iff by blast
qed

text \<open>
  A reservation fulfilled by a start, its window booked by another driver while the start waits for
  the gateway, and then given back: the plug is booked twice.
\<close>

lemma give_back_double_books:
  "calendar_ok (w_db one_booking)
     \<and> \<not> calendar_ok (give_back_window 1 (w_db (fst (create_reservation default_config 0
         (one_booking\<lparr>w_db := upd_reservation 1 (\<lambda>r. r\<lparr>rs_status := RS_FULFILLED, rs_session_id := Some 1\<rparr>) (w_db one_booking)\<rparr>)
         2 1 0 3600000000))))"
  by code_simp

lemma calendar_step_ok:
  assumes "calendar_ok (w_db w)" "calendar_step cfg w w'"
  shows "calendar_ok (w_db w')"
  using assms(2)
proof (cases rule: calendar_stepE)
  case (book now user_id plug_id start_at end_at)
  obtain res where "create_reservation cfg now w user_id plug_id start_at end_at = (w', res)"
    using book by (metis prod.collapse)
  then show ?thesis
  proof (cases rule: create_reservation_cases)
    case (booked d1 d' r)
    then show ?thesis using calendar_ok_book [OF calendar_ok_expire [OF assms(1)]] by simp
  qed (use assms(1) in simp)
next
  case (cancel i user)
  have "w_db w' = w_db w \<or> w_db w' = upd_reservation i (\<lambda>r. r\<lparr>rs_status := RS_CANCELLED\<rparr>) (w_db w)"
    by (simp add: cancel cancel_reservation_def Let_def split: option.split)
  then show ?thesis
  proof
    assume "w_db w' = upd_reservation i (\<lambda>r. r\<lparr>rs_status := RS_CANCELLED\<rparr>) (w_db w)"
    then show ?thesis
      by (intro calendar_ok_update [OF assms(1), of _ "\<lambda>r. rs_id r = i" "\<lambda>r. r\<lparr>rs_status := RS_CANCELLED\<rparr>"]) simp_all
  qed (use assms(1) in simp)
next
  case (my_list now user_id)
  then show ?thesis using assms(1) by (simp add: my_reservations_def Let_def calendar_ok_expire)
next
  case (schedule now plug_id user_id)
  then show ?thesis using assms(1)
    by (simp add: plug_reservations_def Let_def calendar_ok_expire split: option.split sum.split)
next
  case (expire now p ps u t)
  then show ?thesis using assms(1) by (simp add: calendar_ok_expire)
next
  case (fulfil i s)
  show ?thesis
    by (rule calendar_ok_update [OF assms(1), of _ "\<lambda>r. rs_id r = i"
          "\<lambda>r. r\<lparr>rs_status := RS_FULFILLED, rs_session_id := s\<rparr>"]) (simp_all add: fulfil)
next
  case (give_back i)
  then show ?thesis using assms(1) by (simp add: calendar_ok_give_back)
qed

interpretation calendar: transition_invariant "\<lambda>w. calendar_ok (w_db w)" "calendar_step cfg" "\<lambda>w. calendar_ok (w_db w)"
  for cfg
  by unfold_locales (auto intro: calendar_step_ok)

lemma count_upcoming_expire:
  "count_where (upcoming now u) (reservations (fst (expire_lapsed_reservations cfg now d p ps v t)))
     \<le> count_where (upcoming now u) (reservations d)"
  unfolding expire_reservations by (rule count_where_update_le) (simp add: upcoming_def)

subsection \<open>Properties\<close>

text \<open>
  C5. No double booking: from a calendar without overlaps, whatever sequence of bookings,
  cancellations, listings, expiries, fulfilments by a starting session and returns of a fulfilled
  window that nobody else has booked meanwhile is executed, two different booked windows of one
  plug never intersect.  The condition on returns is one the code does not check;
  \<open>give_back_double_books\<close> is what happens without it.
\<close>

theorem calendar_never_double_booked:
  assumes "reachable (\<lambda>w. calendar_ok (w_db w)) (calendar_step cfg) w"
    and "r \<in> set (reservations (w_db w))" "r' \<in> set (reservations (w_db w))" "rs_id r \<noteq> rs_id r'"
    and "rs_plug_id r = rs_plug_id r'" "rs_status r = RS_BOOKED" "rs_status r' = RS_BOOKED"
  shows "rs_end_at r \<le> rs_start_at r' \<or> rs_end_at r' \<le> rs_start_at r"
  using calendar.inv_reachable [OF assms(1)] assms(2-) unfolding calendar_ok_iff windows_disjoint_def by blast

theorem calendar_never_double_booked_witness:
  "map (\<lambda>r. (rs_user_id r, rs_status r)) (reservations (w_db two_bookings)) = [(1, RS_BOOKED), (2, RS_BOOKED)]
   \<and> rs_end_at (reservations (w_db two_bookings) ! 0) \<le> rs_start_at (reservations (w_db two_bookings) ! 1)"
proof -
  have init: "calendar_ok (w_db booking_site)" by code_simp
  have rows: "map (\<lambda>r. (rs_user_id r, rs_status r)) (reservations (w_db two_bookings)) = [(1, RS_BOOKED), (2, RS_BOOKED)]"
    "rs_id (reservations (w_db two_bookings) ! 0) \<noteq> rs_id (reservations (w_db two_bookings) ! 1)"
    "rs_plug_id (reservations (w_db two_bookings) ! 0) = rs_plug_id (reservations (w_db two_bookings) ! 1)"
    "\<not> rs_end_at (reservations (w_db two_bookings) ! 1) \<le> rs_start_at (reservations (w_db two_bookings) ! 0)" by code_simp+
  have len: "length (reservations (w_db two_bookings)) = 2" using arg_cong [OF rows(1), of length] by simp
  have status: "rs_status (reservations (w_db two_bookings) ! i) = RS_BOOKED" if "i < 2" for i
    using arg_cong [OF rows(1), of "\<lambda>xs. snd (xs ! i)"] that len by (cases i) (auto simp: less_2_cases_iff)
  have "reachable (\<lambda>w. calendar_ok (w_db w)) (calendar_step default_config) booking_site" using init by (rule reachable.start)
  then have "reachable (\<lambda>w. calendar_ok (w_db w)) (calendar_step default_config) one_booking"
    unfolding one_booking_def by (rule reachable.extend) (rule calendar_step.book)
  then have "reachable (\<lambda>w. calendar_ok (w_db w)) (calendar_step default_config) two_bookings"
    unfolding two_bookings_def by (rule reachable.extend) (rule calendar_step.book)
  from calendar_never_double_booked [OF this _ _ rows(2,3)] rows len status show ?thesis by auto
qed

text \<open>
  C30. A booking that succeeds respects the policy: the window has a legal length and start, the
  booked window is the requested one, it belongs to the caller, the caller is afterwards within
  the limit of upcoming bookings, and a refused request changes nothing.
\<close>

theorem create_reservation_policy:
  assumes "create_reservation cfg now w user_id plug_id start_at end_at = (w', res)"
  shows "case res of
       Inl err \<Rightarrow> w' = w
     | Inr r \<Rightarrow> r \<in> set (reservations (w_db w')) \<and> rs_user_id r = user_id \<and> rs_plug_id r = plug_id
         \<and> rs_start_at r = start_at \<and> rs_end_at r = end_at \<and> rs_status r = RS_BOOKED
         \<and> minutes_us RESERVATION_MIN_MINUTES \<le> end_at - start_at
         \<and> end_at - start_at \<le> hours_us (RESERVATION_MAX_HOURS cfg)
         \<and> now - minutes_us RESERVATION_START_GRACE_MIN \<le> start_at
         \<and> start_at \<le> now + days_us (RESERVATION_MAX_ADVANCE_DAYS cfg)
         \<and> int (count_where (upcoming now user_id) (reservations (w_db w'))) \<le> MAX_UPCOMING_RESERVATIONS_PER_USER cfg"
  using assms
proof (cases rule: create_reservation_cases)
  case (booked d1 d' r)
  obtain d2 where d2: "d2 = fst (expire_lapsed_reservations cfg now d1 (Some plug_id) None None None)"
    "reservations d' = reservations d2 @ [r]" "rs_plug_id r = plug_id" "rs_user_id r = user_id"
    "rs_start_at r = start_at" "rs_end_at r = end_at" "rs_status r = RS_BOOKED"
    using book_on_plug_InrD [OF booked(3)] by metis
  have "count_where (upcoming now user_id) (reservations d2) \<le> count_where (upcoming now user_id) (reservations d1)"
    unfolding d2(1) by (rule count_upcoming_expire)
  then have "int (count_where (upcoming now user_id) (reservations d')) \<le> MAX_UPCOMING_RESERVATIONS_PER_USER cfg"
    using booked(2) d2(2) by simp
  moreover have "minutes_us RESERVATION_MIN_MINUTES \<le> end_at - start_at
      \<and> end_at - start_at \<le> hours_us (RESERVATION_MAX_HOURS cfg)
      \<and> now - minutes_us RESERVATION_START_GRACE_MIN \<le> start_at
      \<and> start_at \<le> now + days_us (RESERVATION_MAX_ADVANCE_DAYS cfg)"
    using booked(4) by (auto simp: check_window_def split: if_splits)
  ultimately show ?thesis using booked d2 by simp
qed simp

theorem create_reservation_policy_witness:
  "\<exists>r. create_reservation default_config 0 booking_site 1 1 0 3600000000 = (one_booking, Inr r)
     \<and> r \<in> set (reservations (w_db one_booking)) \<and> rs_user_id r = 1 \<and> rs_start_at r = 0 \<and> rs_end_at r = 3600000000
     \<and> int (count_where (upcoming 0 1) (reservations (w_db one_booking))) \<le> MAX_UPCOMING_RESERVATIONS_PER_USER default_config"
proof -
  have "map_sum (\<lambda>_. ()) rs_id (snd (create_reservation default_config 0 booking_site 1 1 0 3600000000)) = Inr 1" by code_simp
  then obtain r where r: "create_reservation default_config 0 booking_site 1 1 0 3600000000 = (one_booking, Inr r)"
    unfolding one_booking_def by (cases "create_reservation default_config 0 booking_site 1 1 0 3600000000") (auto simp: map_sum_def split: sum.splits)
  from create_reservation_policy [OF r] r show ?thesis by auto
qed

text \<open>
  Lazy expiry is complete and stable: afterwards no booked reservation in scope is lapsed, the
  returned count is the number of rows flipped, rows outside the scope or not lapsed are
  untouched, and running it again at the same instant changes nothing.
\<close>

lemma expire_lapsed_complete:
  "let (d', n) = expire_lapsed_reservations cfg now d p ps u t in
     count_where (\<lambda>r. lapsed cfg now r \<and> in_scope p ps u t r) (reservations d') = 0
   \<and> n = count_where (\<lambda>r. lapsed cfg now r \<and> in_scope p ps u t r) (reservations d)
   \<and> reservations d' = map (\<lambda>r. if lapsed cfg now r \<and> in_scope p ps u t r then r\<lparr>rs_status := RS_EXPIRED\<rparr> else r) (reservations d)
   \<and> expire_lapsed_reservations cfg now d' p ps u t = (d', 0)"
proof -
  define hit where "hit r \<longleftrightarrow> lapsed cfg now r \<and> in_scope p ps u t r" for r
  let ?f = "\<lambda>r. r\<lparr>rs_status := RS_EXPIRED\<rparr>"
  have run: "expire_lapsed_reservations cfg now e p ps u t =
      (e\<lparr>reservations := update_where hit ?f (reservations e)\<rparr>, count_where hit (reservations e))" for e
    by (simp only: expire_lapsed_reservations_def Let_def hit_def [abs_def])
  have "\<not> hit (?f r)" for r by (simp add: hit_def lapsed_def)
  then have none: "\<not> hit r" if "r \<in> set (update_where hit ?f (reservations d))" for r
    using that unfolding set_update_where by (auto split: if_splits)
  define rs where "rs = update_where hit ?f (reservations d)"
  have "count_where hit rs = 0" unfolding count_where_0_iff rs_def using none by (intro ballI)
  moreover have "update_where hit ?f rs = rs" unfolding rs_def by (rule update_where_id) (rule none)
  moreover have "rs = map (\<lambda>r. if hit r then ?f r else r) (reservations d)" by (simp only: rs_def update_where_def)
  ultimately show ?thesis unfolding hit_def [symmetric] run rs_def [symmetric] by simp
qed

end
