(* ===== verification/Session_Start.thy ===== *)
theory Session_Start
  imports Lifecycle Pricing Reservations
begin

text \<open>
  Starting a session (\<open>backend/services/session_start.py\<close>, the firmware sentinels of
  \<open>backend/services/mqtt_manager.py\<close>).

  \<open>begin_active_session\<close> commits the claim of the plug before it publishes the ON command, and
  undoes the claim when the publish fails.  The two transactions are \<open>claim_session\<close> and
  \<open>confirm_start\<close>; other requests may run between them.
\<close>

subsection \<open>Definitions\<close>

definition queued_charging_enabled :: "tenant \<Rightarrow> plug option \<Rightarrow> bool" where
  "queued_charging_enabled tenant plug =
     (case plug of
        None \<Rightarrow> tn_queued_charging_enabled tenant
      | Some p \<Rightarrow> (case pl_queued_charging_enabled p of
                    Some b \<Rightarrow> b | None \<Rightarrow> tn_queued_charging_enabled tenant))"

definition auto_start_delay :: "tenant \<Rightarrow> plug option \<Rightarrow> int" where
  "auto_start_delay tenant plug =
     (case plug of
        None \<Rightarrow> tn_auto_start_delay_min tenant
      | Some p \<Rightarrow> (case pl_auto_start_delay_min p of
                    Some m \<Rightarrow> m | None \<Rightarrow> tn_auto_start_delay_min tenant))"

definition queue_ttl :: "tenant \<Rightarrow> plug option \<Rightarrow> int" where
  "queue_ttl tenant plug = tn_queue_ttl_min tenant"

definition firmware_duration :: "config \<Rightarrow> int option \<Rightarrow> int" where
  "firmware_duration cfg max_duration_seconds =
     (case max_duration_seconds of Some s \<Rightarrow> s | None \<Rightarrow> UNLIMITED_DURATION_SECONDS cfg)"

definition firmware_max_kwh :: "config \<Rightarrow> pyfloat option \<Rightarrow> pyfloat" where
  "firmware_max_kwh cfg max_kwh = (case max_kwh of Some k \<Rightarrow> k | None \<Rightarrow> UNLIMITED_MAX_KWH cfg)"

definition duration_or_day :: "int option \<Rightarrow> int" where
  "duration_or_day max_duration_seconds =
     (case max_duration_seconds of Some s \<Rightarrow> (if s = 0 then 24 * 3600 else s) | None \<Rightarrow> 24 * 3600)"

definition size_hold :: "money \<Rightarrow> pyfloat option \<Rightarrow> money \<Rightarrow> money" where
  "size_hold available max_kwh max_rate =
     (case max_kwh of
        None \<Rightarrow> to_money_m available
      | Some k \<Rightarrow> to_money_m (min available (energy_cost k (Finite (money_dec max_rate)))))"

definition new_session ::
  "timestamp \<Rightarrow> db \<Rightarrow> int \<Rightarrow> int \<Rightarrow> int \<Rightarrow> money \<Rightarrow> money \<Rightarrow> timestamp option \<Rightarrow> pyfloat option \<Rightarrow> int option \<Rightarrow> charging_session" where
  "new_session now d tenant_id user_id plug_id rate hold rate_valid_until max_kwh max_duration_seconds =
     \<lparr>cs_id = fresh_id cs_id (charging_sessions d), cs_tenant_id = tenant_id, cs_user_id = user_id,
      cs_plug_id = plug_id, cs_started_at = now, cs_ended_at = None, cs_energy_kwh = 0, cs_peak_power_w = 0,
      cs_last_telemetry_at = None, cs_coins_spent = 0, cs_rate_coins_per_kwh = Some rate,
      cs_hold_coins = Some hold, cs_status = ACTIVE, cs_max_kwh = max_kwh,
      cs_max_duration_seconds = max_duration_seconds, cs_settled_cost_coins = Some ZERO_MONEY,
      cs_rate_segment_start_kwh = Some 0, cs_rate_valid_until = rate_valid_until,
      cs_settled_payout_id = None, cs_energy_counter_last_raw_kwh = None, cs_energy_reset_offset_kwh = 0\<rparr>"

definition claimed_db :: "db \<Rightarrow> charging_session \<Rightarrow> reservation option \<Rightarrow> db" where
  "claimed_db d session covering =
     (let d1 = d\<lparr>charging_sessions := charging_sessions d @ [session]\<rparr>;
          d2 = (case covering of
                  None \<Rightarrow> d1
                | Some r \<Rightarrow> upd_reservation (rs_id r)
                    (\<lambda>r. r\<lparr>rs_status := RS_FULFILLED, rs_session_id := Some (cs_id session)\<rparr>) d1)
      in upd_plug (cs_plug_id session) (\<lambda>p. p\<lparr>pl_status := OCCUPIED\<rparr>) d2)"

definition claim_session ::
  "config \<Rightarrow> zones \<Rightarrow> timestamp \<Rightarrow> db \<Rightarrow> int \<Rightarrow> plug \<Rightarrow> gateway \<Rightarrow> pyfloat option \<Rightarrow> int option
     \<Rightarrow> reservation option \<Rightarrow> (db \<times> charging_session) response" where
  "claim_session cfg zones now d user_id plug gateway max_kwh max_duration_seconds covering =
     (case check_circuit_admission cfg d plug of
        Inl err \<Rightarrow> Inl err
      | Inr _ \<Rightarrow>
          (let (rate, rate_valid_until) = resolve_rate_window cfg zones d plug now;
               available = available_balance d user_id
           in if money_dec available < MIN_START_BALANCE_COINS cfg
              then Inl (HTTPException 402 ''Insufficient available balance.'')
              else let max_rate = max_rate_over_window cfg zones d plug now (duration_or_day max_duration_seconds);
                       hold = size_hold available max_kwh max_rate
                   in case gw_tenant_id gateway of
                        None \<Rightarrow> Inl IntegrityError
                      | Some tenant_id \<Rightarrow>
                          (let session = new_session now d tenant_id user_id (pl_id plug) rate hold
                                 rate_valid_until max_kwh max_duration_seconds
                           in Inr (claimed_db d session covering, session))))"

definition unclaimed_db :: "timestamp \<Rightarrow> db \<Rightarrow> charging_session \<Rightarrow> reservation option \<Rightarrow> db" where
  "unclaimed_db now d session covering =
     (let d1 = upd_session (cs_id session) (\<lambda>s. s\<lparr>cs_status := CANCELLED, cs_ended_at := Some now\<rparr>) d;
          d2 = upd_plug (cs_plug_id session) (\<lambda>p. p\<lparr>pl_status := AVAILABLE\<rparr>) d1
      in case covering of
           None \<Rightarrow> d2
         | Some r \<Rightarrow> upd_reservation (rs_id r) (\<lambda>r. r\<lparr>rs_status := RS_BOOKED, rs_session_id := None\<rparr>) d2)"

definition confirm_start ::
  "config \<Rightarrow> timestamp \<Rightarrow> world \<Rightarrow> charging_session \<Rightarrow> plug \<Rightarrow> reservation option \<Rightarrow> bool
     \<Rightarrow> world \<times> charging_session response" where
  "confirm_start cfg now w session plug covering publish_ok =
     (if \<not> publish_ok
      then (emit [Emit_Plug_Status (pl_id plug) AVAILABLE]
              (w\<lparr>w_db := unclaimed_db now (w_db w) session covering\<rparr>),
            Inl (HTTPException 500 ''Failed to publish start command to the gateway.''))
      else let w1 = emit [Plug_On (pl_gateway_id plug) (pl_id plug) (firmware_duration cfg (cs_max_duration_seconds session))
                            (firmware_max_kwh cfg (cs_max_kwh session)) (cs_id session) (effective_plug_cap cfg plug)] w;
               w2 = w1\<lparr>w_store := start_session (total_seconds now) (w_store w1) (pl_id plug)
                         (map_option (\<lambda>r. Finite (money_dec r)) (cs_rate_coins_per_kwh session))\<rparr>
           in (set_plug_telemetry_interval w2 (pl_id plug) 1000, Inr session))"

definition begin_active_session ::
  "config \<Rightarrow> zones \<Rightarrow> timestamp \<Rightarrow> world \<Rightarrow> db \<Rightarrow> int \<Rightarrow> plug \<Rightarrow> gateway \<Rightarrow> pyfloat option \<Rightarrow> int option
     \<Rightarrow> reservation option \<Rightarrow> bool \<Rightarrow> world \<times> charging_session response" where
  "begin_active_session cfg zones now w d user_id plug gateway max_kwh max_duration_seconds covering publish_ok =
     (case claim_session cfg zones now d user_id plug gateway max_kwh max_duration_seconds covering of
        Inl err \<Rightarrow> (w, Inl err)
      | Inr (d', session) \<Rightarrow>
          confirm_start cfg now (emit [Emit_Plug_Status (pl_id plug) OCCUPIED] (w\<lparr>w_db := d'\<rparr>))
            session plug covering publish_ok)"

text \<open>
  In \<open>begin_active_session\<close>, \<open>w\<close> is the committed state and \<open>d\<close> the caller's open transaction on it:
  a refusal rolls back to \<open>w\<close>, the claim commits \<open>d\<close> with the session in it.

  The occupancy invariant: a running session's plug is not offered as available, and no plug has
  two running sessions.
\<close>

definition occupancy_ok :: "db \<Rightarrow> bool" where
  "occupancy_ok d \<longleftrightarrow>
     list_all (\<lambda>s. cs_status s = ACTIVE \<longrightarrow>
       list_all (\<lambda>p. pl_id p = cs_plug_id s \<longrightarrow> pl_status p \<noteq> AVAILABLE) (plugs d)
       \<and> list_all (\<lambda>s'. cs_status s' = ACTIVE \<and> cs_plug_id s' = cs_plug_id s \<longrightarrow> cs_id s' = cs_id s) (charging_sessions d))
     (charging_sessions d)"

definition system_ok :: "config \<Rightarrow> db \<Rightarrow> bool" where
  "system_ok cfg d \<longleftrightarrow> money_ok d \<and> occupancy_ok d \<and> circuit_ok cfg d \<and> caps_sane cfg d \<and> calendar_ok d"

definition request_ok :: "pyfloat option \<Rightarrow> bool" where
  "request_ok max_kwh = (case max_kwh of None \<Rightarrow> True | Some k \<Rightarrow> is_float k \<and> 0 \<le> k)"

text \<open>Two drivers with 100.00 coins each at the one-plug site, its gateway online.\<close>

definition two_drivers :: world where
  "two_drivers = empty_world\<lparr>w_db := sample_site\<lparr>users := [sample_user, sample_user\<lparr>us_id := 2\<rparr>]\<rparr>\<rparr>"

definition sample_gateway :: gateway where
  "sample_gateway = \<lparr>gw_id = ''gw'', gw_tenant_id = Some 1, gw_status = ONLINE, gw_last_seen_at = 0, gw_firmware_version = None,
       gw_claim_code = None, gw_claimed_at = None\<rparr>"

text \<open>
  The interleaving of a stop and a second start into the gap between the two transactions of a
  start whose publish fails: driver 1 claims the plug, stops, driver 2 starts on the freed plug,
  and then driver 1's failed publish is rolled back.
\<close>

definition overlapped_start :: "config \<Rightarrow> zones \<Rightarrow> timestamp \<Rightarrow> world \<Rightarrow> plug \<Rightarrow> gateway \<Rightarrow> world option" where
  "overlapped_start cfg zones now w plug gw =
     (case claim_session cfg zones now (w_db w) 1 plug gw None None None of
        Inl _ \<Rightarrow> None
      | Inr (d1, s1) \<Rightarrow>
          (let w1 = w\<lparr>w_db := d1\<rparr>;
               w2 = fst (finalize_charging_session cfg now w1 (cs_id s1) (Some 1) None)
           in case begin_active_session cfg zones now w2 (w_db w2) 2 plug gw None None None True of
                (w3, Inl _) \<Rightarrow> None
              | (w3, Inr s2) \<Rightarrow> Some (fst (confirm_start cfg now w3 s1 plug None False))))"

subsection \<open>Sizing the hold\<close>

lemma available_balance_eq:
  assumes "money_ok d" "balance_of d u = Some b"
  shows "available_balance d u = b - held_coins d u" "0 \<le> b - held_coins d u" "b - held_coins d u \<le> MAX_MONEY"
proof -
  have b: "0 \<le> b" "b \<le> MAX_MONEY" using assms balances_ok_balance by (auto simp: money_ok_def)
  have h: "0 \<le> held_coins d u" unfolding held_coins_def
    using assms(1) by (intro sum_where_nonneg) (auto simp: money_ok_def holds_ok_def list_all_iff)
  show le: "0 \<le> b - held_coins d u"
    using assms by (auto simp: money_ok_def holds_ok_def list_all_iff balance_of_def dest!: row_by_SomeD)
  show "b - held_coins d u \<le> MAX_MONEY" using b h by simp
  with le show "available_balance d u = b - held_coins d u"
    by (simp add: available_balance_def assms(2) to_money_m_id)
qed

lemma size_hold_bounds:
  assumes "0 \<le> available" "available \<le> MAX_MONEY" "request_ok max_kwh" "0 \<le> max_rate"
  shows "0 \<le> size_hold available max_kwh max_rate" "size_hold available max_kwh max_rate \<le> available"
proof -
  have r: "0 \<le> to_money (Finite (money_dec max_rate))"
    using assms(4) by (intro to_money_nonneg) (simp add: money_dec_def)
  have c: "0 \<le> energy_cost k (Finite (money_dec max_rate))" if "max_kwh = Some k" for k
    using assms(3) that r by (intro energy_cost_nonneg) (simp_all add: request_ok_def)
  show "0 \<le> size_hold available max_kwh max_rate" "size_hold available max_kwh max_rate \<le> available"
    using assms(1,2) c
    by (auto simp: size_hold_def to_money_m_clamp clamp_money_id clamp_money_nonneg
        intro: order_trans [OF clamp_money_le] split: option.splits)
qed

lemma size_hold_covers:
  assumes "0 \<le> available" "available \<le> MAX_MONEY" "is_float k" "0 \<le> k" "0 \<le> max_rate" "max_rate \<le> MAX_MONEY"
    and "is_float e" "0 \<le> e" "e \<le> k" "0 \<le> r" "r \<le> max_rate"
  shows "min (energy_cost e (Finite (money_dec r))) available \<le> size_hold available (Some k) max_rate"
proof -
  have t: "to_money (Finite (money_dec m)) = m" if "0 \<le> m" "m \<le> MAX_MONEY" for m
    using that to_money_m_id [of m] by (simp add: to_money_m_def)
  have "energy_cost e (Finite (money_dec r)) \<le> energy_cost k (Finite (money_dec max_rate))"
    using assms energy_cost_mono [of e k "Finite (money_dec r)"] energy_cost_mono_rate [of k "Finite (money_dec r)" "Finite (money_dec max_rate)"]
    by (simp add: t)
  moreover have "\<bar>min available (energy_cost k (Finite (money_dec max_rate)))\<bar> \<le> MAX_MONEY"
    using assms(1,2) energy_cost_bounds [of k "Finite (money_dec max_rate)"] by auto
  ultimately show ?thesis by (auto simp: size_hold_def to_money_m_clamp clamp_money_id)
qed

subsection \<open>The claim keeps the money invariant\<close>

lemma claimed_db_simps [simp]:
  "users (claimed_db d s c) = users d" "ledger (claimed_db d s c) = ledger d"
  "charging_sessions (claimed_db d s c) = charging_sessions d @ [s]"
  "plugs (claimed_db d s c) = update_where (\<lambda>r. pl_id r = cs_plug_id s) (\<lambda>p. p\<lparr>pl_status := OCCUPIED\<rparr>) (plugs d)"
  "reservations (claimed_db d s c) = (case c of None \<Rightarrow> reservations d | Some r \<Rightarrow>
     update_where (\<lambda>x. rs_id x = rs_id r) (\<lambda>x. x\<lparr>rs_status := RS_FULFILLED, rs_session_id := Some (cs_id s)\<rparr>) (reservations d))"
  "charger_groups (claimed_db d s c) = charger_groups d"
  "tariffs (claimed_db d s c) = tariffs d"
  "tariff_slots (claimed_db d s c) = tariff_slots d"
  "queued_charges (claimed_db d s c) = queued_charges d"
  "gateways (claimed_db d s c) = gateways d"
  "tenants (claimed_db d s c) = tenants d"
  by (cases c; simp add: claimed_db_def Let_def upd_plug_def upd_reservation_def)+

lemma unclaimed_db_simps [simp]:
  "users (unclaimed_db now d s c) = users d" "ledger (unclaimed_db now d s c) = ledger d"
  "charging_sessions (unclaimed_db now d s c) = update_where (\<lambda>r. cs_id r = cs_id s)
     (\<lambda>s. s\<lparr>cs_status := CANCELLED, cs_ended_at := Some now\<rparr>) (charging_sessions d)"
  "plugs (unclaimed_db now d s c) = update_where (\<lambda>r. pl_id r = cs_plug_id s) (\<lambda>p. p\<lparr>pl_status := AVAILABLE\<rparr>) (plugs d)"
  "reservations (unclaimed_db now d s c) = (case c of None \<Rightarrow> reservations d | Some r \<Rightarrow>
     update_where (\<lambda>x. rs_id x = rs_id r) (\<lambda>x. x\<lparr>rs_status := RS_BOOKED, rs_session_id := None\<rparr>) (reservations d))"
  "charger_groups (unclaimed_db now d s c) = charger_groups d"
  "tariffs (unclaimed_db now d s c) = tariffs d"
  "tariff_slots (unclaimed_db now d s c) = tariff_slots d"
  "queued_charges (unclaimed_db now d s c) = queued_charges d"
  "gateways (unclaimed_db now d s c) = gateways d"
  "tenants (unclaimed_db now d s c) = tenants d"
  by (cases c; simp add: unclaimed_db_def Let_def upd_plug_def upd_session_def upd_reservation_def)+

lemma row_by_map_key: "map key xs = map key ys \<Longrightarrow> row_by key i xs = None \<longleftrightarrow> row_by key i ys = None"
  unfolding row_by_None_iff by (metis list.set_map)

lemma money_ok_claimed:
  assumes ok: "money_ok d" and b: "balance_of d (cs_user_id s) = Some b" and plug: "row_by pl_id (cs_plug_id s) (plugs d) \<noteq> None"
    and s: "cs_id s = fresh_id cs_id (charging_sessions d)" "cs_hold_coins s = Some h" "0 \<le> h"
      "h \<le> b - held_coins d (cs_user_id s)"
  shows "money_ok (claimed_db d s c)"
proof -
  let ?d = "claimed_db d s c"
  have bal: "balance_of ?d = balance_of d" by (rule balance_of_cong) simp
  have plugs: "row_by pl_id i (plugs ?d) = None \<longleftrightarrow> row_by pl_id i (plugs d) = None" for i
    by (rule row_by_map_key) (simp add: map_update_where)
  have held: "held_coins ?d v \<le> held_coins d v + (if v = cs_user_id s then h else 0)" for v
    using s(2,3) by (simp add: held_coins_def hold_of_def)
  have keys: "keys_ok ?d"
    using ok s(1) by (auto simp: money_ok_def keys_ok_def map_update_where)
  have "us_coin_balance u = b" if "u \<in> set (users d)" "us_id u = cs_user_id s" for u
    using that b ok row_by_in_set [of us_id "users d" u] by (simp add: money_ok_def keys_ok_def balance_of_def)
  then have "held_coins ?d (us_id u) \<le> us_coin_balance u" if "u \<in> set (users d)" for u
    using that held [of "us_id u"] s(4) ok by (fastforce simp: money_ok_def holds_ok_def list_all_iff split: if_splits)
  then have "holds_ok ?d"
    using ok b plug s(2,3) unfolding holds_ok_def bal list_all_iff plugs
    by (auto simp: money_ok_def holds_ok_def list_all_iff hold_of_def)
  with keys ok show ?thesis by (simp add: money_ok_def balances_ok_def)
qed

lemma money_ok_deactivate:
  assumes ok: "money_ok d" and d': "users d' = users d" "map pl_id (plugs d') = map pl_id (plugs d)"
    "charging_sessions d' = update_where P f (charging_sessions d)"
    and keep: "\<And>s. P s \<Longrightarrow> cs_id (f s) = cs_id s \<and> cs_user_id (f s) = cs_user_id s \<and> cs_plug_id (f s) = cs_plug_id s
                \<and> cs_hold_coins (f s) = cs_hold_coins s \<and> (cs_status (f s) = ACTIVE \<longrightarrow> cs_status s = ACTIVE)"
  shows "money_ok d'"
proof -
  have bal: "balance_of d' = balance_of d" using d'(1) by (rule balance_of_cong)
  have hold: "hold_of (f s) = hold_of s" if "P s" for s using keep [OF that] by (simp add: hold_of_def)
  have nn: "\<And>s. s \<in> set (charging_sessions d) \<Longrightarrow> cs_status s = ACTIVE \<Longrightarrow> 0 \<le> hold_of s"
    using ok by (auto simp: money_ok_def holds_ok_def list_all_iff)
  have held: "held_coins d' v \<le> held_coins d v" for v
  proof -
    have "held_coins d' v = sum_where (\<lambda>s. hold_of (if P s then f s else s))
        (\<lambda>s. cs_user_id (if P s then f s else s) = v \<and> cs_status (if P s then f s else s) = ACTIVE) (charging_sessions d)"
      unfolding held_coins_def d'(3) by (simp add: sum_where_def update_where_def filter_map o_def)
    also have "\<dots> \<le> held_coins d v"
      unfolding held_coins_def using keep hold nn by (intro sum_where_mono) auto
    finally show ?thesis .
  qed
  have "keys_ok d'" using ok d' keep by (simp add: money_ok_def keys_ok_def map_update_where)
  moreover have "holds_ok d'"
    unfolding holds_ok_def bal d'(1,3) list_all_iff set_update_where
    using ok held keep hold row_by_map_key [OF d'(2)]
    by (auto simp: money_ok_def holds_ok_def list_all_iff dest: order_trans [OF held])
  ultimately show ?thesis using ok d'(1) by (simp add: money_ok_def balances_ok_def)
qed

subsection \<open>Occupancy\<close>

lemma occupancy_ok_iff:
  "occupancy_ok d \<longleftrightarrow> (\<forall>s \<in> set (charging_sessions d). cs_status s = ACTIVE \<longrightarrow>
     (\<forall>p \<in> set (plugs d). pl_id p = cs_plug_id s \<longrightarrow> pl_status p \<noteq> AVAILABLE)
     \<and> (\<forall>s' \<in> set (charging_sessions d). cs_status s' = ACTIVE \<and> cs_plug_id s' = cs_plug_id s \<longrightarrow> cs_id s' = cs_id s))"
  by (auto simp: occupancy_ok_def list_all_iff)

lemma plug_free:
  assumes "occupancy_ok d" "plug \<in> set (plugs d)" "pl_status plug = AVAILABLE"
    "s \<in> set (charging_sessions d)" "cs_status s = ACTIVE"
  shows "cs_plug_id s \<noteq> pl_id plug"
  using assms unfolding occupancy_ok_iff by metis

lemma occupancy_claimed:
  assumes ok: "occupancy_ok d" and plug: "plug \<in> set (plugs d)" "pl_status plug = AVAILABLE" "cs_plug_id s = pl_id plug"
  shows "occupancy_ok (claimed_db d s c)"
  using ok plug_free [OF ok plug(1,2)] plug(3)
  unfolding occupancy_ok_iff by (fastforce simp: set_update_where)

lemma occupancy_release:
  assumes ok: "occupancy_ok d" and keys: "keys_ok d"
    and s: "s \<in> set (charging_sessions d)" "cs_status s = ACTIVE"
    and d': "charging_sessions d' = update_where (\<lambda>r. cs_id r = cs_id s) f (charging_sessions d)"
      "plugs d' = update_where (\<lambda>p. pl_id p = cs_plug_id s) g (plugs d)" "\<And>r. cs_status (f r) \<noteq> ACTIVE" "\<And>p. pl_id (g p) = pl_id p"
  shows "occupancy_ok d'"
proof -
  have rest: "r \<in> set (charging_sessions d) \<and> cs_plug_id r \<noteq> cs_plug_id s"
    if r: "r \<in> set (charging_sessions d')" "cs_status r = ACTIVE" for r
  proof -
    obtain r0 where r0: "r0 \<in> set (charging_sessions d)" "r = (if cs_id r0 = cs_id s then f r0 else r0)"
      using r(1) unfolding d'(1) set_update_where by blast
    with r(2) d'(3) have "cs_id r0 \<noteq> cs_id s" "r = r0" by (auto split: if_splits)
    with ok s r(2) r0(1) show ?thesis unfolding occupancy_ok_iff by metis
  qed
  have plug: "p \<in> set (plugs d) \<or> pl_id p = cs_plug_id s" if "p \<in> set (plugs d')" for p
    using that d'(4) unfolding d'(2) set_update_where by auto
  show ?thesis unfolding occupancy_ok_iff using ok rest plug unfolding occupancy_ok_iff by metis
qed

subsection \<open>A start keeps the system invariant\<close>

lemma cap_rows_claimed: "map cap_row (plugs (claimed_db d s c)) = map cap_row (plugs d)"
  by (simp add: map_update_where cap_row_def)

lemma cap_rows_unclaimed: "map cap_row (plugs (unclaimed_db now d s c)) = map cap_row (plugs d)"
  by (simp add: map_update_where cap_row_def)

lemma caps_sane_cong:
  assumes "map cap_row (plugs d') = map cap_row (plugs d)"
  shows "caps_sane cfg d' = caps_sane cfg d"
proof -
  have "caps_sane cfg d = list_all (\<lambda>(i, g, cap). 0 \<le> (case cap of Some a \<Rightarrow> a | None \<Rightarrow> DEFAULT_PLUG_CAP_A cfg)) (map cap_row (plugs d))" for d
    by (simp add: caps_sane_def list_all_iff cap_row_def effective_plug_cap_def)
  with assms show ?thesis by simp
qed

lemma system_ok_claimed:
  assumes ok: "system_ok cfg d" and enforce: "ENFORCE_CIRCUIT_ADMISSION cfg"
    and plug: "plug \<in> set (plugs d)" "pl_status plug = AVAILABLE" and b: "balance_of d user_id = Some b"
    and req: "request_ok max_kwh" "0 \<le> max_rate_over_window cfg zones d plug now (duration_or_day md)"
    and claim: "claim_session cfg zones now d user_id plug gw max_kwh md c = Inr (d', s)"
  shows "system_ok cfg d'" "s \<in> set (charging_sessions d')" "cs_status s = ACTIVE" "cs_user_id s = user_id"
    "cs_plug_id s = pl_id plug" "hold_of s \<le> b - held_coins d user_id" "d' = claimed_db d s c"
    "cs_id s = fresh_id cs_id (charging_sessions d)"
proof -
  have parts: "money_ok d" "occupancy_ok d" "circuit_ok cfg d" "caps_sane cfg d" "calendar_ok d" "keys_ok d"
    using ok by (auto simp: system_ok_def money_ok_def)
  have row: "row_by pl_id (pl_id plug) (plugs d) = Some plug"
    using parts(6) plug(1) by (simp add: keys_ok_def row_by_in_set)
  let ?h = "size_hold (available_balance d user_id) max_kwh (max_rate_over_window cfg zones d plug now (duration_or_day md))"
  note av = available_balance_eq [OF parts(1) b]
  have h: "0 \<le> ?h" "?h \<le> b - held_coins d user_id"
    using size_hold_bounds [OF av(2,3) req] by (simp_all add: av(1))
  from claim obtain tid where adm: "check_circuit_admission cfg d plug = Inr ()" and d': "d' = claimed_db d s c"
    and s: "s = new_session now d tid user_id (pl_id plug) (fst (resolve_rate_window cfg zones d plug now)) ?h
              (snd (resolve_rate_window cfg zones d plug now)) max_kwh md"
    by (auto simp: claim_session_def Let_def split: sum.splits prod.splits if_splits option.splits)
  have f: "cs_id s = fresh_id cs_id (charging_sessions d)" "cs_user_id s = user_id" "cs_plug_id s = pl_id plug"
    "cs_status s = ACTIVE" "cs_hold_coins s = Some ?h" by (simp_all add: s new_session_def)
  have "money_ok d'" unfolding d'
    by (rule money_ok_claimed [OF parts(1), where b = b and h = ?h]) (use b row f h in simp_all)
  moreover have "occupancy_ok d'" unfolding d' using parts(2) plug f(3) by (rule occupancy_claimed)
  moreover have "circuit_ok cfg d'"
    by (rule admission_start [OF parts(3) adm enforce row, of d' s])
       (use plug_free [OF parts(2) plug] f in \<open>auto simp: d' map_update_where cap_row_def\<close>)
  moreover have "caps_sane cfg d'" using parts(4) caps_sane_cong [OF cap_rows_claimed] by (simp add: d')
  moreover have "calendar_ok d'"
  proof (cases c)
    case (Some r)
    then show ?thesis unfolding d'
      by (intro calendar_ok_update [OF parts(5), of _ "\<lambda>x. rs_id x = rs_id r"
            "\<lambda>x. x\<lparr>rs_status := RS_FULFILLED, rs_session_id := Some (cs_id s)\<rparr>"]) simp_all
  qed (use parts(5) in \<open>simp add: d' calendar_ok_def\<close>)
  ultimately show "system_ok cfg d'" by (simp add: system_ok_def)
  show "s \<in> set (charging_sessions d')" "cs_status s = ACTIVE" "cs_user_id s = user_id" "cs_plug_id s = pl_id plug"
    "hold_of s \<le> b - held_coins d user_id" "d' = claimed_db d s c" "cs_id s = fresh_id cs_id (charging_sessions d)"
    using f h d' by (simp_all add: hold_of_def)
qed

lemma update_where_twice:
  "(\<And>r. P (g r) = P r) \<Longrightarrow> update_where P f (update_where P g rows) = update_where P (\<lambda>r. f (g r)) rows"
  by (induction rows) auto

lemma calendar_ok_unclaimed:
  assumes ok: "calendar_ok d" and c: "\<forall>r. c = Some r \<longrightarrow> r \<in> set (reservations d) \<and> rs_status r = RS_BOOKED"
  shows "calendar_ok (unclaimed_db now (claimed_db d s c) s c)"
proof (cases c)
  case None
  then show ?thesis using ok by (simp add: calendar_ok_def)
next
  case (Some r)
  have "x = r" if "x \<in> set (reservations d)" "rs_id x = rs_id r" for x
    using ok c Some that row_by_in_set [of rs_id "reservations d"] by (metis calendar_ok_iff option.inject)
  then show ?thesis
    using c Some
    by (intro calendar_ok_update [OF ok, of _ "\<lambda>x. rs_id x = rs_id r"
          "\<lambda>x. x\<lparr>rs_status := RS_BOOKED, rs_session_id := None\<rparr>"])
       (auto simp: update_where_twice)
qed

lemma system_ok_unclaimed:
  assumes ok: "system_ok cfg (claimed_db d s c)" and cal: "calendar_ok d"
    and c: "\<forall>r. c = Some r \<longrightarrow> r \<in> set (reservations d) \<and> rs_status r = RS_BOOKED"
    and s: "cs_status s = ACTIVE"
  shows "system_ok cfg (unclaimed_db now (claimed_db d s c) s c)"
proof -
  let ?d = "claimed_db d s c"
  have parts: "money_ok ?d" "occupancy_ok ?d" "circuit_ok cfg ?d" "caps_sane cfg ?d" "keys_ok ?d"
    using ok by (auto simp: system_ok_def money_ok_def)
  have "money_ok (unclaimed_db now ?d s c)"
    by (rule money_ok_deactivate [OF parts(1) _ _ unclaimed_db_simps(3)]) (auto simp: map_update_where)
  moreover have "occupancy_ok (unclaimed_db now ?d s c)"
    by (rule occupancy_release [OF parts(2,5) _ s unclaimed_db_simps(3,4)]) simp_all
  moreover have "circuit_ok cfg (unclaimed_db now ?d s c)"
    by (rule circuit_ok_update [OF parts(3,4) cap_rows_unclaimed unclaimed_db_simps(6,3)]) auto
  moreover have "caps_sane cfg (unclaimed_db now ?d s c)"
    using parts(4) caps_sane_cong [OF cap_rows_unclaimed] by blast
  ultimately show ?thesis using calendar_ok_unclaimed [OF cal c] by (simp add: system_ok_def)
qed

lemma held_coins_unclaimed:
  assumes "cs_id s = fresh_id cs_id (charging_sessions d)"
  shows "held_coins (unclaimed_db now (claimed_db d s c) s c) = held_coins d"
proof -
  have "update_where (\<lambda>r. cs_id r = cs_id s) f (charging_sessions d) = charging_sessions d" for f
    using assms fresh_id_greater [of _ "charging_sessions d" cs_id] by (intro update_where_id) fastforce
  then show ?thesis by (simp add: held_coins_def fun_eq_iff)
qed

lemma confirm_start_db:
  "w_db (fst (confirm_start cfg now w s plug c ok)) = (if ok then w_db w else unclaimed_db now (w_db w) s c)"
  by (simp add: confirm_start_def Let_def)

lemma begin_cases:
  assumes "begin_active_session cfg zones now w d u plug gw k m c ok = (w', res)"
  obtains (refused) err where "w' = w" "res = Inl err"
  | (started) d' s where "claim_session cfg zones now d u plug gw k m c = Inr (d', s)" "ok"
      "w_db w' = d'" "res = Inr s"
  | (undone) d' s where "claim_session cfg zones now d u plug gw k m c = Inr (d', s)" "\<not> ok"
      "w_db w' = unclaimed_db now d' s c" "res = Inl (HTTPException 500 ''Failed to publish start command to the gateway.'')"
proof (cases "claim_session cfg zones now d u plug gw k m c")
  case (Inl err)
  then show ?thesis using assms refused by (auto simp: begin_active_session_def)
next
  case (Inr x)
  obtain d' s where x: "x = (d', s)" by fastforce
  let ?w = "emit [Emit_Plug_Status (pl_id plug) OCCUPIED] (w\<lparr>w_db := d'\<rparr>)"
  have r: "(w', res) = confirm_start cfg now ?w s plug c ok"
    using assms Inr x by (simp add: begin_active_session_def)
  have "w_db w' = (if ok then d' else unclaimed_db now d' s c)"
    using confirm_start_db [of cfg now ?w s plug c ok] by (simp flip: r)
  moreover have "res = (if ok then Inr s else Inl (HTTPException 500 ''Failed to publish start command to the gateway.''))"
    using r by (auto simp: confirm_start_def Let_def split: if_splits)
  ultimately show ?thesis using Inr x started undone by (cases ok) auto
qed

lemma begin_keeps:
  assumes ok: "system_ok cfg d" "ENFORCE_CIRCUIT_ADMISSION cfg"
    and plug: "plug \<in> set (plugs d)" "pl_status plug = AVAILABLE" "balance_of d user_id = Some b"
    and req: "request_ok max_kwh" "0 \<le> max_rate_over_window cfg zones d plug now (duration_or_day md)"
    and c: "\<forall>r. c = Some r \<longrightarrow> r \<in> set (reservations d) \<and> rs_status r = RS_BOOKED"
    and run: "begin_active_session cfg zones now w d user_id plug gw max_kwh md c publish_ok = (w', res)"
  obtains (refused) err where "w' = w" "res = Inl err"
  | (started) s where "res = Inr s" "w_db w' = claimed_db d s c" "system_ok cfg (w_db w')" "cs_status s = ACTIVE"
      "cs_user_id s = user_id" "cs_plug_id s = pl_id plug" "hold_of s \<le> b - held_coins d user_id"
  | (undone) s where "res = Inl (HTTPException 500 ''Failed to publish start command to the gateway.'')"
      "w_db w' = unclaimed_db now (claimed_db d s c) s c" "system_ok cfg (w_db w')" "held_coins (w_db w') = held_coins d"
  using run
proof (cases rule: begin_cases)
  case (refused err)
  then show ?thesis by (rule that(1))
next
  case (started d' s)
  note k = system_ok_claimed [OF ok plug req started(1)]
  show ?thesis by (rule that(2) [of s]) (use started k in simp_all)
next
  case (undone d' s)
  note k = system_ok_claimed [OF ok plug req undone(1)]
  have "calendar_ok d" using ok(1) by (simp add: system_ok_def)
  then have "system_ok cfg (unclaimed_db now (claimed_db d s c) s c)"
    using system_ok_unclaimed [OF k(1) [unfolded k(7)] _ c k(3)] by blast
  then show ?thesis
    by (intro that(3) [of s]) (use undone k held_coins_unclaimed [OF k(8)] in simp_all)
qed

subsection \<open>Properties\<close>

text \<open>
  C4. A start keeps every invariant of the system and moves no money: keys, balances and covered
  holds, at most one running session per plug and none on a plug offered as available, every
  capped circuit within its limit, the calendar without overlaps.  A start that succeeds leaves
  its session running with a hold within what was available; one that fails, a failed publish
  included, leaves no hold behind.
\<close>

theorem begin_active_session_safe:
  assumes "system_ok cfg (w_db w)" "ENFORCE_CIRCUIT_ADMISSION cfg"
    and "plug \<in> set (plugs (w_db w))" "pl_status plug = AVAILABLE" "balance_of (w_db w) user_id = Some b"
    and "request_ok max_kwh" "0 \<le> max_rate_over_window cfg zones (w_db w) plug now (duration_or_day md)"
    and "\<forall>r. c = Some r \<longrightarrow> r \<in> set (reservations (w_db w)) \<and> rs_status r = RS_BOOKED"
    and run: "begin_active_session cfg zones now w (w_db w) user_id plug gw max_kwh md c ok = (w', res)"
  shows "system_ok cfg (w_db w') \<and> drift (w_db w') = drift (w_db w) \<and> balance_of (w_db w') = balance_of (w_db w)
    \<and> (case res of
         Inr s \<Rightarrow> s \<in> set (charging_sessions (w_db w')) \<and> cs_status s = ACTIVE \<and> cs_user_id s = user_id
           \<and> cs_plug_id s = pl_id plug \<and> hold_of s \<le> b - held_coins (w_db w) user_id
       | Inl err \<Rightarrow> held_coins (w_db w') = held_coins (w_db w))"
proof -
  have "users (w_db w') = users (w_db w)" "ledger (w_db w') = ledger (w_db w)"
    using begin_keeps [OF assms] by (cases; simp)+
  from begin_keeps [OF assms] drift_cong [OF this] balance_of_cong [OF this(1)] assms(1) show ?thesis
    by cases simp_all
qed

theorem begin_active_session_safe_witness:
  "\<exists>w' s. begin_active_session default_config ist_zones 0 two_drivers (w_db two_drivers) 1 sample_plug sample_gateway (Some 2) None None True
       = (w', Inr s) \<and> system_ok default_config (w_db w') \<and> hold_of s \<le> 10000"
proof -
  have pre: "system_ok default_config (w_db two_drivers)" "ENFORCE_CIRCUIT_ADMISSION default_config"
    "sample_plug \<in> set (plugs (w_db two_drivers))" "pl_status sample_plug = AVAILABLE"
    "balance_of (w_db two_drivers) 1 = Some 10000" "request_ok (Some 2)"
    "0 \<le> max_rate_over_window default_config ist_zones (w_db two_drivers) sample_plug 0 (duration_or_day None)"
    "held_coins (w_db two_drivers) 1 = 0" by code_simp+
  obtain w' res where r: "begin_active_session default_config ist_zones 0 two_drivers (w_db two_drivers) 1 sample_plug sample_gateway (Some 2) None None True = (w', res)"
    by fastforce
  have "case snd (begin_active_session default_config ist_zones 0 two_drivers (w_db two_drivers) 1 sample_plug sample_gateway (Some 2) None None True)
      of Inl _ \<Rightarrow> False | Inr _ \<Rightarrow> True" by code_simp
  with r obtain s where "res = Inr s" by (auto split: sum.splits)
  with begin_active_session_safe [OF pre(1-7) _ r] pre(8) r show ?thesis by auto
qed

text \<open>
  C35. The rollback of a failed start does not re-check what it overwrites.  When the claimed
  session is stopped and another driver starts on the freed plug before the failed publish is
  noticed, the rollback marks the plug available under that second running session: the
  occupancy invariant, which held before, is broken.
\<close>

theorem failed_publish_rollback_race:
  "system_ok default_config (w_db two_drivers)
   \<and> (\<exists>w'. overlapped_start default_config ist_zones 0 two_drivers sample_plug sample_gateway = Some w'
         \<and> \<not> occupancy_ok (w_db w')
         \<and> map pl_status (plugs (w_db w')) = [AVAILABLE]
         \<and> map (\<lambda>s. (cs_user_id s, cs_status s)) (charging_sessions (w_db w')) = [(1, CANCELLED), (2, ACTIVE)])"
proof -
  have "system_ok default_config (w_db two_drivers)" by code_simp
  moreover have "case overlapped_start default_config ist_zones 0 two_drivers sample_plug sample_gateway of
      None \<Rightarrow> False
    | Some w' \<Rightarrow> \<not> occupancy_ok (w_db w') \<and> map pl_status (plugs (w_db w')) = [AVAILABLE]
         \<and> map (\<lambda>s. (cs_user_id s, cs_status s)) (charging_sessions (w_db w')) = [(1, CANCELLED), (2, ACTIVE)]"
    by code_simp
  ultimately show ?thesis by (auto split: option.splits)
qed

end
