(* ===== verification/Sessions.thy ===== *)
theory Sessions
  imports Session_Start
begin

text \<open>
  The driver's session endpoints (\<open>backend/routers/sessions.py\<close>): start, stop, limits, active
  sessions, history, the charge queue and disputes.  Each endpoint holds its row locks for the
  whole transaction and is one step; an HTTP error leaves the database as it was.  The request
  bodies arrive validated by their schemas.
\<close>

subsection \<open>Definitions\<close>

definition is_active_of :: "int \<Rightarrow> charging_session \<Rightarrow> bool" where
  "is_active_of user_id s \<longleftrightarrow> cs_user_id s = user_id \<and> cs_status s = ACTIVE"

definition covering_reservation :: "db \<Rightarrow> int \<Rightarrow> timestamp \<Rightarrow> reservation option" where
  "covering_reservation d plug_id now =
     min_row rs_start_at
       (filter (\<lambda>r. rs_plug_id r = plug_id \<and> rs_status r = RS_BOOKED \<and> rs_start_at r \<le> now \<and> now < rs_end_at r)
         (reservations d))"

definition start_gates ::
  "config \<Rightarrow> timestamp \<Rightarrow> db \<Rightarrow> int \<Rightarrow> int \<Rightarrow> (db \<times> plug \<times> gateway \<times> reservation option) response" where
  "start_gates cfg now d user_id plug_id =
     (case row_by us_id user_id (users d) of
        None \<Rightarrow> Inl NoResultFound
      | Some _ \<Rightarrow>
          if MAX_ACTIVE_SESSIONS_PER_USER cfg \<le> int (count_where (is_active_of user_id) (charging_sessions d))
          then Inl (HTTPException 409 ''active session limit'')
          else case row_by pl_id plug_id (plugs d) of
                 None \<Rightarrow> Inl (HTTPException 404 ''Plug not found.'')
               | Some plug \<Rightarrow>
                   case user_can_access_plug d user_id plug of Inl err \<Rightarrow> Inl err | Inr access \<Rightarrow>
                   if \<not> access then Inl (HTTPException 403 ''You do not have access to this plug.'')
                   else if pl_status plug = OCCUPIED
                   then Inl (HTTPException 409 ''This plug is currently in use.'')
                   else if pl_status plug \<noteq> AVAILABLE
                   then Inl (HTTPException 409 ''This plug is out of service.'')
                   else let d1 = fst (expire_lapsed_reservations cfg now d (Some (pl_id plug)) None None None);
                            covering = covering_reservation d1 (pl_id plug) now
                        in if (case covering of None \<Rightarrow> False | Some r \<Rightarrow> rs_user_id r \<noteq> user_id)
                           then Inl (HTTPException 409 ''Plug is reserved.'')
                           else case row_by gw_id (pl_gateway_id plug) (gateways d1) of
                                  None \<Rightarrow> Inl NoResultFound
                                | Some gateway \<Rightarrow>
                                    if \<not> gateway_is_live cfg gateway now
                                    then Inl (HTTPException 409 ''gateway offline'')
                                    else if pl_last_telemetry_at plug \<noteq> None \<and> \<not> plug_is_powered cfg plug now
                                    then Inl (HTTPException 409 ''no power'')
                                    else Inr (d1, plug, gateway, covering))"

definition walkup_horizon :: "config \<Rightarrow> timestamp \<Rightarrow> int option \<Rightarrow> timestamp" where
  "walkup_horizon cfg now max_duration_seconds =
     (case max_duration_seconds of
        Some s \<Rightarrow> (if s = 0 then now + minutes_us (RESERVATION_WALKUP_WARN_LOOKAHEAD_MIN cfg)
                   else now + minutes_us (fdiv (of_int s) 60))
      | None \<Rightarrow> now + minutes_us (RESERVATION_WALKUP_WARN_LOOKAHEAD_MIN cfg))"

definition warn_walkup :: "config \<Rightarrow> timestamp \<Rightarrow> world \<Rightarrow> charging_session \<Rightarrow> world" where
  "warn_walkup cfg now w session =
     (case next_conflicting_reservation (w_db w) (cs_plug_id session) (cs_user_id session)
             (walkup_horizon cfg now (cs_max_duration_seconds session)) now of
        None \<Rightarrow> w
      | Some _ \<Rightarrow> emit [Notify (cs_user_id session) ''reservation_ahead'' ''warning''
                         (Some (cs_plug_id session)) (Some (cs_id session))] w)"

definition start_charging_session ::
  "config \<Rightarrow> zones \<Rightarrow> timestamp \<Rightarrow> world \<Rightarrow> int \<Rightarrow> int \<Rightarrow> pyfloat option \<Rightarrow> int option \<Rightarrow> bool
     \<Rightarrow> world \<times> charging_session response" where
  "start_charging_session cfg zones now w user_id plug_id max_kwh max_duration_seconds publish_ok =
     (case start_gates cfg now (w_db w) user_id plug_id of
        Inl err \<Rightarrow> (w, Inl err)
      | Inr (d1, plug, gateway, covering) \<Rightarrow>
          (case begin_active_session cfg zones now w d1 user_id plug gateway max_kwh
                  max_duration_seconds covering publish_ok of
             (w', Inl err) \<Rightarrow> (w', Inl err)
           | (w', Inr session) \<Rightarrow> (warn_walkup cfg now w' session, Inr session)))"

definition stop_charging_session ::
  "config \<Rightarrow> timestamp \<Rightarrow> world \<Rightarrow> int \<Rightarrow> int \<Rightarrow> world \<times> receipt response" where
  "stop_charging_session cfg now w session_id user_id =
     (case finalize_charging_session cfg now w session_id (Some user_id) None of
        (w', Inl err) \<Rightarrow> (w', Inl err)
      | (w', Inr (Some r)) \<Rightarrow> (w', Inr r)
      | (w', Inr None) \<Rightarrow>
          (if find_session (w_db w') session_id (Some user_id) = None
           then (w', Inl (HTTPException 404 ''Session not found.''))
           else (w', Inl (HTTPException 400 ''This session is not active.''))))"

definition resized_hold :: "config \<Rightarrow> zones \<Rightarrow> timestamp \<Rightarrow> db \<Rightarrow> plug \<Rightarrow> charging_session \<Rightarrow> money option" where
  "resized_hold cfg zones now d plug session =
     (case (cs_hold_coins session, cs_max_kwh session) of
        (Some hold, Some max_kwh) \<Rightarrow>
          (let max_rate = max_rate_over_window cfg zones d plug now (duration_or_day (cs_max_duration_seconds session));
               headroom = available_balance d (cs_user_id session) + hold;
               accrued_floor = to_money_m (session_cost cfg session (cs_energy_kwh session));
               resized = to_money_m (min headroom (energy_cost max_kwh (Finite (money_dec max_rate))))
           in Some (to_money_m (max accrued_floor resized)))
      | _ \<Rightarrow> cs_hold_coins session)"

definition update_session_limits ::
  "config \<Rightarrow> zones \<Rightarrow> timestamp \<Rightarrow> world \<Rightarrow> int \<Rightarrow> int \<Rightarrow> pyfloat option \<Rightarrow> int option
     \<Rightarrow> world \<times> charging_session response" where
  "update_session_limits cfg zones now w session_id user_id max_kwh max_duration_seconds =
     (if max_kwh = None \<and> max_duration_seconds = None
      then (w, Inl (HTTPException 400 ''Provide max_kwh and/or max_duration_seconds to update.''))
      else if row_by us_id user_id (users (w_db w)) = None
      then (w, Inl (HTTPException 404 ''User not found.''))
      else case find_session (w_db w) session_id (Some user_id) of
             None \<Rightarrow> (w, Inl (HTTPException 404 ''Session not found.''))
           | Some session \<Rightarrow>
               if cs_status session \<noteq> ACTIVE
               then (w, Inl (HTTPException 409 ''This session is not active.''))
               else if (case max_kwh of None \<Rightarrow> False | Some k \<Rightarrow> k < cs_energy_kwh session)
               then (w, Inl (HTTPException 409 ''target is below energy already delivered''))
               else case row_by pl_id (cs_plug_id session) (plugs (w_db w)) of
                      None \<Rightarrow> (w, Inl NoResultFound)
                    | Some plug \<Rightarrow>
                        (let session1 = session\<lparr>
                               cs_max_duration_seconds := (case max_duration_seconds of
                                  Some s \<Rightarrow> Some s | None \<Rightarrow> cs_max_duration_seconds session),
                               cs_max_kwh := (case max_kwh of Some k \<Rightarrow> Some k | None \<Rightarrow> cs_max_kwh session)\<rparr>;
                             session2 = session1\<lparr>cs_hold_coins := resized_hold cfg zones now (w_db w) plug session1\<rparr>;
                             d' = upd_session session_id (\<lambda>_. session2) (w_db w)
                         in (emit [Plug_Limits (pl_gateway_id plug) (pl_id plug) (firmware_max_kwh cfg (cs_max_kwh session2))
                                     (firmware_duration cfg (cs_max_duration_seconds session2)) (effective_plug_cap cfg plug)]
                               (w\<lparr>w_db := d'\<rparr>), Inr session2)))"

record active_entry =
  ae_session_id :: int
  ae_plug_id :: int
  ae_started_at :: timestamp
  ae_max_kwh :: "pyfloat option"
  ae_max_duration_seconds :: "int option"
  ae_energy_kwh :: pyfloat
  ae_cost_coins :: pyfloat
  ae_hold_coins :: "pyfloat option"
  ae_rate_coins_per_kwh :: "pyfloat option"

definition get_active_session :: "config \<Rightarrow> db \<Rightarrow> int \<Rightarrow> active_entry list" where
  "get_active_session cfg d user_id =
     map (\<lambda>s. \<lparr>ae_session_id = cs_id s, ae_plug_id = cs_plug_id s, ae_started_at = cs_started_at s,
               ae_max_kwh = cs_max_kwh s, ae_max_duration_seconds = cs_max_duration_seconds s,
               ae_energy_kwh = cs_energy_kwh s,
               ae_cost_coins = fl (money_dec (session_cost cfg s (cs_energy_kwh s))),
               ae_hold_coins = map_option (\<lambda>h. fl (money_dec h)) (cs_hold_coins s),
               ae_rate_coins_per_kwh = map_option (\<lambda>r. fl (money_dec r)) (cs_rate_coins_per_kwh s)\<rparr>)
       (sort_key (\<lambda>s. - cs_started_at s)
         (filter (\<lambda>s. is_active_of user_id s \<and> exists_row (\<lambda>p. pl_id p = cs_plug_id s) (plugs d)) (charging_sessions d)))"

definition get_session_history :: "db \<Rightarrow> int \<Rightarrow> int \<Rightarrow> int \<Rightarrow> nat \<times> charging_session list" where
  "get_session_history d user_id limit offset =
     (let lim = max 1 (min limit 200); off = max 0 offset;
          rows = filter (\<lambda>s. cs_user_id s = user_id \<and> exists_row (\<lambda>p. pl_id p = cs_plug_id s) (plugs d)) (charging_sessions d)
      in (count_where (\<lambda>s. cs_user_id s = user_id) (charging_sessions d),
          take (nat lim) (drop (nat off) (sort_key (\<lambda>s. (- cs_started_at s, - cs_id s)) rows))))"

definition waiting_of :: "int \<Rightarrow> queued_charge \<Rightarrow> bool" where
  "waiting_of user_id q \<longleftrightarrow> qc_user_id q = user_id \<and> qc_status q = QC_WAITING"

definition queue_charge ::
  "config \<Rightarrow> timestamp \<Rightarrow> world \<Rightarrow> int \<Rightarrow> int \<Rightarrow> pyfloat option \<Rightarrow> int option \<Rightarrow> world \<times> queued_charge response" where
  "queue_charge cfg now w user_id plug_id max_kwh max_duration_seconds =
     (let d = w_db w in
      case row_by pl_id plug_id (plugs d) of
        None \<Rightarrow> (w, Inl (HTTPException 404 ''Plug not found.''))
      | Some plug \<Rightarrow>
          case user_can_access_plug d user_id plug of Inl err \<Rightarrow> (w, Inl err) | Inr access \<Rightarrow>
          if \<not> access then (w, Inl (HTTPException 403 ''You do not have access to this plug.''))
          else case row_by gw_id (pl_gateway_id plug) (gateways d) of
                 None \<Rightarrow> (w, Inl NoResultFound)
               | Some gateway \<Rightarrow>
                   (case (case gw_tenant_id gateway of None \<Rightarrow> None | Some i \<Rightarrow> row_by tn_id i (tenants d)) of
                      None \<Rightarrow> (w, Inl NoResultFound)
                    | Some tenant \<Rightarrow>
                        if \<not> gateway_is_live cfg gateway now then (w, Inl (HTTPException 409 ''gateway_offline''))
                        else if plug_is_powered cfg plug now then (w, Inl (HTTPException 409 ''plug_powered''))
                        else if \<not> queued_charging_enabled tenant (Some plug)
                        then (w, Inl (HTTPException 409 ''queue_disabled''))
                        else if money_dec (available_balance d user_id) < MIN_START_BALANCE_COINS cfg
                        then (w, Inl (HTTPException 402 ''insufficient_balance''))
                        else if MAX_QUEUED_CHARGES_PER_USER cfg \<le> int (count_where (waiting_of user_id) (queued_charges d))
                        then (w, Inl (HTTPException 409 ''queue_limit''))
                        else if exists_row (\<lambda>q. qc_plug_id q = pl_id plug \<and> waiting_of user_id q) (queued_charges d)
                        then (w, Inl (HTTPException 409 ''already_queued''))
                        else let q = \<lparr>qc_id = fresh_id qc_id (queued_charges d), qc_tenant_id = tn_id tenant,
                                      qc_user_id = user_id, qc_plug_id = pl_id plug, qc_max_kwh = max_kwh,
                                      qc_max_duration_seconds = max_duration_seconds, qc_status = QC_WAITING,
                                      qc_created_at = now,
                                      qc_expires_at = now + queue_ttl tenant (Some plug) * 60000000,
                                      qc_started_session_id = None\<rparr>
                             in (emit [Notify user_id ''queued'' ''info'' (Some (pl_id plug)) None]
                                   (w\<lparr>w_db := d\<lparr>queued_charges := queued_charges d @ [q]\<rparr>\<rparr>), Inr q)))"

definition get_queued_charges :: "db \<Rightarrow> int \<Rightarrow> queued_charge list" where
  "get_queued_charges d user_id =
     sort_key qc_created_at
       (filter (\<lambda>q. waiting_of user_id q \<and> exists_row (\<lambda>p. pl_id p = qc_plug_id q) (plugs d)) (queued_charges d))"

definition cancel_queued_charge :: "world \<Rightarrow> int \<Rightarrow> int \<Rightarrow> world \<times> unit response" where
  "cancel_queued_charge w queued_charge_id user_id =
     (case find (\<lambda>q. qc_id q = queued_charge_id \<and> qc_user_id q = user_id) (queued_charges (w_db w)) of
        None \<Rightarrow> (w, Inl (HTTPException 404 ''Queued charge not found.''))
      | Some q \<Rightarrow>
          if qc_status q \<noteq> QC_WAITING then (w, Inl (HTTPException 409 ''This queued charge is no longer waiting.''))
          else (w\<lparr>w_db := (w_db w)\<lparr>queued_charges := update_where (\<lambda>r. qc_id r = queued_charge_id)
                  (\<lambda>r. r\<lparr>qc_status := QC_CANCELLED\<rparr>) (queued_charges (w_db w))\<rparr>\<rparr>, Inr ()))"

definition dispute_session ::
  "timestamp \<Rightarrow> world \<Rightarrow> int \<Rightarrow> int \<Rightarrow> string \<Rightarrow> world \<times> session_dispute response" where
  "dispute_session now w session_id user_id reason =
     (case find_session (w_db w) session_id (Some user_id) of
        None \<Rightarrow> (w, Inl (HTTPException 404 ''Session not found.''))
      | Some session \<Rightarrow>
          if cs_status session = ACTIVE then (w, Inl (HTTPException 409 ''This session is still active.''))
          else if exists_row (\<lambda>x. sd_session_id x = session_id \<and> sd_status x = DI_OPEN) (disputes (w_db w))
          then (w, Inl (HTTPException 409 ''An open dispute already exists for this session.''))
          else let x = \<lparr>sd_id = fresh_id sd_id (disputes (w_db w)), sd_session_id = cs_id session,
                        sd_tenant_id = cs_tenant_id session, sd_driver_user_id = user_id, sd_reason = reason,
                        sd_status = DI_OPEN, sd_resolution_note = None, sd_refund_coins = None, sd_created_at = now,
                        sd_resolved_at = None, sd_resolved_by_user_id = None\<rparr>
               in (w\<lparr>w_db := (w_db w)\<lparr>disputes := disputes (w_db w) @ [x]\<rparr>\<rparr>, Inr x))"

text \<open>Prices as the operator endpoints accept them.\<close>

definition rates_ok :: "config \<Rightarrow> db \<Rightarrow> bool" where
  "rates_ok cfg d \<longleftrightarrow> is_float (COINS_PER_KWH cfg) \<and> 0 \<le> COINS_PER_KWH cfg
     \<and> list_all (\<lambda>t. 0 \<le> tf_price_per_kwh t) (tariffs d)"

text \<open>
  A driver who charged 10 kWh in the evening peak at 9.00 and is now, after the peak, in the flat
  rate of 5.00: the peak segment is settled, the open segment starts at 10 kWh.
\<close>

definition after_peak_session :: charging_session where
  "after_peak_session = sample_session\<lparr>cs_energy_kwh := 10, cs_settled_cost_coins := Some 9000,
     cs_rate_segment_start_kwh := Some 10, cs_hold_coins := Some 18000, cs_max_kwh := Some 20\<rparr>"

definition after_peak_world :: world where
  "after_peak_world = empty_world\<lparr>w_db := sample_site\<lparr>users := [sample_user\<lparr>us_coin_balance := 100000\<rparr>],
     plugs := [sample_plug\<lparr>pl_status := OCCUPIED\<rparr>], charging_sessions := [after_peak_session]\<rparr>\<rparr>"

subsection \<open>Start\<close>

lemma resolve_tariff_nonneg:
  assumes "rates_ok cfg d" "resolve_tariff_and_tz d plug = (Some t, z)"
  shows "0 \<le> tf_price_per_kwh t"
proof -
  have "t \<in> set (tariffs d)" if "find_tariff d i = Some t" for i
    using that by (auto simp: find_tariff_def split: option.splits dest: row_by_SomeD)
  then have "t \<in> set (tariffs d)"
    using assms(2)
    by (auto simp: resolve_tariff_and_tz_def Let_def group_tariff_def split: if_splits option.splits)
  with assms(1) show ?thesis by (simp add: rates_ok_def list_all_iff)
qed

lemma max_rate_nonneg:
  assumes "rates_ok cfg d"
  shows "0 \<le> max_rate_over_window cfg zones d plug now secs"
proof -
  obtain t z where r: "resolve_tariff_and_tz d plug = (t, z)" by fastforce
  have "0 \<le> default_rate cfg" using assms by (simp add: default_rate_def rates_ok_def to_money_f_nonneg)
  moreover have "0 \<le> to_money_m (tf_price_per_kwh x)" if "t = Some x" for x
    using resolve_tariff_nonneg [OF assms] r that by (simp add: to_money_m_clamp clamp_money_nonneg)
  ultimately show ?thesis
    using order_trans [OF _ foldl_max_ge(1)] by (auto simp: max_rate_over_window_def r Let_def split: option.splits)
qed

lemma warn_walkup_db [simp]: "w_db (warn_walkup cfg now w s) = w_db w"
  by (simp add: warn_walkup_def split: option.split)

lemma start_gates_InrD:
  assumes "start_gates cfg now d user_id plug_id = Inr (d1, plug, gateway, covering)"
  shows "row_by us_id user_id (users d) \<noteq> None"
    "int (count_where (is_active_of user_id) (charging_sessions d)) < MAX_ACTIVE_SESSIONS_PER_USER cfg"
    "row_by pl_id plug_id (plugs d) = Some plug" "user_can_access_plug d user_id plug = Inr True" "pl_status plug = AVAILABLE"
    "d1 = fst (expire_lapsed_reservations cfg now d (Some (pl_id plug)) None None None)"
    "covering = covering_reservation d1 (pl_id plug) now" "\<forall>r. covering = Some r \<longrightarrow> rs_user_id r = user_id"
    "row_by gw_id (pl_gateway_id plug) (gateways d1) = Some gateway" "gateway_is_live cfg gateway now"
    "pl_last_telemetry_at plug = None \<or> plug_is_powered cfg plug now"
  using assms by (auto simp: start_gates_def Let_def not_le split: sum.splits option.splits if_splits)

lemma system_ok_cong:
  assumes "system_ok cfg d" "users d' = users d" "plugs d' = plugs d" "charging_sessions d' = charging_sessions d"
    "charger_groups d' = charger_groups d" "calendar_ok d'"
  shows "system_ok cfg d'"
proof -
  have b: "balance_of d' = balance_of d" "held_coins d' = held_coins d"
    using assms(2,4) by (auto intro: balance_of_cong held_coins_cong)
  have c: "group_cap d' = group_cap d" "circuit_load_a cfg d' = circuit_load_a cfg d"
    using assms(3-5) by (auto simp: group_cap_def circuit_load_commits fun_eq_iff)
  have "money_ok d' = money_ok d"
    using assms(2-4) b by (simp add: money_ok_def keys_ok_def balances_ok_def holds_ok_def)
  moreover have "occupancy_ok d' = occupancy_ok d" using assms(3,4) by (simp add: occupancy_ok_def)
  moreover have "circuit_ok cfg d' = circuit_ok cfg d" "caps_sane cfg d' = caps_sane cfg d"
    unfolding circuit_ok_def caps_sane_def assms(3,5) c by (rule refl)+
  ultimately show ?thesis using assms(1,6) by (simp add: system_ok_def)
qed

lemma system_ok_expire: "system_ok cfg d \<Longrightarrow> system_ok cfg (fst (expire_lapsed_reservations cfg' now d p ps u t))"
  by (rule system_ok_cong) (simp_all add: calendar_ok_expire system_ok_def)

lemma covering_reservation_SomeD:
  assumes "covering_reservation d p now = Some r"
  shows "r \<in> set (reservations d)" "rs_status r = RS_BOOKED" "rs_plug_id r = p" "rs_start_at r \<le> now" "now < rs_end_at r"
  using min_row_SomeD [OF assms [unfolded covering_reservation_def]] by auto

lemma covering_reservation_unique:
  assumes "calendar_ok d" "covering_reservation d p now = Some r" "r' \<in> set (reservations d)"
    "rs_status r' = RS_BOOKED" "rs_plug_id r' = p" "rs_start_at r' \<le> now" "now < rs_end_at r'"
  shows "rs_id r' = rs_id r"
proof (rule ccontr)
  note r = covering_reservation_SomeD [OF assms(2)]
  assume "rs_id r' \<noteq> rs_id r"
  with assms(1,3-5) r(1-3) have "windows_disjoint r' r" unfolding calendar_ok_iff by simp
  with assms(6,7) r(4,5) show False unfolding windows_disjoint_def by linarith
qed

lemma own_window:
  assumes cal: "calendar_ok d" and own: "\<forall>r. covering_reservation d p now = Some r \<longrightarrow> rs_user_id r = u"
    and r: "r \<in> set (reservations d)" "rs_plug_id r = p" "rs_status r = RS_BOOKED" "rs_start_at r \<le> now" "now < rs_end_at r"
  shows "rs_user_id r = u"
proof (cases "covering_reservation d p now")
  case None
  then show ?thesis using r by (auto simp: covering_reservation_def filter_empty_conv)
next
  case (Some c)
  then have "rs_id r = rs_id c" using covering_reservation_unique [OF cal Some r(1,3,2,4,5)] by simp
  then have "r = c" using cal r(1) covering_reservation_SomeD(1) [OF Some] row_by_in_set [of rs_id "reservations d"]
    by (metis calendar_ok_iff option.inject)
  then show ?thesis using own Some by simp
qed

lemma count_active_claimed:
  "cs_status s = ACTIVE \<Longrightarrow> count_where (is_active_of u) (charging_sessions (claimed_db d s c)) =
     count_where (is_active_of u) (charging_sessions d) + (if cs_user_id s = u then 1 else 0)"
  by (simp add: is_active_of_def)

lemma start_charging_session_cases:
  assumes "start_charging_session cfg zones now w user_id plug_id max_kwh md ok = (w', res)"
  obtains (refused) err where "w' = w" "res = Inl err"
  | (ran) d1 plug gateway covering w1 where "start_gates cfg now (w_db w) user_id plug_id = Inr (d1, plug, gateway, covering)"
      "begin_active_session cfg zones now w d1 user_id plug gateway max_kwh md covering ok = (w1, res)" "w_db w' = w_db w1"
      "\<forall>err. res = Inl err \<longrightarrow> w' = w1"
proof (cases "start_gates cfg now (w_db w) user_id plug_id")
  case (Inl err)
  then show ?thesis using assms refused by (auto simp: start_charging_session_def)
next
  case (Inr x)
  obtain d1 plug gateway covering where x: "x = (d1, plug, gateway, covering)" by (metis prod_cases4)
  obtain w1 res1 where b: "begin_active_session cfg zones now w d1 user_id plug gateway max_kwh md covering ok = (w1, res1)"
    by fastforce
  show ?thesis
    by (rule ran [OF Inr [unfolded x], of w1])
       (use assms Inr x b in \<open>auto simp: start_charging_session_def split: sum.splits\<close>)
qed

subsection \<open>Properties\<close>

text \<open>
  C15. Starting a session through the endpoint keeps the system invariant.  A start that succeeds
  happened on an available plug the driver may use, whose gateway is live, in no one else's
  booked window, and leaves the driver within the limit of concurrent sessions; a start that
  fails leaves no wallet, ledger or hold changed.
\<close>

theorem start_charging_session_safe:
  assumes ok: "system_ok cfg (w_db w)" "ENFORCE_CIRCUIT_ADMISSION cfg" "request_ok max_kwh"
    and rates: "rates_ok cfg (w_db w)"
    and run: "start_charging_session cfg zones now w user_id plug_id max_kwh md publish_ok = (w', res)"
  shows "system_ok cfg (w_db w') \<and> drift (w_db w') = drift (w_db w)
    \<and> (case res of
         Inl err \<Rightarrow> held_coins (w_db w') = held_coins (w_db w)
       | Inr s \<Rightarrow> s \<in> set (charging_sessions (w_db w')) \<and> cs_status s = ACTIVE \<and> cs_user_id s = user_id \<and> cs_plug_id s = plug_id
           \<and> int (count_where (is_active_of user_id) (charging_sessions (w_db w'))) \<le> MAX_ACTIVE_SESSIONS_PER_USER cfg
           \<and> (\<exists>plug gateway. row_by pl_id plug_id (plugs (w_db w)) = Some plug \<and> pl_status plug = AVAILABLE
                 \<and> user_can_access_plug (w_db w) user_id plug = Inr True
                 \<and> row_by gw_id (pl_gateway_id plug) (gateways (w_db w)) = Some gateway \<and> gateway_is_live cfg gateway now)
           \<and> (\<forall>r \<in> set (reservations (fst (expire_lapsed_reservations cfg now (w_db w) (Some plug_id) None None None))).
                 rs_plug_id r = plug_id \<and> rs_status r = RS_BOOKED \<and> rs_start_at r \<le> now \<and> now < rs_end_at r
                   \<longrightarrow> rs_user_id r = user_id))" (is "_ \<and> _ \<and> ?outcome")
  using run
proof (cases rule: start_charging_session_cases)
  case (refused err)
  with ok(1) show ?thesis by simp
next
  case (ran d1 plug gateway covering w1)
  note g = start_gates_InrD [OF ran(1)]
  have pid: "pl_id plug = plug_id" "plug \<in> set (plugs (w_db w))" using row_by_SomeD [OF g(3)] by auto
  have d1: "system_ok cfg d1" "users d1 = users (w_db w)" "ledger d1 = ledger (w_db w)" "plugs d1 = plugs (w_db w)"
    "charging_sessions d1 = charging_sessions (w_db w)" using ok(1) by (simp_all add: g(6) system_ok_expire)
  obtain b where b: "balance_of d1 user_id = Some b" using g(1) by (auto simp: balance_of_def d1(2))
  have cov: "\<forall>r. covering = Some r \<longrightarrow> r \<in> set (reservations d1) \<and> rs_status r = RS_BOOKED"
    using g(7) covering_reservation_SomeD by metis
  have "calendar_ok d1" using d1(1) by (simp add: system_ok_def)
  from own_window [OF this, of plug_id now user_id] g(8) [unfolded g(7) pid(1)]
  have others: "\<forall>r \<in> set (reservations d1). rs_plug_id r = plug_id \<and> rs_status r = RS_BOOKED \<and> rs_start_at r \<le> now
      \<and> now < rs_end_at r \<longrightarrow> rs_user_id r = user_id" by blast
  have held: "held_coins d1 = held_coins (w_db w)" using d1(5) by (rule held_coins_cong)
  have "plug \<in> set (plugs d1)" "0 \<le> max_rate_over_window cfg zones d1 plug now (duration_or_day md)"
    using pid(2) d1(4) rates by (auto intro!: max_rate_nonneg simp: g(6) rates_ok_def)
  note run = begin_keeps [OF d1(1) ok(2) this(1) g(5) b ok(3) this(2) cov ran(2)]
  from run have "system_ok cfg (w_db w')" using ok(1) ran(3) by cases simp_all
  moreover have same: "users (w_db w') = users (w_db w)" "ledger (w_db w') = ledger (w_db w)"
    using run d1(2,3) ran(3) by (cases; simp)+
  moreover from run g(2-5,9,10) others pid(1) held d1(5) ran(3) have ?outcome
    by cases (simp_all add: g(6) is_active_of_def)
  ultimately show ?thesis using drift_cong [OF same] by simp
qed

theorem start_charging_session_safe_witness:
  "\<exists>w' s. start_charging_session default_config ist_zones 0 two_drivers 1 1 (Some 2) None True = (w', Inr s)
     \<and> system_ok default_config (w_db w') \<and> cs_status s = ACTIVE
     \<and> int (count_where (is_active_of 1) (charging_sessions (w_db w'))) \<le> MAX_ACTIVE_SESSIONS_PER_USER default_config"
proof -
  have pre: "system_ok default_config (w_db two_drivers)" "ENFORCE_CIRCUIT_ADMISSION default_config"
    "request_ok (Some 2)" "rates_ok default_config (w_db two_drivers)" by code_simp+
  obtain w' res where r: "start_charging_session default_config ist_zones 0 two_drivers 1 1 (Some 2) None True = (w', res)"
    by fastforce
  have "case snd (start_charging_session default_config ist_zones 0 two_drivers 1 1 (Some 2) None True)
      of Inl _ \<Rightarrow> False | Inr _ \<Rightarrow> True" by code_simp
  with r obtain s where "res = Inr s" by (auto split: sum.splits)
  with start_charging_session_safe [OF pre r] r show ?thesis by auto
qed

text \<open>
  C31. Stopping through the endpoint either settles the caller's own running session, with the
  receipt of \<open>finalize_charging_session\<close>, or changes nothing in the database; a session of
  somebody else, or an unknown one, is reported as not found.
\<close>

theorem stop_charging_session_outcomes:
  assumes "stop_charging_session cfg now w session_id user_id = (w', res)"
  shows "(\<exists>r s. res = Inr r \<and> find_session (w_db w) session_id (Some user_id) = Some s \<and> cs_status s = ACTIVE
             \<and> cs_user_id s = user_id \<and> finalize_charging_session cfg now w session_id (Some user_id) None = (w', Inr (Some r)))
       \<or> (w_db w' = w_db w \<and> (\<exists>err. res = Inl err)
           \<and> (find_session (w_db w) session_id (Some user_id) = None \<longrightarrow> res = Inl (HTTPException 404 ''Session not found.'')))"
proof -
  obtain w1 res1 where f: "finalize_charging_session cfg now w session_id (Some user_id) None = (w1, res1)" by fastforce
  then show ?thesis
  proof (cases rule: finalize_receipt_cases)
    case no_session
    then show ?thesis using assms f by (auto simp: stop_charging_session_def split: if_splits)
  next
    case (failed err)
    have "find_session (w_db w) session_id (Some user_id) \<noteq> None"
      using f failed(2) by (auto simp: finalize_charging_session_def split: option.splits)
    then show ?thesis using assms f failed by (auto simp: stop_charging_session_def)
  next
    case (settled s plug d' q b)
    have "w' = w1" "res = Inr (make_receipt cfg now s q b None)"
      using assms f settled(6) by (auto simp: stop_charging_session_def)
    then show ?thesis using f settled(1,2,6) find_session_SomeD [OF settled(1)] by auto
  qed
qed

theorem stop_charging_session_outcomes_witness:
  "\<exists>err. snd (stop_charging_session default_config 0 sample_world 7 1) = Inl err
     \<and> w_db (fst (stop_charging_session default_config 0 sample_world 7 1)) = w_db sample_world"
proof -
  obtain w' res where r: "stop_charging_session default_config 0 sample_world 7 1 = (w', res)" by fastforce
  have none: "find_session (w_db sample_world) 7 (Some 1) = None"
    by (simp add: find_session_def sample_world_def sample_session_def empty_db_def empty_world_def)
  with stop_charging_session_outcomes [OF r] r show ?thesis by auto
qed

lemma update_limits_cases:
  assumes "update_session_limits cfg zones now w i u k m = (w', res)"
  obtains (refused) err where "w' = w" "res = Inl err"
  | (updated) s plug s1 where "find_session (w_db w) i (Some u) = Some s" "cs_status s = ACTIVE"
      "row_by pl_id (cs_plug_id s) (plugs (w_db w)) = Some plug"
      "s1 = s\<lparr>cs_max_duration_seconds := (case m of Some x \<Rightarrow> Some x | None \<Rightarrow> cs_max_duration_seconds s),
              cs_max_kwh := (case k of Some x \<Rightarrow> Some x | None \<Rightarrow> cs_max_kwh s)\<rparr>"
      "w_db w' = upd_session i (\<lambda>_. s1\<lparr>cs_hold_coins := resized_hold cfg zones now (w_db w) plug s1\<rparr>) (w_db w)"
      "res = Inr (s1\<lparr>cs_hold_coins := resized_hold cfg zones now (w_db w) plug s1\<rparr>)"
      "\<forall>x. k = Some x \<longrightarrow> cs_energy_kwh s \<le> x"
proof (cases "\<exists>err. res = Inl err")
  case True
  then show ?thesis using assms refused
    by (auto simp: update_session_limits_def Let_def split: if_splits option.splits)
next
  case False
  obtain s where s: "find_session (w_db w) i (Some u) = Some s"
    using assms False by (auto simp: update_session_limits_def split: if_splits option.splits)
  have act: "cs_status s = ACTIVE" and le: "\<forall>x. k = Some x \<longrightarrow> cs_energy_kwh s \<le> x"
    using assms False s by (auto simp: update_session_limits_def not_less split: if_splits option.splits)
  obtain plug where plug: "row_by pl_id (cs_plug_id s) (plugs (w_db w)) = Some plug"
    using assms False s by (auto simp: update_session_limits_def split: if_splits option.splits)
  show ?thesis
    by (rule updated [OF s act plug refl _ _ le])
       (use assms False s act plug in \<open>auto simp: update_session_limits_def Let_def split: if_splits\<close>)
qed

lemma resized_hold_bounds:
  assumes ok: "money_ok d" and b: "balance_of d (cs_user_id s) = Some b"
    and h: "cs_hold_coins s = Some h" "0 \<le> h" "h \<le> held_coins d (cs_user_id s)"
    and accrued: "0 \<le> session_cost cfg s (cs_energy_kwh s)" "session_cost cfg s (cs_energy_kwh s) \<le> h"
  obtains h' where "resized_hold cfg zones now d plug s = Some h'" "session_cost cfg s (cs_energy_kwh s) \<le> h'" "0 \<le> h'"
    "h' \<le> b - held_coins d (cs_user_id s) + h"
proof (cases "cs_max_kwh s")
  case None
  then have "resized_hold cfg zones now d plug s = Some h" by (simp add: resized_hold_def h(1))
  then show ?thesis using that [of h] available_balance_eq(2) [OF ok b] h accrued by simp
next
  case (Some k)
  let ?head = "b - held_coins d (cs_user_id s) + h" and ?cost = "session_cost cfg s (cs_energy_kwh s)"
  let ?e = "energy_cost k (Finite (money_dec (max_rate_over_window cfg zones d plug now (duration_or_day (cs_max_duration_seconds s)))))"
  note av = available_balance_eq [OF ok b]
  have bmax: "b \<le> MAX_MONEY" using ok b balances_ok_balance by (auto simp: money_ok_def)
  have head: "0 \<le> ?head" "?head \<le> MAX_MONEY" using av(2) h(2,3) bmax by auto
  have c: "to_money_m ?cost = ?cost" using session_cost_bounds by (rule to_money_m_id)
  have e: "\<bar>min ?head ?e\<bar> \<le> MAX_MONEY" using head energy_cost_bounds [of k] by (auto simp: abs_le_iff min_def)
  have m: "\<bar>max ?cost (min ?head ?e)\<bar> \<le> MAX_MONEY" using e session_cost_bounds [of cfg s "cs_energy_kwh s"] by (auto simp: abs_le_iff max_def)
  have "resized_hold cfg zones now d plug s = Some (max ?cost (min ?head ?e))"
    by (simp add: resized_hold_def h(1) Some Let_def av(1) c to_money_m_id [OF e] to_money_m_id [OF m])
  then show ?thesis using that accrued av(2) h by auto
qed

lemma money_ok_rehold:
  assumes ok: "money_ok d" and s: "s \<in> set (charging_sessions d)" "cs_id s = i" "cs_status s = ACTIVE" "cs_user_id s = u"
    and s2: "cs_id s2 = i" "cs_user_id s2 = u" "cs_plug_id s2 = cs_plug_id s" "cs_status s2 = ACTIVE" "cs_hold_coins s2 = Some h'"
    and h: "cs_hold_coins s = Some h" "0 \<le> h'" "h' \<le> b - held_coins d u + h" "balance_of d u = Some b"
  shows "money_ok (upd_session i (\<lambda>_. s2) d)"
proof -
  let ?d = "upd_session i (\<lambda>_. s2) d"
  have k: "distinct (map cs_id (charging_sessions d))" "keys_ok d" "holds_ok d" "balances_ok d"
    using ok by (auto simp: money_ok_def keys_ok_def)
  have row: "row_by cs_id i (charging_sessions d) = Some s" using row_by_in_set [OF k(1) s(1)] s(2) by simp
  have held: "held_coins ?d v = held_coins d v + (if v = u then h' - h else 0)" for v
    unfolding held_coins_def upd_session_simps sum_where_update_key [OF k(1) row]
    using s s2 h(1) by (simp add: hold_of_def)
  have ids: "map cs_id (charging_sessions ?d) = map cs_id (charging_sessions d)"
    by (auto simp: update_where_def s2(1))
  have "us_coin_balance x = b" if "x \<in> set (users d)" "us_id x = u" for x
    using that h(4) k(2) row_by_in_set [of us_id "users d" x] by (simp add: keys_ok_def balance_of_def)
  then have users: "held_coins ?d (us_id x) \<le> us_coin_balance x" if "x \<in> set (users d)" for x
    using that k(3) h(3) unfolding held by (fastforce simp: holds_ok_def list_all_iff)
  have bal: "balance_of ?d = balance_of d" by (rule balance_of_cong) simp
  have "holds_ok ?d"
    using k(3) users s s2 h
    unfolding holds_ok_def bal list_all_iff by (auto simp: set_update_where hold_of_def)
  with k ids show ?thesis by (simp add: money_ok_def keys_ok_def balances_ok_def)
qed

lemma limits_outcome:
  assumes ok: "money_ok (w_db w)"
    and s: "find_session (w_db w) i (Some u) = Some s" "session_sane cfg s"
      "session_cost cfg s (cs_energy_kwh s) \<le> hold_of s"
    and run: "update_session_limits cfg zones now w i u k m = (w', res)"
  shows "case res of
       Inl err \<Rightarrow> w' = w
     | Inr s' \<Rightarrow> session_cost cfg s' (cs_energy_kwh s') \<le> hold_of s' \<and> cs_energy_kwh s' = cs_energy_kwh s
         \<and> (\<forall>x. k = Some x \<longrightarrow> cs_energy_kwh s \<le> x) \<and> money_ok (w_db w') \<and> drift (w_db w') = drift (w_db w)"
  using run
proof (cases rule: update_limits_cases)
  case (updated s0 plug s1)
  have s0: "s0 = s" using updated(1) s(1) by simp
  have mem: "s \<in> set (charging_sessions (w_db w))" "cs_id s = i" "cs_user_id s = u" using find_session_SomeD [OF s(1)] by auto
  have act: "cs_status s = ACTIVE" using updated(2) s0 by simp
  have row: "cs_hold_coins s \<noteq> None" "0 \<le> hold_of s" "balance_of (w_db w) u \<noteq> None" "row_by pl_id (cs_plug_id s) (plugs (w_db w)) \<noteq> None"
    using ok mem act by (auto simp: money_ok_def holds_ok_def list_all_iff)
  then obtain h b where h: "cs_hold_coins s = Some h" and b: "balance_of (w_db w) u = Some b" by auto
  have hold: "hold_of s = h" by (simp add: hold_of_def h)
  have f: "cs_id s1 = i" "cs_user_id s1 = u" "cs_plug_id s1 = cs_plug_id s" "cs_status s1 = ACTIVE" "cs_hold_coins s1 = Some h"
    "cs_energy_kwh s1 = cs_energy_kwh s" using updated(4) s0 mem act h by simp_all
  have cost: "session_cost cfg s1 = session_cost cfg s"
    by (simp add: updated(4) s0 fun_eq_iff session_cost_def current_rate_def settled_of_def split: option.split)
  have hle: "h \<le> held_coins (w_db w) u"
    using held_member_le [of "w_db w" s] ok mem act by (auto simp: money_ok_def hold)
  have nn: "0 \<le> session_cost cfg s (cs_energy_kwh s)"
    using s(2) by (intro session_cost_nonneg) (auto simp: session_sane_def)
  obtain h' where h': "resized_hold cfg zones now (w_db w) plug s1 = Some h'" "session_cost cfg s (cs_energy_kwh s) \<le> h'"
      "0 \<le> h'" "h' \<le> b - held_coins (w_db w) u + h"
    using resized_hold_bounds [OF ok, of s1 b h cfg zones now plug] f b hle hold row(2) s(3) nn by (metis cost)
  let ?s2 = "s1\<lparr>cs_hold_coins := Some h'\<rparr>"
  have d': "w_db w' = upd_session i (\<lambda>_. ?s2) (w_db w)" and res: "res = Inr ?s2" using updated(5,6) h'(1) by simp_all
  have "money_ok (w_db w')" unfolding d'
    using ok mem f act h hle h'(3,4) b by (intro money_ok_rehold [where h = h and h' = h' and b = b and s = s]) simp_all
  moreover have "drift (w_db w') = drift (w_db w)" by (rule drift_cong) (simp_all add: d')
  moreover have "session_cost cfg ?s2 = session_cost cfg s"
    unfolding cost [symmetric] by (simp add: fun_eq_iff session_cost_def current_rate_def settled_of_def split: option.split)
  ultimately show ?thesis using h'(2) updated(7) s0 f(6) by (simp add: res hold_of_def)
qed simp

text \<open>
  C16. Changing the limits of a running session cannot be used to escape the bill: while the amount
  accrued is within the hold, the resized hold still covers it, the holds of the user stay
  covered by the balance, no money moves, and a target below the energy already delivered is
  refused.
\<close>

theorem update_session_limits_covers_accrued:
  assumes ok: "money_ok (w_db w)"
    and s: "find_session (w_db w) i (Some u) = Some s" "session_sane cfg s"
      "session_cost cfg s (cs_energy_kwh s) \<le> hold_of s"
    and run: "update_session_limits cfg zones now w i u k m = (w', res)"
  shows "case res of
       Inl err \<Rightarrow> w' = w
     | Inr s' \<Rightarrow> session_cost cfg s' (cs_energy_kwh s') \<le> hold_of s' \<and> cs_energy_kwh s' = cs_energy_kwh s
         \<and> (\<forall>x. k = Some x \<longrightarrow> cs_energy_kwh s \<le> x) \<and> money_ok (w_db w') \<and> drift (w_db w') = drift (w_db w)"
  using ok s run by (rule limits_outcome)

theorem update_session_limits_covers_accrued_witness:
  "\<exists>s'. snd (update_session_limits default_config ist_zones 0 after_peak_world 1 1 (Some 12) None) = Inr s'
     \<and> session_cost default_config s' (cs_energy_kwh s') \<le> hold_of s'"
proof -
  have pre: "money_ok (w_db after_peak_world)" "find_session (w_db after_peak_world) 1 (Some 1) = Some after_peak_session"
    "session_sane default_config after_peak_session"
    "session_cost default_config after_peak_session (cs_energy_kwh after_peak_session) \<le> hold_of after_peak_session"
    by code_simp+
  obtain w' res where r: "update_session_limits default_config ist_zones 0 after_peak_world 1 1 (Some 12) None = (w', res)"
    by fastforce
  have "case snd (update_session_limits default_config ist_zones 0 after_peak_world 1 1 (Some 12) None)
      of Inl _ \<Rightarrow> False | Inr _ \<Rightarrow> True" by code_simp
  with r obtain s' where "res = Inr s'" by (auto split: sum.splits)
  with update_session_limits_covers_accrued [OF pre r] r show ?thesis by auto
qed

text \<open>
  The resize prices the whole energy target at the rates still ahead and forgets what earlier,
  dearer segments already cost: after a peak, a driver with 1000.00 coins who shortens the
  session is left with a hold below the price of the session's own energy target, although the
  wallet covers that price many times over.
\<close>

lemma resize_under_covers_after_peak:
  "\<exists>s'. snd (update_session_limits default_config ist_zones 61200000000 after_peak_world 1 1 (Some 20) (Some 7200)) = Inr s'
     \<and> cs_max_kwh s' = Some 20 \<and> hold_of s' = 10000 \<and> session_cost default_config s' 20 = 14000
     \<and> available_balance (w_db after_peak_world) 1 = 82000"
proof -
  have "case snd (update_session_limits default_config ist_zones 61200000000 after_peak_world 1 1 (Some 20) (Some 7200)) of
      Inl _ \<Rightarrow> False
    | Inr s' \<Rightarrow> cs_max_kwh s' = Some 20 \<and> hold_of s' = 10000 \<and> session_cost default_config s' 20 = 14000"
    by code_simp
  moreover have "available_balance (w_db after_peak_world) 1 = 82000" by code_simp
  ultimately show ?thesis by (auto split: sum.splits)
qed

end
