(* ===== verification/Platform.thy ===== *)
theory Platform
  imports Sessions
begin

text \<open>
  The invariant of the running platform and the operations that keep it.  \<open>platform_ok\<close> adds to the
  system invariant that running sessions carry sane meter and price data, that prices are not
  negative, and that queued requests are well formed.  \<open>keeps\<close> relates two states between which the
  invariant is kept and every wallet moves exactly with the ledger; it composes, so a sweep or a
  handler keeps it when its parts do.
\<close>

subsection \<open>Definitions\<close>

definition sessions_sane :: "config \<Rightarrow> db \<Rightarrow> bool" where
  "sessions_sane cfg d \<longleftrightarrow> list_all (\<lambda>s. cs_status s = ACTIVE \<longrightarrow> session_sane cfg s) (charging_sessions d)"

definition prices_ok :: "config \<Rightarrow> db \<Rightarrow> bool" where
  "prices_ok cfg d \<longleftrightarrow> rates_ok cfg d \<and> list_all (\<lambda>s. 0 \<le> ts_price_per_kwh s) (tariff_slots d)"

definition queue_ok :: "db \<Rightarrow> bool" where
  "queue_ok d \<longleftrightarrow> list_all (\<lambda>q. request_ok (qc_max_kwh q)) (queued_charges d)"

definition platform_ok :: "config \<Rightarrow> db \<Rightarrow> bool" where
  "platform_ok cfg d \<longleftrightarrow> system_ok cfg d \<and> sessions_sane cfg d \<and> prices_ok cfg d \<and> queue_ok d"

definition keeps :: "config \<Rightarrow> db \<Rightarrow> db \<Rightarrow> bool" where
  "keeps cfg d d' \<longleftrightarrow> (platform_ok cfg d \<longrightarrow> platform_ok cfg d' \<and> drift d' = drift d)"

subsection \<open>Composition\<close>

lemma keeps_refl [simp, intro]: "keeps cfg d d"
  by (simp add: keeps_def)

lemma keeps_trans [trans]: "keeps cfg d1 d2 \<Longrightarrow> keeps cfg d2 d3 \<Longrightarrow> keeps cfg d1 d3"
  by (simp add: keeps_def)

lemma platform_okD:
  assumes "platform_ok cfg d"
  shows "system_ok cfg d" "money_ok d" "keys_ok d" "balances_ok d" "calendar_ok d" "sessions_sane cfg d" "prices_ok cfg d" "queue_ok d"
    "rates_ok cfg d"
  using assms by (simp_all add: platform_ok_def system_ok_def money_ok_def prices_ok_def)

text \<open>An operation that touches neither wallets, ledger, sessions nor what the invariant reads of plugs.\<close>

lemma keeps_frame:
  assumes "users d' = users d" "ledger d' = ledger d" "plugs d' = plugs d" "charging_sessions d' = charging_sessions d"
    "charger_groups d' = charger_groups d" "tariffs d' = tariffs d" "tariff_slots d' = tariff_slots d"
    "platform_ok cfg d \<Longrightarrow> queue_ok d'" "platform_ok cfg d \<Longrightarrow> calendar_ok d'"
  shows "keeps cfg d d'"
proof -
  have "drift d' = drift d" using assms(1,2) by (rule drift_cong)
  then show ?thesis
    using assms system_ok_cong [of cfg d d']
    by (auto simp: keeps_def platform_ok_def sessions_sane_def prices_ok_def rates_ok_def)
qed

subsection \<open>Settlement\<close>

lemma system_ok_settled:
  assumes ok: "system_ok cfg d" and s: "s \<in> set (charging_sessions d)" "cs_status s = ACTIVE"
    and p: "balance_of d (cs_user_id s) = Some p" and q: "0 \<le> q" "q \<le> hold_of s"
  shows "system_ok cfg (settled_db now d s q (p - q))"
proof -
  let ?d = "settled_db now d s q (p - q)"
  have parts: "money_ok d" "occupancy_ok d" "circuit_ok cfg d" "caps_sane cfg d" "calendar_ok d" "keys_ok d"
    using ok by (auto simp: system_ok_def money_ok_def)
  have rows: "charging_sessions ?d = update_where (\<lambda>r. cs_id r = cs_id s)
      (\<lambda>r. r\<lparr>cs_status := COMPLETED, cs_coins_spent := q, cs_ended_at := Some now\<rparr>) (charging_sessions d)"
    "plugs ?d = update_where (\<lambda>r. pl_id r = cs_plug_id s) (\<lambda>p. p\<lparr>pl_status := AVAILABLE\<rparr>) (plugs d)"
    "charger_groups ?d = charger_groups d" "reservations ?d = reservations d" by (simp_all add: settled_db_def)
  have caps: "map cap_row (plugs ?d) = map cap_row (plugs d)" by (simp add: rows map_update_where cap_row_def)
  have "money_ok ?d" using parts(1) s p q by (rule money_ok_settled)
  moreover have "occupancy_ok ?d" by (rule occupancy_release [OF parts(2,6) s rows(1,2)]) simp_all
  moreover have "circuit_ok cfg ?d" by (rule circuit_ok_update [OF parts(3,4) caps rows(3,1)]) auto
  moreover have "caps_sane cfg ?d" using parts(4) caps_sane_cong [OF caps] by blast
  moreover have "calendar_ok ?d" using parts(5) rows(4) by (simp add: calendar_ok_def)
  ultimately show ?thesis by (simp add: system_ok_def)
qed

lemma settled_db_frame [simp]:
  "tariffs (settled_db now d s q b) = tariffs d" "tariff_slots (settled_db now d s q b) = tariff_slots d"
  "queued_charges (settled_db now d s q b) = queued_charges d" "charger_groups (settled_db now d s q b) = charger_groups d"
  "reservations (settled_db now d s q b) = reservations d"
  by (simp_all add: settled_db_def)

lemma platform_ok_settled:
  assumes ok: "platform_ok cfg d" and s: "s \<in> set (charging_sessions d)" "cs_status s = ACTIVE"
    and p: "balance_of d (cs_user_id s) = Some p" and q: "0 \<le> q" "q \<le> hold_of s"
  shows "platform_ok cfg (settled_db now d s q (p - q))"
proof -
  note parts = platform_okD [OF ok]
  have "system_ok cfg (settled_db now d s q (p - q))" using parts(1) s p q by (rule system_ok_settled)
  moreover have "sessions_sane cfg (settled_db now d s q (p - q))"
    using parts(6) by (auto simp: sessions_sane_def list_all_iff dest: sessions_settled)
  ultimately show ?thesis
    using parts(7,8) by (simp add: platform_ok_def prices_ok_def rates_ok_def queue_ok_def)
qed

text \<open>On a sane platform the stop path never fails: it settles a running session and does nothing otherwise.\<close>

lemma finalize_settles:
  assumes ok: "platform_ok cfg (w_db w)" and s: "find_session (w_db w) i u = Some s" "cs_status s = ACTIVE"
  obtains w' r where "finalize_charging_session cfg now w i u reason = (w', Inr (Some r))" "platform_ok cfg (w_db w')"
    "drift (w_db w') = drift (w_db w)"
    "charging_sessions (w_db w') = update_where (\<lambda>x. cs_id x = cs_id s)
       (\<lambda>x. x\<lparr>cs_status := COMPLETED, cs_coins_spent := requested_debit cfg s, cs_ended_at := Some now\<rparr>)
       (charging_sessions (w_db w))"
    "plugs (w_db w') = update_where (\<lambda>p. pl_id p = cs_plug_id s) (\<lambda>p. p\<lparr>pl_status := AVAILABLE\<rparr>) (plugs (w_db w))"
    "reservations (w_db w') = reservations (w_db w)"
proof -
  note parts = platform_okD [OF ok]
  have mem: "s \<in> set (charging_sessions (w_db w))" using find_session_SomeD [OF s(1)] by simp
  with parts(6) s(2) have sane: "session_sane cfg s" by (auto simp: sessions_sane_def list_all_iff)
  obtain p plug where p: "balance_of (w_db w) (cs_user_id s) = Some p" "0 \<le> requested_debit cfg s" "requested_debit cfg s \<le> hold_of s"
    and run: "finalize_charging_session cfg now w i u reason =
       (after_settlement cfg ((emit [Plug_Off (pl_gateway_id plug) (pl_id plug)] w)
             \<lparr>w_db := settled_db now (w_db w) s (requested_debit cfg s) (p - requested_debit cfg s)\<rparr>) s plug reason,
        Inr (Some (make_receipt cfg now s (requested_debit cfg s) (p - requested_debit cfg s) reason)))"
    using finalize_result [OF parts(2) s sane] by metis
  let ?d = "settled_db now (w_db w) s (requested_debit cfg s) (p - requested_debit cfg s)"
  let ?w = "after_settlement cfg ((emit [Plug_Off (pl_gateway_id plug) (pl_id plug)] w)\<lparr>w_db := ?d\<rparr>) s plug reason"
  have settled: "platform_ok cfg ?d" using ok mem s(2) p by (rule platform_ok_settled)
  have "queue_ok (w_db ?w)" "calendar_ok (w_db ?w)"
    using platform_okD(5,8) [OF settled] by (simp_all add: queue_ok_def calendar_ok_def)
  then have "keeps cfg ?d (w_db ?w)" by (intro keeps_frame) simp_all
  moreover have "drift ?d = drift (w_db w)" using drift_settled [OF p(1)] by (simp add: fun_eq_iff)
  ultimately show thesis
    using settled by (intro that [OF run]) (simp_all add: keeps_def, simp_all add: settled_db_def)
qed

lemma finalize_keeps: "keeps cfg (w_db w) (w_db (fst (finalize_charging_session cfg now w i u reason)))"
proof -
  consider "find_session (w_db w) i u = None" | s where "find_session (w_db w) i u = Some s" "cs_status s \<noteq> ACTIVE"
    | s where "find_session (w_db w) i u = Some s" "cs_status s = ACTIVE" by blast
  then show ?thesis
  proof cases
    case 3
    then show ?thesis unfolding keeps_def by (metis finalize_settles fst_conv)
  qed (simp_all add: finalize_charging_session_def)
qed

subsection \<open>Starting\<close>

lemma slot_rate_nonneg:
  assumes "list_all (\<lambda>s. 0 \<le> ts_price_per_kwh s) slots" "fst (slot_rate_and_bound slots t) = Some r"
  shows "0 \<le> r"
proof -
  from assms(2) obtain slot where "slot \<in> set slots" "r = to_money_m (ts_price_per_kwh slot)"
    by (auto simp: slot_rate_and_bound_def Let_def split: option.splits dest!: min_row_SomeD)
  with assms(1) show ?thesis by (simp add: list_all_iff to_money_m_clamp clamp_money_nonneg)
qed

lemma resolved_rate_nonneg:
  assumes "prices_ok cfg d"
  shows "0 \<le> fst (resolve_rate_window cfg zones d plug t)"
proof -
  have rates: "rates_ok cfg d" "list_all (\<lambda>s. 0 \<le> ts_price_per_kwh s) (tariff_slots d)" using assms by (simp_all add: prices_ok_def)
  obtain tariff z where r: "resolve_tariff_and_tz d plug = (tariff, z)" by fastforce
  show ?thesis
  proof (cases tariff)
    case None
    with r rates(1) show ?thesis by (simp add: resolve_rate_window_def default_rate_def rates_ok_def to_money_f_nonneg)
  next
    case (Some x)
    have "0 \<le> to_money_m (tf_price_per_kwh x)"
      using resolve_tariff_nonneg [OF rates(1)] r Some by (simp add: to_money_m_clamp clamp_money_nonneg)
    moreover have "list_all (\<lambda>s. 0 \<le> ts_price_per_kwh s) (slots_of d x)" using rates(2) by (auto simp: slots_of_def list_all_iff)
    ultimately show ?thesis
      using r Some slot_rate_nonneg by (simp add: resolve_rate_window_rate rate_at_def split: option.split)
  qed
qed

lemma claim_session_sane:
  assumes "prices_ok cfg d" "claim_session cfg zones now d u plug gw k m c = Inr (d', s)"
  shows "session_sane cfg s"
proof -
  from assms(2) obtain tid hold where s: "s = new_session now d tid u (pl_id plug) (fst (resolve_rate_window cfg zones d plug now)) hold
      (snd (resolve_rate_window cfg zones d plug now)) k m"
    by (auto simp: claim_session_def Let_def split: sum.splits prod.splits if_splits option.splits)
  show ?thesis
    using resolved_rate_nonneg [OF assms(1)]
    by (simp add: s new_session_def session_sane_def current_rate_def settled_of_def to_money_nonneg money_dec_def ZERO_MONEY_def)
qed

lemma begin_keeps_platform:
  assumes ok: "platform_ok cfg d" "ENFORCE_CIRCUIT_ADMISSION cfg"
    and plug: "plug \<in> set (plugs d)" "pl_status plug = AVAILABLE" "balance_of d user_id = Some b" "request_ok max_kwh"
    and c: "\<forall>r. c = Some r \<longrightarrow> r \<in> set (reservations d) \<and> rs_status r = RS_BOOKED"
    and run: "begin_active_session cfg zones now w d user_id plug gw max_kwh md c publish_ok = (w', res)"
  shows "(w' = w \<and> (\<exists>err. res = Inl err)) \<or> platform_ok cfg (w_db w') \<and> drift (w_db w') = drift d"
proof -
  note parts = platform_okD [OF ok(1)]
  have r0: "0 \<le> max_rate_over_window cfg zones d plug now (duration_or_day md)" using parts(9) by (rule max_rate_nonneg)
  note keeps = begin_keeps [OF parts(1) ok(2) plug r0 c run]
  from run show ?thesis
  proof (cases rule: begin_cases)
    case (started d' s)
    from keeps have "system_ok cfg (w_db w')" "w_db w' = claimed_db d s c" using started(4) by (cases; simp)+
    moreover from claim_session_sane [OF parts(7) started(1)] have "session_sane cfg s" .
    ultimately show ?thesis
      using parts(6-8) drift_cong [of "claimed_db d s c" d]
      by (simp add: platform_ok_def sessions_sane_def prices_ok_def rates_ok_def queue_ok_def)
  next
    case (undone d' s)
    from keeps undone(4) consider "w' = w"
      | t where "system_ok cfg (w_db w')" "w_db w' = unclaimed_db now (claimed_db d t c) t c" by cases auto
    then show ?thesis
    proof cases
      case (2 t)
      have "sessions_sane cfg (w_db w')" using parts(6) by (auto simp: 2(2) sessions_sane_def list_all_iff set_update_where)
      then show ?thesis
        using 2 parts(7,8) drift_cong [of "unclaimed_db now (claimed_db d t c) t c" d]
        by (simp add: platform_ok_def prices_ok_def rates_ok_def queue_ok_def)
    qed (use undone(4) in simp)
  qed simp
qed

lemma expire_keeps: "keeps cfg d (fst (expire_lapsed_reservations cfg' now d p ps u t))"
  by (rule keeps_frame) (auto dest: platform_okD(5,8) simp: queue_ok_def calendar_ok_expire)

lemma start_keeps:
  assumes "ENFORCE_CIRCUIT_ADMISSION cfg" "request_ok max_kwh"
  shows "keeps cfg (w_db w) (w_db (fst (start_charging_session cfg zones now w user_id plug_id max_kwh md publish_ok)))"
proof -
  obtain w' res where run: "start_charging_session cfg zones now w user_id plug_id max_kwh md publish_ok = (w', res)" by fastforce
  then have "keeps cfg (w_db w) (w_db w')"
  proof (cases rule: start_charging_session_cases)
    case (ran d1 plug gateway covering w1)
    note g = start_gates_InrD [OF ran(1)]
    have d1: "keeps cfg (w_db w) d1" unfolding g(6) by (rule expire_keeps)
    have plug: "plug \<in> set (plugs d1)" using row_by_SomeD [OF g(3)] by (simp add: g(6))
    obtain b where b: "balance_of d1 user_id = Some b" using g(1) by (auto simp: balance_of_def g(6))
    have cov: "\<forall>r. covering = Some r \<longrightarrow> r \<in> set (reservations d1) \<and> rs_status r = RS_BOOKED"
      using g(7) covering_reservation_SomeD by metis
    show ?thesis
      using begin_keeps_platform [OF _ assms(1) plug g(5) b assms(2) cov ran(2)] d1 ran(3) by (auto simp: keeps_def)
  qed simp
  then show ?thesis by (simp add: run)
qed

subsection \<open>Rewriting one session row\<close>

lemma update_where_hit: "q \<in> set (update_where P f rows) \<Longrightarrow> P q \<Longrightarrow> \<exists>r \<in> set rows. P r \<and> q = f r"
  by (auto simp: update_where_def split: if_splits)

lemma update_where_key:
  assumes "distinct (map key rows)" "x \<in> set rows"
  shows "update_where (\<lambda>r. key r = key x) f rows = update_where (\<lambda>r. r = x) f rows"
  using assms distinct_key_eq [OF assms(1)] unfolding update_where_def by (intro map_cong) auto

lemma platform_ok_rows:
  assumes ok: "platform_ok cfg d"
    and f: "\<And>s. P s \<Longrightarrow> cs_id (f s) = cs_id s \<and> cs_plug_id (f s) = cs_plug_id s \<and> cs_status (f s) = cs_status s"
      "\<And>s. s \<in> set (charging_sessions d) \<Longrightarrow> P s \<Longrightarrow> cs_status s = ACTIVE \<Longrightarrow> session_sane cfg s \<Longrightarrow> session_sane cfg (f s)"
    and d'_def: "d' = d\<lparr>charging_sessions := update_where P f (charging_sessions d)\<rparr>" and money: "money_ok d'"
  shows "platform_ok cfg d'" "drift d' = drift d"
proof -
  note parts = platform_okD [OF ok]
  have sys: "occupancy_ok d" "circuit_ok cfg d" "caps_sane cfg d" using parts(1) by (simp_all add: system_ok_def)
  have rows: "charging_sessions d' = update_where P f (charging_sessions d)" by (simp add: d'_def)
  have "occupancy_ok d'"
  proof -
    have "\<exists>r0 \<in> set (charging_sessions d). cs_id r0 = cs_id r \<and> cs_plug_id r0 = cs_plug_id r \<and> cs_status r0 = cs_status r"
      if "r \<in> set (charging_sessions d')" for r
    proof -
      from that obtain r0 where "r0 \<in> set (charging_sessions d)" "r = (if P r0 then f r0 else r0)"
        unfolding rows set_update_where by blast
      then show ?thesis using f(1) by (intro bexI [of _ r0]) simp_all
    qed
    moreover have "plugs d' = plugs d" by (simp add: d'_def)
    ultimately show ?thesis using sys(1) unfolding occupancy_ok_iff by metis
  qed
  moreover have "circuit_ok cfg d'" by (rule circuit_ok_update [OF sys(2,3) _ _ rows]) (use f(1) in \<open>auto simp: d'_def\<close>)
  moreover have "caps_sane cfg d'" using sys(3) by (simp add: caps_sane_def d'_def)
  moreover have "calendar_ok d'" using parts(5) by (simp add: calendar_ok_def d'_def)
  moreover have "sessions_sane cfg d'"
    using parts(6) f unfolding sessions_sane_def list_all_iff rows set_update_where by auto
  ultimately show "platform_ok cfg d'"
    using money parts(7,8) by (simp add: platform_ok_def system_ok_def prices_ok_def rates_ok_def queue_ok_def d'_def)
  show "drift d' = drift d" by (rule drift_cong) (simp_all add: d'_def)
qed

lemma platform_ok_row:
  assumes ok: "platform_ok cfg d" and s: "s \<in> set (charging_sessions d)"
    and s': "cs_id s' = cs_id s" "cs_plug_id s' = cs_plug_id s" "cs_status s' = cs_status s" "cs_status s = ACTIVE \<Longrightarrow> session_sane cfg s'"
    and money: "money_ok (upd_session (cs_id s) (\<lambda>_. s') d)"
  shows "platform_ok cfg (upd_session (cs_id s) (\<lambda>_. s') d)" "drift (upd_session (cs_id s) (\<lambda>_. s') d) = drift d"
proof -
  have d': "upd_session (cs_id s) (\<lambda>_. s') d = d\<lparr>charging_sessions := update_where (\<lambda>r. r = s) (\<lambda>_. s') (charging_sessions d)\<rparr>"
    using update_where_key [of cs_id "charging_sessions d" s "\<lambda>_. s'"] platform_okD(3) [OF ok] s by (simp add: keys_ok_def upd_session_def)
  show "platform_ok cfg (upd_session (cs_id s) (\<lambda>_. s') d)" "drift (upd_session (cs_id s) (\<lambda>_. s') d) = drift d"
    by (rule platform_ok_rows [OF ok _ _ d' money]; use s' in auto)+
qed

lemma platform_ok_session_row:
  assumes ok: "platform_ok cfg d" and s: "s \<in> set (charging_sessions d)"
    and s': "cs_id s' = cs_id s" "cs_user_id s' = cs_user_id s" "cs_plug_id s' = cs_plug_id s"
      "cs_hold_coins s' = cs_hold_coins s" "cs_status s' = cs_status s" "cs_status s = ACTIVE \<Longrightarrow> session_sane cfg s'"
  shows "platform_ok cfg (upd_session (cs_id s) (\<lambda>_. s') d)" "drift (upd_session (cs_id s) (\<lambda>_. s') d) = drift d"
proof -
  have rows: "charging_sessions (upd_session (cs_id s) (\<lambda>_. s') d) = update_where (\<lambda>r. r = s) (\<lambda>_. s') (charging_sessions d)"
    using update_where_key [of cs_id "charging_sessions d" s "\<lambda>_. s'"] platform_okD(3) [OF ok] s by (simp add: keys_ok_def)
  have money: "money_ok (upd_session (cs_id s) (\<lambda>_. s') d)"
    by (rule money_ok_deactivate [OF platform_okD(2) [OF ok] _ _ rows]) (use s' in auto)
  show "platform_ok cfg (upd_session (cs_id s) (\<lambda>_. s') d)" "drift (upd_session (cs_id s) (\<lambda>_. s') d) = drift d"
    using platform_ok_row [OF ok s s'(1,3,5) _ money] s'(6) by blast+
qed

subsection \<open>Rewriting plugs and the catalogue\<close>

lemma plug_rows_keeps:
  assumes cap: "\<And>r. P r \<Longrightarrow> cap_row (h r) = cap_row r"
    and free: "\<And>r s. P r \<Longrightarrow> pl_status (h r) = AVAILABLE \<Longrightarrow> s \<in> set (charging_sessions d) \<Longrightarrow> cs_status s = ACTIVE \<Longrightarrow>
      cs_plug_id s = pl_id r \<Longrightarrow> pl_status r = AVAILABLE"
  shows "keeps cfg d (d\<lparr>plugs := update_where P h (plugs d)\<rparr>)" (is "keeps cfg d ?d")
proof -
  have id: "pl_id (h r) = pl_id r" if "P r" for r using cap [OF that] by (simp add: cap_row_def)
  have "platform_ok cfg ?d" if ok: "platform_ok cfg d"
  proof -
    note parts = platform_okD [OF ok]
    have sys: "occupancy_ok d" "circuit_ok cfg d" "caps_sane cfg d" using parts(1) by (simp_all add: system_ok_def)
    have rows: "charging_sessions ?d = update_where (\<lambda>_. False) (\<lambda>s. s) (charging_sessions d)" by (simp add: update_where_def)
    have caps: "map cap_row (plugs ?d) = map cap_row (plugs d)" using cap by (simp add: map_update_where)
    have "money_ok ?d" by (rule money_ok_deactivate [OF parts(2) _ _ rows]) (simp_all add: map_update_where id)
    moreover have "occupancy_ok ?d"
      unfolding occupancy_ok_iff
    proof (intro ballI impI conjI)
      fix s r assume s: "s \<in> set (charging_sessions ?d)" "cs_status s = ACTIVE" and r: "r \<in> set (plugs ?d)" "pl_id r = cs_plug_id s"
      obtain r0 where r0: "r0 \<in> set (plugs d)" "r = (if P r0 then h r0 else r0)" using r(1) by (auto simp: set_update_where)
      have "pl_id r0 = cs_plug_id s" using r(2) r0(2) id by (simp split: if_splits)
      with sys(1) s r0(1) have "pl_status r0 \<noteq> AVAILABLE" by (auto simp: occupancy_ok_iff)
      with free [of r0 s] s r0(2) \<open>pl_id r0 = cs_plug_id s\<close> show "pl_status r \<noteq> AVAILABLE" by auto
    next
      fix s s' assume "s \<in> set (charging_sessions ?d)" "cs_status s = ACTIVE" "s' \<in> set (charging_sessions ?d)"
        "cs_status s' = ACTIVE \<and> cs_plug_id s' = cs_plug_id s"
      moreover have "charging_sessions ?d = charging_sessions d" by simp
      ultimately show "cs_id s' = cs_id s" using sys(1) unfolding occupancy_ok_iff by metis
    qed
    moreover have "circuit_ok cfg ?d" by (rule circuit_ok_update [OF sys(2,3) caps _ rows]) simp_all
    moreover have "caps_sane cfg ?d" using sys(3) caps_sane_cong [OF caps] by blast
    moreover have "calendar_ok ?d" using parts(5) by (simp add: calendar_ok_def)
    ultimately show ?thesis
      using parts(6-8) by (simp add: platform_ok_def system_ok_def sessions_sane_def prices_ok_def rates_ok_def queue_ok_def)
  qed
  moreover have "drift ?d = drift d" by (rule drift_cong) simp_all
  ultimately show ?thesis by (simp add: keeps_def)
qed

lemma circuit_ok_groups:
  assumes "circuit_ok cfg d" "map (\<lambda>g. (cg_id g, cg_max_current_a g)) (charger_groups d') = map (\<lambda>g. (cg_id g, cg_max_current_a g)) (charger_groups d)"
    "plugs d' = plugs d" "charging_sessions d' = charging_sessions d"
  shows "circuit_ok cfg d'"
proof -
  have row: "map_option cg_max_current_a (row_by cg_id i gs) = map_of (map (\<lambda>g. (cg_id g, cg_max_current_a g)) gs) i" for i gs
    by (induction gs) (auto simp: row_by_Cons)
  have cap: "group_cap x i = (case map_of (map (\<lambda>g. (cg_id g, cg_max_current_a g)) (charger_groups x)) i of None \<Rightarrow> None | Some c \<Rightarrow> c)" for x i
    unfolding row [symmetric] by (simp add: group_cap_def split: option.split)
  have caps: "group_cap d' = group_cap d" by (simp add: cap assms(2) fun_eq_iff)
  have load: "circuit_load_a cfg d' i None = circuit_load_a cfg d i None" for i
    unfolding circuit_load_a_def active_group_plugs_def assms(3,4) ..
  have ids: "map cg_id (charger_groups d') = map cg_id (charger_groups d)"
    using arg_cong [OF assms(2), of "map fst"] by (simp add: o_def)
  have "circuit_ok cfg x \<longleftrightarrow> list_all (\<lambda>i. case group_cap x i of None \<Rightarrow> True
      | Some m \<Rightarrow> circuit_load_a cfg x i None \<le> fadd m ADMISSION_EPS) (map cg_id (charger_groups x))" for x
    by (simp add: circuit_ok_def list_all_iff)
  then show ?thesis using assms(1) by (simp only: caps load ids)
qed

lemma catalogue_keeps:
  assumes "users d' = users d" "ledger d' = ledger d" "plugs d' = plugs d" "charging_sessions d' = charging_sessions d"
    "queued_charges d' = queued_charges d" "reservations d' = reservations d"
    "map (\<lambda>g. (cg_id g, cg_max_current_a g)) (charger_groups d') = map (\<lambda>g. (cg_id g, cg_max_current_a g)) (charger_groups d)"
    "prices_ok cfg d \<Longrightarrow> prices_ok cfg d'"
  shows "keeps cfg d d'"
proof -
  have "platform_ok cfg d'" if ok: "platform_ok cfg d"
  proof -
    note parts = platform_okD [OF ok]
    have "circuit_ok cfg d'" by (rule circuit_ok_groups [of cfg d]) (use parts(1) assms in \<open>simp_all add: system_ok_def\<close>)
    moreover have "balance_of d' = balance_of d" "held_coins d' = held_coins d"
      using balance_of_cong [OF assms(1)] held_coins_cong [OF assms(4)] by blast+
    ultimately show ?thesis
      using parts assms
      by (simp add: platform_ok_def system_ok_def money_ok_def keys_ok_def balances_ok_def holds_ok_def occupancy_ok_def caps_sane_def
          calendar_ok_def sessions_sane_def queue_ok_def)
  qed
  moreover have "drift d' = drift d" using assms(1,2) by (rule drift_cong)
  ultimately show ?thesis by (simp add: keeps_def)
qed

subsection \<open>Repricing\<close>

lemma reprice_fields:
  assumes "reprice_session_if_due cfg zones d s plug t = (s', n)"
  shows "cs_id s' = cs_id s" "cs_user_id s' = cs_user_id s" "cs_plug_id s' = cs_plug_id s" "cs_hold_coins s' = cs_hold_coins s"
    "cs_status s' = cs_status s" "cs_energy_kwh s' = cs_energy_kwh s"
  using assms by (auto simp: reprice_session_if_due_def close_out_segment_def Let_def split: option.splits if_splits prod.splits)

lemma reprice_sane:
  assumes "session_sane cfg s" "prices_ok cfg d" "reprice_session_if_due cfg zones d s plug t = (s', n)"
  shows "session_sane cfg s'"
proof -
  have rate: "0 \<le> to_money (Finite (money_dec (fst (resolve_rate_window cfg zones d plug t))))"
    using resolved_rate_nonneg [OF assms(2)] by (intro to_money_nonneg) (simp add: money_dec_def)
  have close: "session_sane cfg (close_out_segment cfg s r (cs_energy_kwh s) v)"
    if "0 \<le> to_money (Finite (money_dec r))" for r v
    using that assms(1) close_out_settled [of "cs_energy_kwh s" cfg s r v] session_cost_nonneg [of "cs_energy_kwh s" cfg s]
    by (simp add: session_sane_def current_rate_def)
  have keep: "session_sane cfg (s\<lparr>cs_rate_valid_until := v\<rparr>)" for v
    using assms(1) by (simp add: session_sane_def current_rate_def settled_of_def)
  show ?thesis
    using assms(1,3) close [OF rate] keep
    by (auto simp: reprice_session_if_due_def Let_def split: option.splits if_splits prod.splits)
qed

subsection \<open>The other driver operations\<close>

lemma stop_keeps: "keeps cfg (w_db w) (w_db (fst (stop_charging_session cfg now w session_id user_id)))"
proof -
  have "fst (stop_charging_session cfg now w session_id user_id) = fst (finalize_charging_session cfg now w session_id (Some user_id) None)"
    by (auto simp: stop_charging_session_def split: prod.splits sum.splits option.splits)
  then show ?thesis by (simp add: finalize_keeps)
qed

lemma queue_charge_keeps:
  assumes "request_ok max_kwh"
  shows "keeps cfg (w_db w) (w_db (fst (queue_charge cfg now w user_id plug_id max_kwh md)))"
  using assms
  by (auto simp: queue_charge_def Let_def queue_ok_def calendar_ok_def split: option.splits sum.splits
      intro!: keeps_frame dest: platform_okD(5,8))

lemma keeps_queue_update:
  assumes "\<And>q. qc_max_kwh (f q) = qc_max_kwh q"
  shows "keeps cfg d (d\<lparr>queued_charges := update_where P f (queued_charges d)\<rparr>)"
  by (rule keeps_frame)
    (auto simp: queue_ok_def calendar_ok_def list_all_iff set_update_where assms dest: platform_okD(5,8))

lemma cancel_queued_keeps: "keeps cfg (w_db w) (w_db (fst (cancel_queued_charge w qid user_id)))"
  by (auto simp: cancel_queued_charge_def split: option.splits intro!: keeps_queue_update)

text \<open>Everything drivers and operators do to the calendar.\<close>

lemma expire_only_reservations:
  "\<exists>rs. fst (expire_lapsed_reservations cfg now d p ps u t) = d\<lparr>reservations := rs\<rparr>"
  by (auto simp: expire_lapsed_reservations_def Let_def)

lemma book_only_reservations:
  assumes "book_on_plug cfg now d user_id plug_id start_at end_at = Inr (d', r)"
  shows "\<exists>rs. d' = d\<lparr>reservations := rs\<rparr>"
  using assms
  by (auto simp: book_on_plug_def expire_lapsed_reservations_def Let_def split: option.splits sum.splits if_splits)

lemma calendar_step_only_reservations:
  assumes "calendar_step cfg w w'"
  shows "\<exists>rs. w_db w' = (w_db w)\<lparr>reservations := rs\<rparr>"
  using assms
proof (cases rule: calendar_stepE)
  case (book now user_id plug_id start_at end_at)
  obtain res where "create_reservation cfg now w user_id plug_id start_at end_at = (w', res)" using book by (metis prod.collapse)
  then show ?thesis
  proof (cases rule: create_reservation_cases)
    case (booked d1 d' r)
    obtain rs1 where "d1 = (w_db w)\<lparr>reservations := rs1\<rparr>"
      using booked(1) expire_only_reservations [of cfg now "w_db w" None None "Some user_id" None] by auto
    with book_only_reservations [OF booked(3)] booked(5) show ?thesis by auto
  qed (auto intro: exI [of _ "reservations (w_db w)"])
next
  case (cancel i user)
  have "w_db w' = w_db w \<or> w_db w' = upd_reservation i (\<lambda>r. r\<lparr>rs_status := RS_CANCELLED\<rparr>) (w_db w)"
    by (simp add: cancel cancel_reservation_def Let_def split: option.split)
  then show ?thesis by (auto simp: upd_reservation_def intro: exI [of _ "reservations (w_db w)"])
next
  case (my_list now user_id)
  then show ?thesis by (simp add: my_reservations_def Let_def expire_only_reservations)
next
  case (schedule now plug_id user_id)
  have "w_db w' = w_db w \<or> (\<exists>p. w_db w' = fst (expire_lapsed_reservations cfg now (w_db w) p None None None))"
    by (auto simp: schedule plug_reservations_def Let_def split: option.split sum.split)
  then show ?thesis using expire_only_reservations by (metis (no_types) db.surjective db.update_convs(15))
next
  case (expire now p ps u t)
  then show ?thesis by (simp add: expire_only_reservations)
next
  case (fulfil i s)
  then show ?thesis by (auto simp: upd_reservation_def)
next
  case (give_back i)
  then show ?thesis by (auto simp: give_back_window_def upd_reservation_def)
qed

lemma calendar_step_keeps:
  assumes "calendar_step cfg' w w'"
  shows "keeps cfg (w_db w) (w_db w')"
proof -
  obtain rs where rs: "w_db w' = (w_db w)\<lparr>reservations := rs\<rparr>" using calendar_step_only_reservations [OF assms] by blast
  show ?thesis
    by (rule keeps_frame)
      (use calendar_step_ok [OF _ assms] in \<open>auto simp: rs queue_ok_def dest: platform_okD(5,8)\<close>)
qed

end
