(* ===== verification/Reaper.thy ===== *)
theory Reaper
  imports Platform
begin

text \<open>
  The session janitor (\<open>backend/services/session_reaper.py\<close>): one tick runs six sweeps in a fixed
  order and, every so many ticks, prunes the forwarded gateway logs.  Each sweep first reads its
  candidates and then handles every candidate in a transaction of its own, re-reading the row, so a
  failure on one row leaves the others alone.  Every sweep reads the clock once; \<open>clock\<close> gives its
  instant.  Whether the ON command of an automatic start is published is an argument.
\<close>

subsection \<open>Sessions without telemetry and sessions past their limit\<close>

definition seconds_us :: "pyfloat \<Rightarrow> int" where
  "seconds_us s = round_half_even (s * 1000000)"

definition REAP_REASON :: string where
  "REAP_REASON = ''auto-stopped: telemetry lost''"

definition TIME_LIMIT_REAP_REASON :: string where
  "TIME_LIMIT_REAP_REASON = ''auto-stopped: time limit reached''"

definition RESERVATION_REAP_REASON :: string where
  "RESERVATION_REAP_REASON = ''auto-stopped: plug reserved''"

definition is_stale :: "timestamp \<Rightarrow> charging_session \<Rightarrow> bool" where
  "is_stale cutoff s \<longleftrightarrow> cs_status s = ACTIVE
     \<and> (case cs_last_telemetry_at s of Some t \<Rightarrow> t | None \<Rightarrow> cs_started_at s) < cutoff"

definition stale_session_ids :: "db \<Rightarrow> timestamp \<Rightarrow> int list" where
  "stale_session_ids d cutoff = map cs_id (filter (is_stale cutoff) (charging_sessions d))"

text \<open>The loop both sweeps run: settle each id, count the ones that were settled here.\<close>

fun reap_each :: "config \<Rightarrow> timestamp \<Rightarrow> string \<Rightarrow> world \<Rightarrow> int list \<Rightarrow> world \<times> nat" where
  "reap_each cfg now reason w [] = (w, 0)"
| "reap_each cfg now reason w (i # is) =
     (let r = finalize_charging_session cfg now w i None (Some reason);
          rest = reap_each cfg now reason (fst r) is
      in (fst rest, (case snd r of Inr (Some _) \<Rightarrow> Suc (snd rest) | _ \<Rightarrow> snd rest)))"

definition reap_once :: "config \<Rightarrow> timestamp \<Rightarrow> world \<Rightarrow> world \<times> nat" where
  "reap_once cfg now w =
     reap_each cfg now REAP_REASON w (stale_session_ids (w_db w) (now - seconds_us (STALE_TIMEOUT_SEC cfg)))"

definition is_overdue :: "timestamp \<Rightarrow> charging_session \<Rightarrow> bool" where
  "is_overdue now s \<longleftrightarrow> cs_status s = ACTIVE
     \<and> (case cs_max_duration_seconds s of None \<Rightarrow> False | Some m \<Rightarrow> of_int m \<le> total_seconds (now - cs_started_at s))"

definition reap_time_limited_once :: "config \<Rightarrow> timestamp \<Rightarrow> world \<Rightarrow> world \<times> nat" where
  "reap_time_limited_once cfg now w =
     (if \<not> AUTO_STOP_ON_LIMITS cfg then (w, 0)
      else reap_each cfg now TIME_LIMIT_REAP_REASON w (map cs_id (filter (is_overdue now) (charging_sessions (w_db w)))))"

subsection \<open>Repricing behind a silent gateway\<close>

definition reprice_due :: "timestamp \<Rightarrow> charging_session \<Rightarrow> bool" where
  "reprice_due now s \<longleftrightarrow> cs_status s = ACTIVE \<and> (case cs_rate_valid_until s of None \<Rightarrow> False | Some v \<Rightarrow> v < now)"

definition reprice_one :: "config \<Rightarrow> zones \<Rightarrow> timestamp \<Rightarrow> world \<Rightarrow> int \<Rightarrow> world \<times> bool" where
  "reprice_one cfg zones now w session_id =
     (case find (\<lambda>s. cs_id s = session_id \<and> cs_status s = ACTIVE) (charging_sessions (w_db w)) of
        None \<Rightarrow> (w, False)
      | Some session \<Rightarrow>
          (case row_by pl_id (cs_plug_id session) (plugs (w_db w)) of
             None \<Rightarrow> (w, False)
           | Some plug \<Rightarrow>
               let r = reprice_session_if_due cfg zones (w_db w) session plug now;
                   w1 = w\<lparr>w_db := upd_session session_id (\<lambda>_. fst r) (w_db w)\<rparr>
               in (case snd r of
                     None \<Rightarrow> (w1, False)
                   | Some _ \<Rightarrow> (emit [Notify (cs_user_id session) ''rate_changed'' ''info'' None (Some session_id)] w1, True))))"

fun sweep_each :: "(world \<Rightarrow> 'k \<Rightarrow> world \<times> bool) \<Rightarrow> world \<Rightarrow> 'k list \<Rightarrow> world \<times> nat" where
  "sweep_each f w [] = (w, 0)"
| "sweep_each f w (i # is) =
     (let r = f w i; rest = sweep_each f (fst r) is in (fst rest, (if snd r then Suc (snd rest) else snd rest)))"

definition reap_reprice_once :: "config \<Rightarrow> zones \<Rightarrow> timestamp \<Rightarrow> world \<Rightarrow> world \<times> nat" where
  "reap_reprice_once cfg zones now w =
     sweep_each (reprice_one cfg zones now) w (map cs_id (filter (reprice_due now) (charging_sessions (w_db w))))"

subsection \<open>Reservations whose window opens\<close>

definition window_open :: "timestamp \<Rightarrow> reservation \<Rightarrow> bool" where
  "window_open now r \<longleftrightarrow> rs_status r = RS_BOOKED \<and> rs_started_notified_at r = None \<and> rs_start_at r \<le> now \<and> now < rs_end_at r"

definition activate_reservation :: "config \<Rightarrow> timestamp \<Rightarrow> world \<Rightarrow> reservation \<Rightarrow> world \<times> bool" where
  "activate_reservation cfg now w candidate =
     (case find (\<lambda>r. rs_id r = rs_id candidate \<and> rs_status r = RS_BOOKED \<and> rs_started_notified_at r = None) (reservations (w_db w)) of
        None \<Rightarrow> (w, False)
      | Some _ \<Rightarrow>
          let w1 = w\<lparr>w_db := upd_reservation (rs_id candidate) (\<lambda>r. r\<lparr>rs_started_notified_at := Some now\<rparr>) (w_db w)\<rparr>;
              overrun = find (\<lambda>s. cs_plug_id s = rs_plug_id candidate \<and> cs_status s = ACTIVE \<and> cs_user_id s \<noteq> rs_user_id candidate)
                          (charging_sessions (w_db w1));
              w2 = (case overrun of
                      None \<Rightarrow> w1
                    | Some s \<Rightarrow> if FORCE_STOP_WALKUP_ON_RESERVATION cfg
                                then fst (finalize_charging_session cfg now w1 (cs_id s) None (Some RESERVATION_REAP_REASON)) else w1)
          in (emit [Notify (rs_user_id candidate) ''reservation_started'' ''info'' (Some (rs_plug_id candidate)) None] w2, True))"

definition reap_reservation_starts_once :: "config \<Rightarrow> timestamp \<Rightarrow> world \<Rightarrow> world \<times> nat" where
  "reap_reservation_starts_once cfg now w =
     sweep_each (activate_reservation cfg now) w
       (filter (\<lambda>r. window_open now r \<and> exists_row (\<lambda>p. pl_id p = rs_plug_id r) (plugs (w_db w))) (reservations (w_db w)))"

subsection \<open>Queued charges\<close>

definition upd_queued :: "int \<Rightarrow> (queued_charge \<Rightarrow> queued_charge) \<Rightarrow> db \<Rightarrow> db" where
  "upd_queued i f d = d\<lparr>queued_charges := update_where (\<lambda>q. qc_id q = i) f (queued_charges d)\<rparr>"

definition close_queued :: "world \<Rightarrow> queued_charge \<Rightarrow> queued_charge_status \<Rightarrow> effect list \<Rightarrow> world" where
  "close_queued w qc status notes = emit notes (w\<lparr>w_db := upd_queued (qc_id qc) (\<lambda>q. q\<lparr>qc_status := status\<rparr>) (w_db w)\<rparr>)"

text \<open>
  Steps 6 and 7 of the sweep, on an available and powered plug.  The lapsed bookings expired in
  step 6 are part of the open transaction: an HTTP error of the start commits them with the new
  status of the row, any other error rolls back to \<open>w\<close>.
\<close>

definition start_queued ::
  "config \<Rightarrow> zones \<Rightarrow> timestamp \<Rightarrow> bool \<Rightarrow> world \<Rightarrow> queued_charge \<Rightarrow> plug \<Rightarrow> world \<times> bool" where
  "start_queued cfg zones now publish_ok w qc plug =
     (let d1 = fst (expire_lapsed_reservations cfg now (w_db w) (Some (pl_id plug)) None None None);
          w1 = w\<lparr>w_db := d1\<rparr>
      in if (case covering_reservation d1 (pl_id plug) now of None \<Rightarrow> False | Some r \<Rightarrow> rs_user_id r \<noteq> qc_user_id qc)
         then (w1, False)
         else case row_by gw_id (pl_gateway_id plug) (gateways d1) of
                None \<Rightarrow> (w, False)
              | Some gateway \<Rightarrow>
                  let r = begin_active_session cfg zones now w1 d1 (qc_user_id qc) plug gateway (qc_max_kwh qc)
                            (qc_max_duration_seconds qc) None publish_ok
                  in (case snd r of
                        Inl (HTTPException code detail) \<Rightarrow>
                          (close_queued (fst r) qc (if code = 402 then QC_EXPIRED else QC_FAILED)
                             [Notify (qc_user_id qc) (if code = 402 then ''queued_charge_expired'' else ''queued_charge_failed'')
                                ''warning'' (Some (pl_id plug)) None], False)
                      | Inl _ \<Rightarrow> (w, False)
                      | Inr session \<Rightarrow>
                          (emit [Notify (qc_user_id qc) ''queued_charge_started'' ''info'' (Some (pl_id plug)) (Some (cs_id session))]
                             ((fst r)\<lparr>w_db := upd_queued (qc_id qc)
                                (\<lambda>q. q\<lparr>qc_status := QC_STARTED, qc_started_session_id := Some (cs_id session)\<rparr>) (w_db (fst r))\<rparr>),
                           True)))"

definition process_queued_charge :: "config \<Rightarrow> zones \<Rightarrow> timestamp \<Rightarrow> (int \<Rightarrow> bool) \<Rightarrow> world \<Rightarrow> int \<Rightarrow> world \<times> bool" where
  "process_queued_charge cfg zones now publish_ok w queued_id =
     (case find (\<lambda>q. qc_id q = queued_id \<and> qc_status q = QC_WAITING) (queued_charges (w_db w)) of
        None \<Rightarrow> (w, False)
      | Some qc \<Rightarrow>
          if qc_expires_at qc \<le> now
          then (close_queued w qc QC_EXPIRED [Notify (qc_user_id qc) ''queued_charge_expired'' ''warning'' (Some (qc_plug_id qc)) None], False)
          else if row_by us_id (qc_user_id qc) (users (w_db w)) = None then (close_queued w qc QC_FAILED [], False)
          else if MAX_ACTIVE_SESSIONS_PER_USER cfg \<le> int (count_where (is_active_of (qc_user_id qc)) (charging_sessions (w_db w)))
          then (w, False)
          else case row_by pl_id (qc_plug_id qc) (plugs (w_db w)) of
                 None \<Rightarrow> (close_queued w qc QC_FAILED [Notify (qc_user_id qc) ''queued_charge_failed'' ''warning'' None None], False)
               | Some plug \<Rightarrow>
                   (case pl_powered_since plug of
                      None \<Rightarrow> (w, False)
                    | Some powered_since \<Rightarrow>
                        if \<not> plug_is_powered cfg plug now then (w, False)
                        else case row_by tn_id (qc_tenant_id qc) (tenants (w_db w)) of
                               None \<Rightarrow> (w, False)
                             | Some tenant \<Rightarrow>
                                 if now - powered_since < auto_start_delay tenant (Some plug) * 60000000 then (w, False)
                                 else if pl_status plug = OCCUPIED then (w, False)
                                 else if pl_status plug \<noteq> AVAILABLE
                                 then (close_queued w qc QC_FAILED
                                         [Notify (qc_user_id qc) ''queued_charge_failed'' ''warning'' (Some (pl_id plug)) None], False)
                                 else start_queued cfg zones now (publish_ok queued_id) w qc plug))"

definition reap_queued_starts_once :: "config \<Rightarrow> zones \<Rightarrow> timestamp \<Rightarrow> (int \<Rightarrow> bool) \<Rightarrow> world \<Rightarrow> world \<times> nat" where
  "reap_queued_starts_once cfg zones now publish_ok w =
     sweep_each (process_queued_charge cfg zones now publish_ok) w
       (map qc_id (filter (\<lambda>q. qc_status q = QC_WAITING) (queued_charges (w_db w))))"

subsection \<open>Silent gateways and the log prune\<close>

definition push_connectivity :: "bool \<Rightarrow> string \<Rightarrow> world \<Rightarrow> world" where
  "push_connectivity online gateway_id w =
     emit (map (\<lambda>p. Emit_Plug_Connectivity (pl_id p) online) (filter (\<lambda>p. pl_gateway_id p = gateway_id) (plugs (w_db w)))) w"

definition reap_gateway_silence_once ::
  "config \<Rightarrow> timestamp \<Rightarrow> world \<Rightarrow> string list \<Rightarrow> world \<times> string list \<times> nat" where
  "reap_gateway_silence_once cfg now w silence_pushed =
     (let online = filter (\<lambda>g. gw_status g = ONLINE) (gateways (w_db w));
          to_flag = map gw_id (filter (\<lambda>g. \<not> gateway_is_live cfg g now \<and> gw_id g \<notin> set silence_pushed) online);
          to_clear = map gw_id (filter (\<lambda>g. gateway_is_live cfg g now \<and> gw_id g \<in> set silence_pushed) online)
      in (fold (push_connectivity True) to_clear (fold (push_connectivity False) to_flag w),
          filter (\<lambda>i. i \<notin> set to_clear) silence_pushed @ to_flag,
          length to_flag + length to_clear))"

definition reap_gateway_logs_once :: "config \<Rightarrow> timestamp \<Rightarrow> world \<Rightarrow> world \<times> nat" where
  "reap_gateway_logs_once cfg now w =
     (let cutoff = now - days_us (of_int (GATEWAY_LOGS_RETENTION_DAYS cfg))
      in (w\<lparr>w_db := (w_db w)\<lparr>gateway_logs := filter (\<lambda>l. \<not> gl_created_at l < cutoff) (gateway_logs (w_db w))\<rparr>\<rparr>,
          count_where (\<lambda>l. gl_created_at l < cutoff) (gateway_logs (w_db w))))"

subsection \<open>One tick\<close>

datatype sweep = Stale_Sweep | Limit_Sweep | Reservation_Sweep | Queue_Sweep | Reprice_Sweep | Silence_Sweep | Log_Prune

record reaper =
  rp_world :: world
  rp_tick_count :: int
  rp_silence_pushed :: "string list"
  rp_running :: bool

text \<open>A prune interval of zero raises at the remainder, outside every \<open>try\<close>, and ends the task.\<close>

definition reaper_tick :: "config \<Rightarrow> zones \<Rightarrow> (sweep \<Rightarrow> timestamp) \<Rightarrow> (int \<Rightarrow> bool) \<Rightarrow> reaper \<Rightarrow> reaper" where
  "reaper_tick cfg zones clock publish_ok rp =
     (if \<not> rp_running rp then rp
      else let w1 = fst (reap_once cfg (clock Stale_Sweep) (rp_world rp));
               w2 = fst (reap_time_limited_once cfg (clock Limit_Sweep) w1);
               w3 = fst (reap_reservation_starts_once cfg (clock Reservation_Sweep) w2);
               w4 = fst (reap_queued_starts_once cfg zones (clock Queue_Sweep) publish_ok w3);
               w5 = fst (reap_reprice_once cfg zones (clock Reprice_Sweep) w4);
               silence = reap_gateway_silence_once cfg (clock Silence_Sweep) w5 (rp_silence_pushed rp);
               ticks = rp_tick_count rp + 1;
               every = GATEWAY_LOGS_PRUNE_EVERY_N_TICKS cfg;
               w6 = (if every \<noteq> 0 \<and> ticks mod every = 0
                     then fst (reap_gateway_logs_once cfg (clock Log_Prune) (fst silence)) else fst silence)
           in \<lparr>rp_world = w6, rp_tick_count = ticks, rp_silence_pushed = fst (snd silence), rp_running = (every \<noteq> 0)\<rparr>)"

text \<open>What a sweep over the sessions \<open>is\<close> leaves behind: their rows completed, every other row as it was.\<close>

definition swept :: "timestamp \<Rightarrow> db \<Rightarrow> int list \<Rightarrow> db \<Rightarrow> bool" where
  "swept now d is d' \<longleftrightarrow>
     map cs_id (charging_sessions d') = map cs_id (charging_sessions d)
     \<and> (\<forall>s \<in> set (charging_sessions d'). cs_id s \<in> set is \<longrightarrow> cs_status s = COMPLETED \<and> cs_ended_at s = Some now)
     \<and> (\<forall>s. cs_id s \<notin> set is \<longrightarrow> s \<in> set (charging_sessions d') \<longleftrightarrow> s \<in> set (charging_sessions d))"

text \<open>A session limited to an hour.\<close>

definition hour_long_world :: world where
  "hour_long_world = sample_world\<lparr>w_db := (w_db sample_world)\<lparr>charging_sessions := [sample_session\<lparr>cs_max_duration_seconds := Some 3600\<rparr>]\<rparr>\<rparr>"

text \<open>A plug that has had power for ten minutes, and a driver queued for it.\<close>

definition queued_world :: world where
  "queued_world = two_drivers\<lparr>w_db := (w_db two_drivers)\<lparr>
     plugs := [sample_plug\<lparr>pl_last_telemetry_at := Some 600000000, pl_powered_since := Some 0, pl_auto_start_delay_min := Some 5\<rparr>],
     queued_charges := [\<lparr>qc_id = 1, qc_tenant_id = 1, qc_user_id = 1, qc_plug_id = 1, qc_max_kwh = Some 2,
       qc_max_duration_seconds = None, qc_status = QC_WAITING, qc_created_at = 0, qc_expires_at = 3600000000,
       qc_started_session_id = None\<rparr>]\<rparr>\<rparr>"

subsection \<open>The sweeps keep the platform invariant\<close>

lemma reprice_one_keeps: "keeps cfg (w_db w) (w_db (fst (reprice_one cfg zones now w i)))"
proof (cases "find (\<lambda>s. cs_id s = i \<and> cs_status s = ACTIVE) (charging_sessions (w_db w))")
  case (Some s)
  note s = find_SomeD [OF Some]
  show ?thesis
  proof (cases "row_by pl_id (cs_plug_id s) (plugs (w_db w))")
    case (Some plug)
    obtain s' n where r: "reprice_session_if_due cfg zones (w_db w) s plug now = (s', n)" by fastforce
    have db: "w_db (fst (reprice_one cfg zones now w i)) = upd_session (cs_id s) (\<lambda>_. s') (w_db w)"
      using \<open>find _ _ = _\<close> Some r s by (simp add: reprice_one_def Let_def split: option.split)
    show ?thesis
      unfolding keeps_def db
    proof
      assume ok: "platform_ok cfg (w_db w)"
      have "session_sane cfg s'"
        using platform_okD(6,7) [OF ok] s reprice_sane [OF _ _ r] by (auto simp: sessions_sane_def list_all_iff)
      with platform_ok_session_row [OF ok, of s s'] s reprice_fields [OF r]
      show "platform_ok cfg (upd_session (cs_id s) (\<lambda>_. s') (w_db w)) \<and> drift (upd_session (cs_id s) (\<lambda>_. s') (w_db w)) = drift (w_db w)"
        by blast
    qed
  qed (use Some in \<open>simp add: reprice_one_def\<close>)
qed (simp add: reprice_one_def)

lemma stamp_reservation_keeps:
  "keeps cfg d (upd_reservation i (\<lambda>r. r\<lparr>rs_started_notified_at := t\<rparr>) d)"
  by (rule keeps_frame)
    (auto simp: queue_ok_def dest: platform_okD(8) intro: calendar_ok_update [OF platform_okD(5), where P = "\<lambda>r. rs_id r = i"])

lemma activate_reservation_keeps: "keeps cfg (w_db w) (w_db (fst (activate_reservation cfg now w r)))"
proof -
  let ?w = "w\<lparr>w_db := upd_reservation (rs_id r) (\<lambda>r. r\<lparr>rs_started_notified_at := Some now\<rparr>) (w_db w)\<rparr>"
  have "keeps cfg (w_db w) (w_db ?w)" by (simp add: stamp_reservation_keeps)
  then have "keeps cfg (w_db w) (w_db (fst (finalize_charging_session cfg now ?w i u reason)))" for i u reason
    by (rule keeps_trans [OF _ finalize_keeps])
  then show ?thesis
    by (auto simp: activate_reservation_def Let_def stamp_reservation_keeps split: option.splits)
qed

lemma close_queued_keeps: "keeps cfg (w_db w) (w_db (close_queued w qc status notes))"
  unfolding close_queued_def upd_queued_def by (simp add: keeps_queue_update)

lemma start_queued_keeps:
  assumes cfg: "ENFORCE_CIRCUIT_ADMISSION cfg" and req: "platform_ok cfg (w_db w) \<Longrightarrow> request_ok (qc_max_kwh qc)"
    and plug: "plug \<in> set (plugs (w_db w))" "pl_status plug = AVAILABLE" and user: "row_by us_id (qc_user_id qc) (users (w_db w)) \<noteq> None"
  shows "keeps cfg (w_db w) (w_db (fst (start_queued cfg zones now publish_ok w qc plug)))"
proof -
  define d1 where "d1 = fst (expire_lapsed_reservations cfg now (w_db w) (Some (pl_id plug)) None None None)"
  have d1: "keeps cfg (w_db w) d1" "plug \<in> set (plugs d1)" using plug(1) by (simp_all add: d1_def expire_keeps)
  obtain b where b: "balance_of d1 (qc_user_id qc) = Some b" using user by (auto simp: balance_of_def d1_def)
  show ?thesis
  proof (cases "row_by gw_id (pl_gateway_id plug) (gateways d1)")
    case None
    then show ?thesis using d1(1) by (simp add: start_queued_def Let_def d1_def)
  next
    case (Some gw)
    obtain v res where run: "begin_active_session cfg zones now (w\<lparr>w_db := d1\<rparr>) d1 (qc_user_id qc) plug gw
        (qc_max_kwh qc) (qc_max_duration_seconds qc) None publish_ok = (v, res)" by fastforce
    have started: "keeps cfg (w_db w) (w_db v)"
      using begin_keeps_platform [OF _ cfg d1(2) plug(2) b req _ run] d1(1) by (auto simp: keeps_def)
    have closed: "keeps cfg (w_db w) (w_db (close_queued v qc status msgs))" for status msgs
      using started by (rule keeps_trans [OF _ close_queued_keeps])
    have linked: "keeps cfg (w_db w) (upd_queued (qc_id qc) (\<lambda>q. q\<lparr>qc_status := QC_STARTED, qc_started_session_id := i\<rparr>) (w_db v))" for i
      unfolding upd_queued_def by (rule keeps_trans [OF started], rule keeps_queue_update) simp
    show ?thesis
      using Some run d1(1) closed linked
      by (cases res; cases "projl res") (simp_all add: start_queued_def Let_def d1_def [symmetric] split: option.split)
  qed
qed

lemma process_queued_keeps:
  assumes "ENFORCE_CIRCUIT_ADMISSION cfg"
  shows "keeps cfg (w_db w) (w_db (fst (process_queued_charge cfg zones now publish_ok w i)))"
proof (cases "find (\<lambda>q. qc_id q = i \<and> qc_status q = QC_WAITING) (queued_charges (w_db w))")
  case (Some qc)
  have "request_ok (qc_max_kwh qc)" if "platform_ok cfg (w_db w)"
    using find_SomeD [OF Some] platform_okD(8) [OF that] by (auto simp: queue_ok_def list_all_iff)
  then show ?thesis
    using Some
    by (auto simp: process_queued_charge_def close_queued_keeps intro!: start_queued_keeps [OF assms] split: option.splits
        dest: row_by_SomeD)
qed (simp add: process_queued_charge_def)

lemma push_connectivity_db [simp]: "w_db (fold (push_connectivity b) gs w) = w_db w"
  by (induction gs arbitrary: w) (simp_all add: push_connectivity_def)

lemma logs_prune_keeps: "keeps cfg (w_db w) (w_db (fst (reap_gateway_logs_once cfg' now w)))"
  by (auto simp: reap_gateway_logs_once_def Let_def queue_ok_def calendar_ok_def intro!: keeps_frame dest: platform_okD(5,8))

text \<open>
  The contract between the janitor and what it calls: a relation between databases that every handler
  of a sweep respects is respected by the sweeps and by the whole tick.
\<close>

locale settling_relation =
  fixes cfg :: config and R :: "db \<Rightarrow> db \<Rightarrow> bool"
  assumes refl: "R d d"
    and trans: "R d1 d2 \<Longrightarrow> R d2 d3 \<Longrightarrow> R d1 d3"
    and finalize: "R (w_db w) (w_db (fst (finalize_charging_session cfg now w i u reason)))"
begin

lemma swept_each:
  assumes "\<And>w i. R (w_db w) (w_db (fst (f w i)))"
  shows "R (w_db w) (w_db (fst (sweep_each f w is)))"
proof (induction "is" arbitrary: w)
  case (Cons i "is")
  from assms [of w i] Cons.IH [of "fst (f w i)"] show ?case by (auto simp: Let_def intro: trans)
qed (simp add: refl)

lemma reaped_each: "R (w_db w) (w_db (fst (reap_each cfg now reason w is)))"
proof (induction "is" arbitrary: w)
  case (Cons i "is")
  from finalize [of w now i None "Some reason"] Cons.IH show ?case by (auto simp: Let_def intro: trans)
qed (simp add: refl)

end

locale tick_relation = settling_relation +
  fixes zones :: zones
  assumes activate: "R (w_db w) (w_db (fst (activate_reservation cfg now w r)))"
    and queued: "R (w_db w) (w_db (fst (process_queued_charge cfg zones now publish_ok w q)))"
    and reprice: "R (w_db w) (w_db (fst (reprice_one cfg zones now w i)))"
    and prune: "R (w_db w) (w_db (fst (reap_gateway_logs_once cfg now w)))"
begin

lemma sweeps:
  "R (w_db w) (w_db (fst (reap_once cfg now w)))" "R (w_db w) (w_db (fst (reap_time_limited_once cfg now w)))"
  "R (w_db w) (w_db (fst (reap_reservation_starts_once cfg now w)))"
  "R (w_db w) (w_db (fst (reap_queued_starts_once cfg zones now publish_ok w)))"
  "R (w_db w) (w_db (fst (reap_reprice_once cfg zones now w)))"
  by (simp_all add: reap_once_def reap_time_limited_once_def reap_reservation_starts_once_def reap_queued_starts_once_def
      reap_reprice_once_def refl reaped_each swept_each activate queued reprice)

lemma tick: "R (w_db (rp_world rp)) (w_db (rp_world (reaper_tick cfg zones clock publish_ok rp)))"
proof -
  define w5 where "w5 = fst (reap_reprice_once cfg zones (clock Reprice_Sweep)
      (fst (reap_queued_starts_once cfg zones (clock Queue_Sweep) publish_ok (fst (reap_reservation_starts_once cfg (clock Reservation_Sweep)
        (fst (reap_time_limited_once cfg (clock Limit_Sweep) (fst (reap_once cfg (clock Stale_Sweep) (rp_world rp))))))))))"
  define w6 where "w6 = fst (reap_gateway_silence_once cfg (clock Silence_Sweep) w5 (rp_silence_pushed rp))"
  have "R (w_db (rp_world rp)) (w_db w5)"
    unfolding w5_def
    by (rule trans [OF _ sweeps(5)], rule trans [OF _ sweeps(4)], rule trans [OF _ sweeps(3)], rule trans [OF _ sweeps(2)], rule sweeps(1))
  then have w6: "R (w_db (rp_world rp)) (w_db w6)" by (simp add: w6_def reap_gateway_silence_once_def Let_def)
  have "rp_world (reaper_tick cfg zones clock publish_ok rp) \<in> {rp_world rp, w6, fst (reap_gateway_logs_once cfg (clock Log_Prune) w6)}"
    by (simp add: reaper_tick_def Let_def w5_def w6_def)
  then show ?thesis using w6 trans [OF w6 prune] refl by auto
qed

end

interpretation kept: settling_relation cfg "keeps cfg" for cfg
  by unfold_locales (auto intro: keeps_trans finalize_keeps)

interpretation kept_tick: tick_relation cfg "\<lambda>d d'. ENFORCE_CIRCUIT_ADMISSION cfg \<longrightarrow> keeps cfg d d'" zones for cfg zones
  by unfold_locales
    (auto intro: keeps_trans finalize_keeps activate_reservation_keeps process_queued_keeps reprice_one_keeps logs_prune_keeps)

lemmas reap_each_keeps = kept.reaped_each

subsection \<open>Every stale session is settled\<close>

lemma swept_Cons:
  assumes "swept now d1 is d2" "i \<notin> set is"
    and "\<And>t. t \<in> set (charging_sessions d1) \<Longrightarrow> cs_id t = i \<Longrightarrow> cs_status t = COMPLETED \<and> cs_ended_at t = Some now"
    and "\<And>t. cs_id t \<noteq> i \<Longrightarrow> t \<in> set (charging_sessions d1) \<longleftrightarrow> t \<in> set (charging_sessions d)"
    and "map cs_id (charging_sessions d1) = map cs_id (charging_sessions d)"
  shows "swept now d (i # is) d2"
  unfolding swept_def
proof (intro conjI ballI allI impI)
  show "map cs_id (charging_sessions d2) = map cs_id (charging_sessions d)" using assms(1,5) by (simp add: swept_def)
next
  fix s assume "s \<in> set (charging_sessions d2)" "cs_id s \<in> set (i # is)"
  then show "cs_status s = COMPLETED" "cs_ended_at s = Some now"
    using assms(1-3) unfolding swept_def by (cases "cs_id s = i"; force)+
next
  fix s :: charging_session assume "cs_id s \<notin> set (i # is)"
  then show "s \<in> set (charging_sessions d2) \<longleftrightarrow> s \<in> set (charging_sessions d)"
    using assms(1,4) unfolding swept_def by simp
qed

lemma reap_each_settles:
  assumes "platform_ok cfg (w_db w)" "distinct is"
    "\<And>i. i \<in> set is \<Longrightarrow> \<exists>s \<in> set (charging_sessions (w_db w)). cs_id s = i \<and> cs_status s = ACTIVE"
  shows "snd (reap_each cfg now reason w is) = length is
    \<and> swept now (w_db w) is (w_db (fst (reap_each cfg now reason w is)))"
  using assms
proof (induction "is" arbitrary: w)
  case (Cons i "is")
  have keys: "distinct (map cs_id (charging_sessions (w_db w)))" using platform_okD(3) [OF Cons.prems(1)] by (simp add: keys_ok_def)
  from Cons.prems(3) [of i] obtain s where s: "s \<in> set (charging_sessions (w_db w))" "cs_id s = i" "cs_status s = ACTIVE" by auto
  have find: "find_session (w_db w) i None = Some s"
    using row_by_in_set [OF keys s(1)] s(2) by (simp add: find_session_def row_by_def)
  obtain w' r where f: "finalize_charging_session cfg now w i None (Some reason) = (w', Inr (Some r))" "platform_ok cfg (w_db w')"
    "charging_sessions (w_db w') = update_where (\<lambda>x. cs_id x = cs_id s)
       (\<lambda>x. x\<lparr>cs_status := COMPLETED, cs_coins_spent := requested_debit cfg s, cs_ended_at := Some now\<rparr>) (charging_sessions (w_db w))"
    using finalize_settles [OF Cons.prems(1) find s(3)] by metis
  have rest: "\<exists>t \<in> set (charging_sessions (w_db w')). cs_id t = j \<and> cs_status t = ACTIVE" if j: "j \<in> set is" for j
  proof -
    obtain t where t: "t \<in> set (charging_sessions (w_db w))" "cs_id t = j" "cs_status t = ACTIVE" using Cons.prems(3) [of j] j by auto
    moreover have "j \<noteq> i" using j Cons.prems(2) by auto
    ultimately show ?thesis using s(2) by (intro bexI [of _ t]) (auto simp: f(3) set_update_where)
  qed
  from Cons.IH [OF f(2) _ rest] Cons.prems(2)
  have IH: "snd (reap_each cfg now reason w' is) = length is" "swept now (w_db w') is (w_db (fst (reap_each cfg now reason w' is)))" by auto
  have i: "i \<notin> set is" using Cons.prems(2) by simp
  note f3 = f(3) [unfolded s(2)]
  have own: "cs_status t = COMPLETED \<and> cs_ended_at t = Some now" if "t \<in> set (charging_sessions (w_db w'))" "cs_id t = i" for t
    using update_where_hit [OF that(1) [unfolded f3] that(2)] by auto
  have other: "t \<in> set (charging_sessions (w_db w')) \<longleftrightarrow> t \<in> set (charging_sessions (w_db w))" if "cs_id t \<noteq> i" for t
    unfolding f3 set_update_where using that by force
  have "map cs_id (charging_sessions (w_db w')) = map cs_id (charging_sessions (w_db w))" by (simp add: f(3) map_update_where)
  with swept_Cons [OF IH(2) i own other] have "swept now (w_db w) (i # is) (w_db (fst (reap_each cfg now reason w' is)))" by simp
  with IH(1) f(1) show ?case by (simp add: Let_def)
qed (simp add: swept_def)

lemma sweep_complete:
  assumes ok: "platform_ok cfg (w_db w)" and P: "\<And>s. P s \<Longrightarrow> cs_status s = ACTIVE"
  defines "is \<equiv> map cs_id (filter P (charging_sessions (w_db w)))"
  shows "snd (reap_each cfg now reason w is) = count_where P (charging_sessions (w_db w))"
    "\<not> exists_row P (charging_sessions (w_db (fst (reap_each cfg now reason w is))))"
    "swept now (w_db w) is (w_db (fst (reap_each cfg now reason w is)))"
proof -
  have keys: "distinct (map cs_id (charging_sessions (w_db w)))" using platform_okD(3) [OF ok] by (simp add: keys_ok_def)
  have "distinct is" unfolding is_def using keys by (simp add: distinct_map_filter)
  from reap_each_settles [OF ok this, of now reason] P
  have r: "snd (reap_each cfg now reason w is) = length is" "swept now (w_db w) is (w_db (fst (reap_each cfg now reason w is)))"
    by (auto simp: is_def)
  then show "snd (reap_each cfg now reason w is) = count_where P (charging_sessions (w_db w))"
    "swept now (w_db w) is (w_db (fst (reap_each cfg now reason w is)))"
    by (simp_all add: is_def count_where_def)
  show "\<not> exists_row P (charging_sessions (w_db (fst (reap_each cfg now reason w is))))"
  proof (rule ccontr, simp add: exists_row_iff, elim bexE)
    fix s assume s: "s \<in> set (charging_sessions (w_db (fst (reap_each cfg now reason w is))))" "P s"
    show False
    proof (cases "cs_id s \<in> set is")
      case True
      with r(2) s(1) have "cs_status s = COMPLETED" by (simp add: swept_def)
      with P [OF s(2)] show False by simp
    next
      case False
      with r(2) s(1) have "s \<in> set (charging_sessions (w_db w))" by (simp add: swept_def)
      with s(2) False show False by (simp add: is_def)
    qed
  qed
qed

subsection \<open>Queued charges\<close>

text \<open>The conditions under which a queued charge may start by itself.\<close>

lemma process_queued_started:
  assumes "process_queued_charge cfg zones now publish_ok w i = (w', True)"
  obtains qc plug tenant since gw s d1 w1 where
    "qc \<in> set (queued_charges (w_db w))" "qc_id qc = i" "qc_status qc = QC_WAITING" "now < qc_expires_at qc"
    "int (count_where (is_active_of (qc_user_id qc)) (charging_sessions (w_db w))) < MAX_ACTIVE_SESSIONS_PER_USER cfg"
    "row_by us_id (qc_user_id qc) (users (w_db w)) \<noteq> None"
    "row_by pl_id (qc_plug_id qc) (plugs (w_db w)) = Some plug" "pl_status plug = AVAILABLE" "plug_is_powered cfg plug now"
    "pl_powered_since plug = Some since" "row_by tn_id (qc_tenant_id qc) (tenants (w_db w)) = Some tenant"
    "auto_start_delay tenant (Some plug) * 60000000 \<le> now - since"
    "d1 = fst (expire_lapsed_reservations cfg now (w_db w) (Some (pl_id plug)) None None None)"
    "\<forall>r. covering_reservation d1 (pl_id plug) now = Some r \<longrightarrow> rs_user_id r = qc_user_id qc"
    "begin_active_session cfg zones now (w\<lparr>w_db := d1\<rparr>) d1 (qc_user_id qc) plug gw (qc_max_kwh qc)
       (qc_max_duration_seconds qc) None (publish_ok i) = (w1, Inr s)"
    "w_db w' = upd_queued i (\<lambda>q. q\<lparr>qc_status := QC_STARTED, qc_started_session_id := Some (cs_id s)\<rparr>) (w_db w1)"
proof -
  from assms obtain qc where qc: "find (\<lambda>q. qc_id q = i \<and> qc_status q = QC_WAITING) (queued_charges (w_db w)) = Some qc"
    by (auto simp: process_queued_charge_def split: option.splits)
  with assms obtain plug tenant since where p: "now < qc_expires_at qc" "row_by us_id (qc_user_id qc) (users (w_db w)) \<noteq> None"
    "int (count_where (is_active_of (qc_user_id qc)) (charging_sessions (w_db w))) < MAX_ACTIVE_SESSIONS_PER_USER cfg"
    "row_by pl_id (qc_plug_id qc) (plugs (w_db w)) = Some plug" "pl_status plug = AVAILABLE" "plug_is_powered cfg plug now"
    "pl_powered_since plug = Some since" "row_by tn_id (qc_tenant_id qc) (tenants (w_db w)) = Some tenant"
    "auto_start_delay tenant (Some plug) * 60000000 \<le> now - since"
    "start_queued cfg zones now (publish_ok i) w qc plug = (w', True)"
    by (simp add: process_queued_charge_def not_le not_less split: if_splits option.splits)
  define d1 where "d1 = fst (expire_lapsed_reservations cfg now (w_db w) (Some (pl_id plug)) None None None)"
  from p(10) have own: "\<forall>r. covering_reservation d1 (pl_id plug) now = Some r \<longrightarrow> rs_user_id r = qc_user_id qc"
    by (auto simp: start_queued_def Let_def d1_def split: if_splits)
  from p(10) obtain gw where gw: "row_by gw_id (pl_gateway_id plug) (gateways d1) = Some gw"
    by (auto simp: start_queued_def Let_def d1_def split: if_splits option.splits)
  obtain w1 res where run: "begin_active_session cfg zones now (w\<lparr>w_db := d1\<rparr>) d1 (qc_user_id qc) plug gw (qc_max_kwh qc)
       (qc_max_duration_seconds qc) None (publish_ok i) = (w1, res)" by fastforce
  have "\<exists>s. res = Inr s \<and> w_db w' = upd_queued i (\<lambda>q. q\<lparr>qc_status := QC_STARTED, qc_started_session_id := Some (cs_id s)\<rparr>) (w_db w1)"
    using p(10) gw run find_SomeD [OF qc]
    by (cases res; cases "projl res") (auto simp: start_queued_def Let_def d1_def [symmetric] split: if_splits)
  with that [of qc plug since tenant d1 gw w1] find_SomeD [OF qc] p own run d1_def show thesis by auto
qed

subsection \<open>Properties\<close>

text \<open>
  C8. The janitor gets every dead session: on a sane platform one stale sweep settles each session
  whose last sign of life is older than the timeout, and, where the operator has limits switched
  on (\<open>AUTO_STOP_ON_LIMITS\<close>, the default), one limit sweep each session past its duration, with no
  failure.  For either sweep: afterwards none is left, the count returned is the number there were,
  each of them is completed at the instant of the sweep, every other session row is untouched, and
  wallets moved only with the ledger.  Switched off, the limit sweep does nothing.
\<close>

theorem reaper_settles_all:
  assumes "platform_ok cfg (w_db w)"
  shows "(\<exists>w'. reap_once cfg now w = (w', count_where (is_stale (now - seconds_us (STALE_TIMEOUT_SEC cfg))) (charging_sessions (w_db w)))
      \<and> \<not> exists_row (is_stale (now - seconds_us (STALE_TIMEOUT_SEC cfg))) (charging_sessions (w_db w'))
      \<and> swept now (w_db w) (stale_session_ids (w_db w) (now - seconds_us (STALE_TIMEOUT_SEC cfg))) (w_db w')
      \<and> platform_ok cfg (w_db w') \<and> drift (w_db w') = drift (w_db w))
    \<and> (AUTO_STOP_ON_LIMITS cfg \<longrightarrow>
      (\<exists>w'. reap_time_limited_once cfg now w = (w', count_where (is_overdue now) (charging_sessions (w_db w)))
      \<and> \<not> exists_row (is_overdue now) (charging_sessions (w_db w'))
      \<and> swept now (w_db w) (map cs_id (filter (is_overdue now) (charging_sessions (w_db w)))) (w_db w')
      \<and> platform_ok cfg (w_db w') \<and> drift (w_db w') = drift (w_db w)))
    \<and> (\<not> AUTO_STOP_ON_LIMITS cfg \<longrightarrow> reap_time_limited_once cfg now w = (w, 0))"
proof -
  have act: "is_stale c s \<Longrightarrow> cs_status s = ACTIVE" "is_overdue now s \<Longrightarrow> cs_status s = ACTIVE" for c s
    by (simp_all add: is_stale_def is_overdue_def)
  have k: "platform_ok cfg (w_db (fst (reap_each cfg now r w is)))" "drift (w_db (fst (reap_each cfg now r w is))) = drift (w_db w)" for r "is"
    using reap_each_keeps [of cfg w now r "is"] assms by (simp_all add: keeps_def)
  let ?cut = "now - seconds_us (STALE_TIMEOUT_SEC cfg)"
  note stale = sweep_complete [where P = "is_stale ?cut" and now = now and reason = REAP_REASON,
      OF assms act(1), folded stale_session_ids_def]
  note overdue = sweep_complete [where P = "is_overdue now" and now = now and reason = TIME_LIMIT_REAP_REASON, OF assms act(2)]
  show ?thesis
    using stale overdue k unfolding reap_once_def reap_time_limited_once_def by (simp add: prod_eq_iff)
qed

theorem reaper_settles_all_witness:
  "\<exists>v w'. reap_once default_config 3700000000 hour_long_world = (v, 1) \<and> reap_time_limited_once default_config 3700000000 hour_long_world = (w', 1)
     \<and> map cs_status (charging_sessions (w_db v)) = [COMPLETED] \<and> map cs_status (charging_sessions (w_db w')) = [COMPLETED]
     \<and> platform_ok default_config (w_db v) \<and> platform_ok default_config (w_db w')"
proof -
  let ?d = "w_db hour_long_world"
  have pre: "platform_ok default_config ?d" "AUTO_STOP_ON_LIMITS default_config"
    "count_where (is_stale (3700000000 - seconds_us (STALE_TIMEOUT_SEC default_config))) (charging_sessions ?d) = 1"
    "stale_session_ids ?d (3700000000 - seconds_us (STALE_TIMEOUT_SEC default_config)) = [1]"
    "count_where (is_overdue 3700000000) (charging_sessions ?d) = 1"
    "map cs_id (filter (is_overdue 3700000000) (charging_sessions ?d)) = [1]" "map cs_id (charging_sessions ?d) = [1]" by code_simp+
  obtain v w' where w': "reap_once default_config 3700000000 hour_long_world = (v, 1)" "swept 3700000000 ?d [1] (w_db v)"
    "reap_time_limited_once default_config 3700000000 hour_long_world = (w', 1)" "swept 3700000000 ?d [1] (w_db w')"
    "platform_ok default_config (w_db v)" "platform_ok default_config (w_db w')"
    using reaper_settles_all [OF pre(1), of 3700000000] pre(2-6) by auto
  have "map cs_status (charging_sessions x) = [COMPLETED]" if "swept 3700000000 ?d [1] x" for x
  proof -
    have "map cs_id (charging_sessions x) = [1]" using that pre(7) by (simp add: swept_def)
    then obtain s where "charging_sessions x = [s]" "cs_id s = 1" by (cases "charging_sessions x") auto
    then show ?thesis using that by (simp add: swept_def)
  qed
  with w' show ?thesis by blast
qed

text \<open>
  C23. A queued charge starts by itself only when it may: its request is still waiting and within its
  lifetime, the plug is available and has been powered for the operator's delay, nobody else's
  booked window covers the instant, and the driver is below the limit of running sessions and
  stays within it.  Then the session runs on that plug for that driver, with the queue row linked
  to it, and the platform invariant and every wallet are as before.
\<close>

theorem queued_start_gated:
  assumes ok: "platform_ok cfg (w_db w)" "ENFORCE_CIRCUIT_ADMISSION cfg"
    and run: "process_queued_charge cfg zones now publish_ok w i = (w', True)"
  shows "platform_ok cfg (w_db w') \<and> drift (w_db w') = drift (w_db w)
    \<and> (\<exists>qc plug since tenant s.
         qc \<in> set (queued_charges (w_db w)) \<and> qc_id qc = i \<and> qc_status qc = QC_WAITING \<and> now < qc_expires_at qc
         \<and> row_by pl_id (qc_plug_id qc) (plugs (w_db w)) = Some plug \<and> pl_status plug = AVAILABLE \<and> plug_is_powered cfg plug now
         \<and> pl_powered_since plug = Some since \<and> row_by tn_id (qc_tenant_id qc) (tenants (w_db w)) = Some tenant
         \<and> auto_start_delay tenant (Some plug) * 60000000 \<le> now - since
         \<and> (\<forall>r \<in> set (reservations (fst (expire_lapsed_reservations cfg now (w_db w) (Some (pl_id plug)) None None None))).
              rs_plug_id r = pl_id plug \<and> rs_status r = RS_BOOKED \<and> rs_start_at r \<le> now \<and> now < rs_end_at r
                \<longrightarrow> rs_user_id r = qc_user_id qc)
         \<and> s \<in> set (charging_sessions (w_db w')) \<and> cs_status s = ACTIVE \<and> cs_user_id s = qc_user_id qc \<and> cs_plug_id s = qc_plug_id qc
         \<and> int (count_where (is_active_of (qc_user_id qc)) (charging_sessions (w_db w'))) \<le> MAX_ACTIVE_SESSIONS_PER_USER cfg
         \<and> (\<forall>q \<in> set (queued_charges (w_db w')). qc_id q = i \<longrightarrow> qc_status q = QC_STARTED \<and> qc_started_session_id q = Some (cs_id s)))"
  using run
proof (cases rule: process_queued_started)
  case (1 qc plug tenant since gw s d1 w1)
  have keeps: "platform_ok cfg (w_db w')" "drift (w_db w') = drift (w_db w)"
    using process_queued_keeps [OF ok(2), of w zones now publish_ok i] ok(1) run by (simp_all add: keeps_def)
  have d1: "system_ok cfg d1" "calendar_ok d1" "plug \<in> set (plugs d1)" "rates_ok cfg d1" "charging_sessions d1 = charging_sessions (w_db w)"
    "queued_charges d1 = queued_charges (w_db w)" "pl_id plug = qc_plug_id qc"
    using expire_keeps [of cfg "w_db w"] ok(1) platform_okD [of cfg d1] row_by_SomeD [OF 1(7)] by (auto simp: 1(13) keeps_def)
  obtain b where b: "balance_of d1 (qc_user_id qc) = Some b" using 1(6) by (auto simp: balance_of_def 1(13))
  have req: "request_ok (qc_max_kwh qc)" using platform_okD(8) [OF ok(1)] 1(1) by (auto simp: queue_ok_def list_all_iff)
  from begin_keeps [OF d1(1) ok(2) d1(3) 1(8) b req max_rate_nonneg [OF d1(4)] _ 1(15)]
  have s: "w_db w1 = claimed_db d1 s None" "cs_status s = ACTIVE" "cs_user_id s = qc_user_id qc" "cs_plug_id s = pl_id plug"
    by (cases; simp)+
  have "int (count_where (is_active_of (qc_user_id qc)) (charging_sessions (w_db w'))) \<le> MAX_ACTIVE_SESSIONS_PER_USER cfg"
    using 1(5) count_active_claimed [OF s(2), of "qc_user_id qc" d1 None] s(3) d1(5) by (simp add: 1(16) upd_queued_def s(1))
  moreover have "s \<in> set (charging_sessions (w_db w'))" by (simp add: 1(16) upd_queued_def s(1))
  moreover have "\<forall>q \<in> set (queued_charges (w_db w')). qc_id q = i \<longrightarrow> qc_status q = QC_STARTED \<and> qc_started_session_id q = Some (cs_id s)"
  proof (intro ballI impI)
    fix q assume "q \<in> set (queued_charges (w_db w'))" "qc_id q = i"
    from update_where_hit [OF this(1) [unfolded 1(16) upd_queued_def, simplified] this(2)]
    show "qc_status q = QC_STARTED \<and> qc_started_session_id q = Some (cs_id s)" by auto
  qed
  moreover have "\<forall>r \<in> set (reservations d1). rs_plug_id r = pl_id plug \<and> rs_status r = RS_BOOKED \<and> rs_start_at r \<le> now
      \<and> now < rs_end_at r \<longrightarrow> rs_user_id r = qc_user_id qc"
    using own_window [OF d1(2) 1(14)] by blast
  ultimately show ?thesis
    using keeps 1(1-4,7-12) s(2-4) d1(7) unfolding 1(13)
    by (intro conjI exI [of _ qc] exI [of _ plug] exI [of _ since] exI [of _ tenant] exI [of _ s]) (assumption | simp)+
qed

theorem queued_start_gated_witness:
  "\<exists>w' qc s. process_queued_charge default_config ist_zones 600000000 (\<lambda>_. True) queued_world 1 = (w', True)
     \<and> platform_ok default_config (w_db w') \<and> qc \<in> set (queued_charges (w_db queued_world)) \<and> qc_id qc = 1
     \<and> s \<in> set (charging_sessions (w_db w')) \<and> cs_status s = ACTIVE \<and> cs_user_id s = qc_user_id qc"
proof -
  have pre: "platform_ok default_config (w_db queued_world)" "ENFORCE_CIRCUIT_ADMISSION default_config" by code_simp+
  have "snd (process_queued_charge default_config ist_zones 600000000 (\<lambda>_. True) queued_world 1)" by code_simp
  then obtain w' where r: "process_queued_charge default_config ist_zones 600000000 (\<lambda>_. True) queued_world 1 = (w', True)"
    by (metis (full_types) prod.collapse)
  from queued_start_gated [OF pre r] r show ?thesis by blast
qed

end
