(* ===== verification/Access.thy ===== *)
theory Access
  imports Effects Texts
begin

text \<open>
  Role and tenant gates of the operator endpoints (\<open>backend/services/rbac.py\<close>,
  \<open>backend/routers/cpo/_common.py\<close>) and the bounds of their listings.  The authenticated user is an
  argument of every handler.
\<close>

subsection \<open>Definitions\<close>

fun role_value :: "user_role \<Rightarrow> string" where
  "role_value ADMIN = ''admin''"
| "role_value CPO = ''cpo''"
| "role_value DRIVER = ''driver''"

definition require_role :: "string list \<Rightarrow> user \<Rightarrow> user response" where
  "require_role allowed_roles user =
     (if role_value (us_role user) \<notin> set allowed_roles then Inl (HTTPException 403 ''Access denied.'') else Inr user)"

definition require_tenant_id :: "user \<Rightarrow> int response" where
  "require_tenant_id user =
     (case us_tenant_id user of
        None \<Rightarrow> Inl (HTTPException 400 ''You are not associated with a tenant.'')
      | Some tenant_id \<Rightarrow> Inr tenant_id)"

definition clamp_list_window :: "int \<Rightarrow> int \<Rightarrow> int \<times> int" where
  "clamp_list_window limit offset = (max 1 (min limit 1000), max 0 offset)"

definition clamp_days :: "int \<Rightarrow> int" where
  "clamp_days days = max 1 (min days 3660)"

definition load_tenant_tariff :: "db \<Rightarrow> int \<Rightarrow> int \<Rightarrow> tariff response" where
  "load_tenant_tariff d tariff_id tenant_id =
     (case find (\<lambda>t. tf_id t = tariff_id \<and> tf_tenant_id t = tenant_id) (tariffs d) of
        None \<Rightarrow> Inl (HTTPException 404 ''Tariff not found or does not belong to your organization.'')
      | Some tariff \<Rightarrow> Inr tariff)"

text \<open>The two gates of a tenant-scoped operator endpoint, in order.\<close>

definition operator_tenant :: "user \<Rightarrow> int response" where
  "operator_tenant user =
     (case require_role [''cpo'', ''admin''] user of Inl err \<Rightarrow> Inl err | Inr u \<Rightarrow> require_tenant_id u)"

subsection \<open>Lemmas\<close>

lemma operator_tenant_InrD:
  "operator_tenant user = Inr t \<Longrightarrow> us_tenant_id user = Some t \<and> us_role user \<noteq> DRIVER"
  by (cases "us_role user") (auto simp: operator_tenant_def require_role_def require_tenant_id_def split: option.splits)

lemma clamp_list_window_bounds:
  "clamp_list_window limit offset = (n, k) \<Longrightarrow> 1 \<le> n \<and> n \<le> 1000 \<and> 0 \<le> k"
  by (auto simp: clamp_list_window_def)

text \<open>Reading off a successful response.\<close>

lemma response_caseE:
  assumes "case x of (_, Inl _) \<Rightarrow> False | (d, Inr p) \<Rightarrow> P d p"
  obtains d p where "x = (d, Inr p)" "P d p"
  using assms by (cases x) (auto split: sum.splits)

lemma sum_caseE:
  assumes "case x of Inl _ \<Rightarrow> False | Inr p \<Rightarrow> P p"
  obtains p where "x = Inr p" "P p"
  using assms by (cases x) auto

end
