(* ===== verification/Gateway_Events.thy ===== *)
theory Gateway_Events
  imports Platform Access
begin

text \<open>
  Alarms and log lines of the gateways (\<open>backend/services/mqtt/alarms.py\<close>, \<open>logs.py\<close>), gateway
  status and reconnect (\<open>status.py\<close>).

  A field of a JSON payload is \<open>Absent\<close>, \<open>Malformed\<close> when the conversion the handler applies to it
  raises, or the converted value.  The text of an event is presentation.  The follow-ups of an
  event run in transactions of their own after it, in the order the handler awaits them.
\<close>

subsection \<open>Alarms\<close>

datatype 'a wire = Absent | Malformed | Got 'a

record alarm_payload =
  al_error :: "string option"
  al_event :: "string option"
  al_plug_id :: "int wire"

definition EVENT_SEVERITY :: "(string \<times> string) list" where
  "EVENT_SEVERITY = [(''THERMAL_CUTOFF'', ''critical''), (''OVERCURRENT_CUTOFF'', ''critical''), (''OVERCURRENT_CAP'', ''warning''),
     (''LOCAL_LIMIT_CUTOFF'', ''info''), (''UNAUTHORIZED_ON'', ''critical''), (''OTA_STARTED'', ''info''),
     (''OTA_OK_REBOOTING'', ''info''), (''OTA_FAILED'', ''warning''), (''OTA_REFUSED_SESSION_ACTIVE'', ''info''),
     (''OTA_START_FAILED'', ''warning''), (''UNMETERED_CONSUMPTION'', ''warning''), (''GATEWAY_BOOT'', ''info''),
     (''PLUG_UNREACHABLE'', ''warning''), (''PLUG_RECOVERED'', ''info'')]"

definition PRE_ACKED_EVENT_TYPES :: "string list" where
  "PRE_ACKED_EVENT_TYPES = [''GATEWAY_BOOT'', ''PLUG_RECOVERED'']"

definition FINALIZE_ALARM_REASONS :: "(string \<times> string) list" where
  "FINALIZE_ALARM_REASONS = [(''THERMAL_CUTOFF'', ''safety cutoff: plug reported overheat''),
     (''OVERCURRENT_CUTOFF'', ''safety cutoff: plug reported over-current''),
     (''OVERCURRENT_CAP'', ''current cap exceeded: plug drew over its configured limit''),
     (''LOCAL_LIMIT_CUTOFF'', ''limit reached: session hit its energy/duration limit'')]"

definition MAINTENANCE_ALARM_REASONS :: "string list" where
  "MAINTENANCE_ALARM_REASONS = [''THERMAL_CUTOFF'', ''OVERCURRENT_CUTOFF'']"

definition event_severity :: "string \<Rightarrow> string" where
  "event_severity event_type = (case map_of EVENT_SEVERITY event_type of Some s \<Rightarrow> s | None \<Rightarrow> ''warning'')"

definition finalize_session_after_cutoff :: "config \<Rightarrow> timestamp \<Rightarrow> world \<Rightarrow> int \<Rightarrow> string \<Rightarrow> world" where
  "finalize_session_after_cutoff cfg now w plug_id reason =
     (case filter (\<lambda>s. cs_plug_id s = plug_id \<and> cs_status s = ACTIVE) (charging_sessions (w_db w)) of
        [s] \<Rightarrow> fst (finalize_charging_session cfg now w (cs_id s) None (Some reason))
      | _ \<Rightarrow> w)"

definition auto_enter_maintenance :: "world \<Rightarrow> int \<Rightarrow> world" where
  "auto_enter_maintenance w plug_id =
     (case row_by pl_id plug_id (plugs (w_db w)) of
        None \<Rightarrow> w
      | Some plug \<Rightarrow>
          if pl_status plug = MAINTENANCE then w
          else emit [Emit_Plug_Status plug_id MAINTENANCE]
                 (w\<lparr>w_db := upd_plug plug_id (\<lambda>p. p\<lparr>pl_status := MAINTENANCE\<rparr>) (w_db w)\<rparr>))"

definition cpos_of :: "db \<Rightarrow> int \<Rightarrow> int list" where
  "cpos_of d tenant_id = map us_id (filter (\<lambda>u. us_tenant_id u = Some tenant_id \<and> us_role u = CPO) (users d))"

definition notify_cpos_unmetered_consumption :: "world \<Rightarrow> int \<Rightarrow> int \<Rightarrow> world" where
  "notify_cpos_unmetered_consumption w tenant_id plug_id =
     emit (map (\<lambda>u. Notify u ''unmetered_consumption'' ''warning'' (Some plug_id) None) (cpos_of (w_db w) tenant_id)) w"

definition own_plug :: "db \<Rightarrow> string \<Rightarrow> int option \<Rightarrow> int option" where
  "own_plug d gateway_id plug_id =
     (case plug_id of
        None \<Rightarrow> None
      | Some i \<Rightarrow> (case row_by pl_id i (plugs d) of
                     None \<Rightarrow> None | Some plug \<Rightarrow> if pl_gateway_id plug = gateway_id then Some i else None))"

definition add_gateway_event :: "gateway_event \<Rightarrow> db \<Rightarrow> db" where
  "add_gateway_event e d = d\<lparr>gateway_events := gateway_events d @ [e\<lparr>ge_id := fresh_id ge_id (gateway_events d)\<rparr>]\<rparr>"

definition after_event :: "config \<Rightarrow> timestamp \<Rightarrow> world \<Rightarrow> int \<Rightarrow> int \<Rightarrow> string \<Rightarrow> world" where
  "after_event cfg now w tenant_id plug_id event_type =
     (let w1 = (if event_type = ''UNMETERED_CONSUMPTION'' then notify_cpos_unmetered_consumption w tenant_id plug_id else w);
          w2 = (case map_of FINALIZE_ALARM_REASONS event_type of
                  None \<Rightarrow> w1 | Some reason \<Rightarrow> finalize_session_after_cutoff cfg now w1 plug_id reason)
      in if AUTO_MAINTENANCE_ON_CRITICAL_ALARM cfg \<and> event_type \<in> set MAINTENANCE_ALARM_REASONS
         then auto_enter_maintenance w2 plug_id else w2)"

definition persist_gateway_event ::
  "config \<Rightarrow> timestamp \<Rightarrow> world \<Rightarrow> string \<Rightarrow> int option \<Rightarrow> string \<Rightarrow> string \<Rightarrow> world" where
  "persist_gateway_event cfg now w gateway_id claimed_plug event_type severity =
     (case row_by gw_id gateway_id (gateways (w_db w)) of
        None \<Rightarrow> w
      | Some gw \<Rightarrow>
          (case gw_tenant_id gw of
             None \<Rightarrow> w
           | Some tenant_id \<Rightarrow>
               let plug_id = own_plug (w_db w) gateway_id claimed_plug;
                   d1 = add_gateway_event \<lparr>ge_id = 0, ge_tenant_id = tenant_id, ge_gateway_id = gateway_id, ge_plug_id = plug_id,
                          ge_event_type = event_type, ge_severity = severity,
                          ge_acknowledged = (event_type \<in> set PRE_ACKED_EVENT_TYPES), ge_created_at = now\<rparr> (w_db w);
                   w1 = emit [Emit_Gateway_Alarm gateway_id plug_id event_type severity] (w\<lparr>w_db := d1\<rparr>)
               in (case plug_id of None \<Rightarrow> w1 | Some i \<Rightarrow> after_event cfg now w1 tenant_id i event_type)))"

definition truthy :: "string option \<Rightarrow> string option" where
  "truthy s = (case s of Some [] \<Rightarrow> None | _ \<Rightarrow> s)"

definition handle_gateway_alarm :: "config \<Rightarrow> timestamp \<Rightarrow> world \<Rightarrow> string \<Rightarrow> alarm_payload \<Rightarrow> world" where
  "handle_gateway_alarm cfg now w gateway_id payload =
     (case (case truthy (al_error payload) of Some e \<Rightarrow> Some e | None \<Rightarrow> truthy (al_event payload)) of
        None \<Rightarrow> w
      | Some e \<Rightarrow>
          let event_type = take 48 e;
              plug_id = (case al_plug_id payload of Got i \<Rightarrow> Some i | _ \<Rightarrow> None)
          in persist_gateway_event cfg now w gateway_id plug_id event_type (event_severity event_type))"

subsection \<open>Log lines\<close>

definition LOG_LINE_MAX :: nat where
  "LOG_LINE_MAX = 200"

definition OFFLINE_REPLAY_PREFIX :: string where
  "OFFLINE_REPLAY_PREFIX = ''[offline] ''"

definition rstrip :: "string \<Rightarrow> string" where
  "rstrip s = rev (dropWhile is_space (rev s))"

definition log_line_level :: "string \<Rightarrow> char option" where
  "log_line_level s =
     (let s1 = (if starts_with OFFLINE_REPLAY_PREFIX s then drop (length OFFLINE_REPLAY_PREFIX) s else s);
          s2 = (if starts_with [char_of (27 :: nat), CHR ''[''] s1 \<and> CHR ''m'' \<in> set s1
                then tl (dropWhile (\<lambda>c. c \<noteq> CHR ''m'') s1) else s1)
      in case s2 of [] \<Rightarrow> None | c # _ \<Rightarrow> Some c)"

definition log_severity :: "string \<Rightarrow> string" where
  "log_severity line =
     (if log_line_level line = Some (CHR ''E'') then ''error''
      else if log_line_level line = Some (CHR ''W'') then ''warning'' else ''info'')"

definition persist_gateway_log :: "timestamp \<Rightarrow> world \<Rightarrow> string \<Rightarrow> string \<Rightarrow> string \<Rightarrow> world" where
  "persist_gateway_log now w gateway_id level message =
     (case row_by gw_id gateway_id (gateways (w_db w)) of
        None \<Rightarrow> w
      | Some gw \<Rightarrow>
          (case gw_tenant_id gw of
             None \<Rightarrow> w
           | Some tenant_id \<Rightarrow>
               w\<lparr>w_db := (w_db w)\<lparr>gateway_logs := gateway_logs (w_db w) @
                  [\<lparr>gl_id = fresh_id gl_id (gateway_logs (w_db w)), gl_tenant_id = tenant_id, gl_gateway_id = gateway_id,
                    gl_level = level, gl_message = take 220 message, gl_created_at = now\<rparr>]\<rparr>\<rparr>))"

definition handle_gateway_log :: "timestamp \<Rightarrow> world \<Rightarrow> string \<Rightarrow> string \<Rightarrow> world" where
  "handle_gateway_log now w gateway_id raw =
     (let line = rstrip raw
      in if line = [] then w
         else persist_gateway_log now w gateway_id (log_severity (take LOG_LINE_MAX line)) (take LOG_LINE_MAX line))"

subsection \<open>Status and reconnect\<close>

text \<open>The pending offline notices are the set of gateways with an armed task.\<close>

record status_state =
  ss_world :: world
  ss_pending :: "string list"

definition broadcast_plug_connectivity :: "world \<Rightarrow> string \<Rightarrow> bool \<Rightarrow> world" where
  "broadcast_plug_connectivity w gateway_id gateway_online =
     emit (map (\<lambda>p. Emit_Plug_Connectivity (pl_id p) gateway_online) (filter (\<lambda>p. pl_gateway_id p = gateway_id) (plugs (w_db w)))) w"

definition notify_drivers_gateway_offline :: "world \<Rightarrow> string \<Rightarrow> world" where
  "notify_drivers_gateway_offline w gateway_id =
     emit (List.map_filter
       (\<lambda>s. if cs_status s = ACTIVE \<and> exists_row (\<lambda>p. pl_id p = cs_plug_id s \<and> pl_gateway_id p = gateway_id) (plugs (w_db w))
            then Some (Notify (cs_user_id s) ''charger_offline'' ''warning'' (Some (cs_plug_id s)) (Some (cs_id s))) else None)
       (charging_sessions (w_db w))) w"

definition mid_debounce :: "config \<Rightarrow> timestamp \<Rightarrow> db \<Rightarrow> plug \<Rightarrow> bool" where
  "mid_debounce cfg now d plug \<longleftrightarrow>
     exists_row (\<lambda>q. qc_plug_id q = pl_id plug \<and> qc_status q = QC_WAITING
       \<and> (case row_by tn_id (qc_tenant_id q) (tenants d) of
            None \<Rightarrow> False
          | Some tenant \<Rightarrow>
              \<not> plug_is_powered cfg plug now
              \<or> (case pl_powered_since plug of
                   None \<Rightarrow> True
                 | Some since \<Rightarrow> now - since < auto_start_delay tenant (Some plug) * 60000000))) (queued_charges d)"

definition orphaned_plugs :: "config \<Rightarrow> timestamp \<Rightarrow> db \<Rightarrow> string \<Rightarrow> plug list" where
  "orphaned_plugs cfg now d gateway_id =
     filter (\<lambda>p. pl_gateway_id p = gateway_id
       \<and> \<not> exists_row (\<lambda>s. cs_plug_id s = pl_id p \<and> cs_status s = ACTIVE) (charging_sessions d)
       \<and> \<not> mid_debounce cfg now d p) (plugs d)"

definition republish_off_for_orphaned_plugs :: "config \<Rightarrow> timestamp \<Rightarrow> world \<Rightarrow> string \<Rightarrow> bool \<Rightarrow> world" where
  "republish_off_for_orphaned_plugs cfg now w gateway_id alert_operators =
     (let off_plugs = orphaned_plugs cfg now (w_db w) gateway_id;
          alert_plugs = filter (\<lambda>p. ORPHAN_ALERT_MIN_POWER_W cfg \<le> pl_current_power_w p) off_plugs;
          cpos = (if alert_operators
                  then (case row_by gw_id gateway_id (gateways (w_db w)) of
                          None \<Rightarrow> []
                        | Some gw \<Rightarrow> (case gw_tenant_id gw of None \<Rightarrow> [] | Some t \<Rightarrow> cpos_of (w_db w) t))
                  else [])
      in emit (map (\<lambda>p. Plug_Off gateway_id (pl_id p)) off_plugs
               @ concat (map (\<lambda>p. map (\<lambda>u. Notify u ''orphan_off'' ''warning'' (Some (pl_id p)) None) cpos) alert_plugs)) w)"

definition persist_gateway_status ::
  "config \<Rightarrow> timestamp \<Rightarrow> status_state \<Rightarrow> string \<Rightarrow> string \<Rightarrow> string option \<Rightarrow> status_state" where
  "persist_gateway_status cfg now m gateway_id status firmware_version =
     (let w = ss_world m; is_online = (status = ''online'');
          row = row_by gw_id gateway_id (gateways (w_db w));
          was_offline = (case row of None \<Rightarrow> False | Some gw \<Rightarrow> gw_status gw = GW_OFFLINE);
          became_online = (row \<noteq> None \<and> is_online \<and> was_offline);
          became_offline = (row \<noteq> None \<and> \<not> is_online \<and> \<not> was_offline);
          w1 = w\<lparr>w_db := (w_db w)\<lparr>gateways := update_where (\<lambda>g. gw_id g = gateway_id)
                 (\<lambda>g. g\<lparr>gw_status := (if is_online then ONLINE else GW_OFFLINE),
                        gw_firmware_version := (case firmware_version of None \<Rightarrow> gw_firmware_version g | Some v \<Rightarrow> Some v)\<rparr>)
                 (gateways (w_db w))\<rparr>\<rparr>
      in if is_online
         then let w2 = republish_off_for_orphaned_plugs cfg now w1 gateway_id became_online;
                  w3 = emit (if w_mqtt_client w2 then [Publish_Roster gateway_id] else []) w2
              in \<lparr>ss_world = (if became_online then broadcast_plug_connectivity w3 gateway_id True else w3),
                  ss_pending = filter (\<lambda>g. g \<noteq> gateway_id) (ss_pending m)\<rparr>
         else if became_offline
         then (if 0 < GATEWAY_OFFLINE_NOTIFY_DELAY_SEC cfg
               then \<lparr>ss_world = w1, ss_pending = filter (\<lambda>g. g \<noteq> gateway_id) (ss_pending m) @ [gateway_id]\<rparr>
               else \<lparr>ss_world = broadcast_plug_connectivity (notify_drivers_gateway_offline w1 gateway_id) gateway_id False,
                     ss_pending = ss_pending m\<rparr>)
         else m\<lparr>ss_world := w1\<rparr>)"

definition handle_gateway_status ::
  "config \<Rightarrow> timestamp \<Rightarrow> status_state \<Rightarrow> string \<Rightarrow> string option \<Rightarrow> string option \<Rightarrow> status_state" where
  "handle_gateway_status cfg now m gateway_id status fw =
     persist_gateway_status cfg now m gateway_id (case status of Some s \<Rightarrow> s | None \<Rightarrow> ''offline'')
       (map_option (take 32) (truthy fw))"

text \<open>A pending notice whose delay has passed.\<close>

definition deferred_offline_notice :: "status_state \<Rightarrow> string \<Rightarrow> status_state" where
  "deferred_offline_notice m gateway_id =
     (if gateway_id \<notin> set (ss_pending m) then m
      else let still_offline = (case row_by gw_id gateway_id (gateways (w_db (ss_world m))) of
                                  None \<Rightarrow> False | Some gw \<Rightarrow> gw_status gw = GW_OFFLINE)
           in \<lparr>ss_world = (if still_offline
                           then broadcast_plug_connectivity (notify_drivers_gateway_offline (ss_world m) gateway_id) gateway_id False
                           else ss_world m),
               ss_pending = filter (\<lambda>g. g \<noteq> gateway_id) (ss_pending m)\<rparr>)"

definition cancel_offline_notices :: "status_state \<Rightarrow> status_state" where
  "cancel_offline_notices m = m\<lparr>ss_pending := []\<rparr>"

text \<open>
  What a gateway may touch: its own plugs, the sessions on them, the wallets of the drivers
  charging there and the live snapshots of its plugs.
\<close>

definition owns :: "db \<Rightarrow> string \<Rightarrow> int \<Rightarrow> bool" where
  "owns d gateway_id plug_id \<longleftrightarrow> exists_row (\<lambda>p. pl_id p = plug_id \<and> pl_gateway_id p = gateway_id) (plugs d)"

definition confined :: "string \<Rightarrow> world \<Rightarrow> world \<Rightarrow> bool" where
  "confined g w w' \<longleftrightarrow>
     map (\<lambda>p. (pl_id p, pl_gateway_id p)) (plugs (w_db w')) = map (\<lambda>p. (pl_id p, pl_gateway_id p)) (plugs (w_db w))
     \<and> (\<forall>p \<in> set (plugs (w_db w)). pl_gateway_id p \<noteq> g \<longrightarrow> p \<in> set (plugs (w_db w')))
     \<and> (\<forall>s \<in> set (charging_sessions (w_db w)). \<not> owns (w_db w) g (cs_plug_id s) \<longrightarrow> s \<in> set (charging_sessions (w_db w')))
     \<and> (\<forall>s' \<in> set (charging_sessions (w_db w')). cs_status s' = ACTIVE \<longrightarrow>
          (\<exists>s \<in> set (charging_sessions (w_db w)). cs_status s = ACTIVE \<and> cs_user_id s = cs_user_id s' \<and> cs_plug_id s = cs_plug_id s'))
     \<and> (\<forall>u. (\<forall>s \<in> set (charging_sessions (w_db w)). cs_user_id s = u \<and> cs_status s = ACTIVE \<longrightarrow> \<not> owns (w_db w) g (cs_plug_id s))
          \<longrightarrow> balance_of (w_db w') u = balance_of (w_db w) u)
     \<and> (\<forall>i. \<not> owns (w_db w) g i \<longrightarrow> get_latest (w_store w') i = get_latest (w_store w) i)"

definition gateway_acts :: "config \<Rightarrow> string \<Rightarrow> world \<Rightarrow> world \<Rightarrow> bool" where
  "gateway_acts cfg g w w' \<longleftrightarrow> keeps cfg (w_db w) (w_db w') \<and> (platform_ok cfg (w_db w) \<longrightarrow> confined g w w')"

subsection \<open>Composition\<close>

lemma owns_cong:
  assumes "map (\<lambda>p. (pl_id p, pl_gateway_id p)) (plugs d') = map (\<lambda>p. (pl_id p, pl_gateway_id p)) (plugs d)"
  shows "owns d' = owns d"
proof -
  have "owns d g i \<longleftrightarrow> (i, g) \<in> set (map (\<lambda>p. (pl_id p, pl_gateway_id p)) (plugs d))" for d g i
    by (auto simp: owns_def exists_row_iff)
  then show ?thesis unfolding fun_eq_iff by (simp only: assms simp_thms)
qed

lemma confined_refl [simp, intro]: "confined g w w"
  by (auto simp: confined_def)

lemma confined_trans:
  assumes "confined g w1 w2" "confined g w2 w3"
  shows "confined g w1 w3"
proof -
  have owns: "owns (w_db w2) = owns (w_db w1)" using assms(1) by (intro owns_cong) (simp add: confined_def)
  show ?thesis
    unfolding confined_def
  proof (intro conjI allI ballI impI)
    fix u assume free: "\<forall>s \<in> set (charging_sessions (w_db w1)). cs_user_id s = u \<and> cs_status s = ACTIVE \<longrightarrow> \<not> owns (w_db w1) g (cs_plug_id s)"
    then have "\<forall>s \<in> set (charging_sessions (w_db w2)). cs_user_id s = u \<and> cs_status s = ACTIVE \<longrightarrow> \<not> owns (w_db w2) g (cs_plug_id s)"
      using assms(1) unfolding confined_def owns by metis
    with free assms show "balance_of (w_db w3) u = balance_of (w_db w1) u" unfolding confined_def by simp
  next
    fix s assume "s \<in> set (charging_sessions (w_db w3))" "cs_status s = ACTIVE"
    then show "\<exists>t \<in> set (charging_sessions (w_db w1)). cs_status t = ACTIVE \<and> cs_user_id t = cs_user_id s \<and> cs_plug_id t = cs_plug_id s"
      using assms unfolding confined_def by metis
  qed (use assms owns in \<open>simp_all add: confined_def\<close>)
qed

lemma gateway_acts_refl [simp, intro]: "gateway_acts cfg g w w"
  by (simp add: gateway_acts_def)

lemma gateway_actsI: "(platform_ok cfg (w_db w) \<Longrightarrow> gateway_acts cfg g w w') \<Longrightarrow> gateway_acts cfg g w w'"
  by (auto simp: gateway_acts_def keeps_def)

lemma gateway_acts_trans: "gateway_acts cfg g w1 w2 \<Longrightarrow> gateway_acts cfg g w2 w3 \<Longrightarrow> gateway_acts cfg g w1 w3"
  unfolding gateway_acts_def by (meson confined_trans keeps_def keeps_trans)

lemma gateway_acts_owns: "gateway_acts cfg g w w' \<Longrightarrow> platform_ok cfg (w_db w) \<Longrightarrow> owns (w_db w') = owns (w_db w)"
  by (rule owns_cong) (simp add: gateway_acts_def confined_def)

text \<open>A change of tables that hold none of this, and of effects.\<close>

lemma gateway_acts_frame:
  assumes "users (w_db w') = users (w_db w)" "ledger (w_db w') = ledger (w_db w)" "plugs (w_db w') = plugs (w_db w)"
    "charging_sessions (w_db w') = charging_sessions (w_db w)" "charger_groups (w_db w') = charger_groups (w_db w)"
    "tariffs (w_db w') = tariffs (w_db w)" "tariff_slots (w_db w') = tariff_slots (w_db w)"
    "queued_charges (w_db w') = queued_charges (w_db w)" "reservations (w_db w') = reservations (w_db w)"
    "\<And>i. \<not> owns (w_db w) g i \<Longrightarrow> get_latest (w_store w') i = get_latest (w_store w) i"
  shows "gateway_acts cfg g w w'"
proof -
  have "keeps cfg (w_db w) (w_db w')"
    using assms by (intro keeps_frame) (auto simp: queue_ok_def calendar_ok_def dest: platform_okD(5,8))
  moreover have "confined g w w'" using assms balance_of_cong [OF assms(1)] by (auto simp: confined_def)
  ultimately show ?thesis by (simp add: gateway_acts_def)
qed

subsection \<open>The steps\<close>

lemma end_session_latest: "i \<noteq> p \<Longrightarrow> get_latest (end_session st p) i = get_latest st i"
  by (simp add: get_latest_def end_session_def split: option.split)

lemma set_plug_telemetry_interval_latest [simp]:
  "get_latest (w_store (set_plug_telemetry_interval w p n)) i = get_latest (w_store w) i"
  by (simp add: set_plug_telemetry_interval_def set_interval_def get_latest_def Let_def split: option.split)

lemma fan_out_store [simp]:
  "w_store (fst (notify_watchers_plug_available w p ex)) = w_store w"
  "w_store (fst (notify_capacity_available cfg w g ex)) = w_store w"
  by (simp_all add: notify_watchers_plug_available_def notify_capacity_available_def Let_def split: option.split)

lemma after_settlement_latest:
  "i \<noteq> pl_id plug \<Longrightarrow> get_latest (w_store (after_settlement cfg w s plug reason)) i = get_latest (w_store w) i"
  by (simp add: after_settlement_def Let_def end_session_latest)

lemma confined_plug:
  assumes own: "owns (w_db w) g p" and keys: "distinct (map pl_id (plugs (w_db w)))"
    and plugs: "plugs (w_db w') = update_where (\<lambda>r. pl_id r = p) h (plugs (w_db w))"
      "\<And>r. pl_id (h r) = pl_id r \<and> pl_gateway_id (h r) = pl_gateway_id r"
    and same: "charging_sessions (w_db w') = charging_sessions (w_db w)" "users (w_db w') = users (w_db w)"
      "\<And>i. i \<noteq> p \<Longrightarrow> get_latest (w_store w') i = get_latest (w_store w) i"
  shows "confined g w w'"
proof -
  have "pl_gateway_id x = g" if x: "x \<in> set (plugs (w_db w))" "pl_id x = p" for x
  proof -
    obtain r where "r \<in> set (plugs (w_db w))" "pl_id r = p" "pl_gateway_id r = g" using own by (auto simp: owns_def exists_row_iff)
    then show ?thesis using distinct_key_eq [OF keys x(1), of r] x(2) by simp
  qed
  then have "p' \<in> set (plugs (w_db w'))" if "p' \<in> set (plugs (w_db w))" "pl_gateway_id p' \<noteq> g" for p'
    using that unfolding plugs(1) set_update_where by force
  moreover have "map (\<lambda>p. (pl_id p, pl_gateway_id p)) (plugs (w_db w')) = map (\<lambda>p. (pl_id p, pl_gateway_id p)) (plugs (w_db w))"
    by (simp add: plugs map_update_where)
  moreover have "get_latest (w_store w') i = get_latest (w_store w) i" if "\<not> owns (w_db w) g i" for i
    using that own same(3) by metis
  ultimately show ?thesis using same(1) balance_of_cong [OF same(2)] by (auto simp: confined_def)
qed

lemma confined_session:
  assumes s: "s \<in> set (charging_sessions (w_db w))" "cs_status s = ACTIVE" "owns (w_db w) g (cs_plug_id s)"
    and rows: "charging_sessions (w_db w') = update_where (\<lambda>r. r = s) f (charging_sessions (w_db w))"
      "cs_status (f s) = ACTIVE \<longrightarrow> cs_user_id (f s) = cs_user_id s \<and> cs_plug_id (f s) = cs_plug_id s"
    and same: "plugs (w_db w') = plugs (w_db w)" "\<And>v. v \<noteq> cs_user_id s \<Longrightarrow> balance_of (w_db w') v = balance_of (w_db w) v"
      "\<And>i. i \<noteq> cs_plug_id s \<Longrightarrow> get_latest (w_store w') i = get_latest (w_store w) i"
  shows "confined g w w'"
  unfolding confined_def
proof (intro conjI ballI allI impI)
  fix x assume "x \<in> set (charging_sessions (w_db w))" "\<not> owns (w_db w) g (cs_plug_id x)"
  then show "x \<in> set (charging_sessions (w_db w'))" using s(3) unfolding rows(1) set_update_where by force
next
  fix x assume "x \<in> set (charging_sessions (w_db w'))" "cs_status x = ACTIVE"
  then show "\<exists>t \<in> set (charging_sessions (w_db w)). cs_status t = ACTIVE \<and> cs_user_id t = cs_user_id x \<and> cs_plug_id t = cs_plug_id x"
    using s rows(2) unfolding rows(1) set_update_where by (auto split: if_splits)
next
  fix v assume "\<forall>t \<in> set (charging_sessions (w_db w)). cs_user_id t = v \<and> cs_status t = ACTIVE \<longrightarrow> \<not> owns (w_db w) g (cs_plug_id t)"
  with s same(2) show "balance_of (w_db w') v = balance_of (w_db w) v" by metis
next
  fix i assume "\<not> owns (w_db w) g i"
  with s(3) same(3) show "get_latest (w_store w') i = get_latest (w_store w) i" by metis
qed (simp_all add: same(1))

lemma finalize_acts:
  assumes find: "find_session (w_db w) i u = Some s" and own: "owns (w_db w) g (cs_plug_id s)"
  shows "gateway_acts cfg g w (fst (finalize_charging_session cfg now w i u reason))"
proof (cases "cs_status s = ACTIVE")
  case True
  let ?w = "fst (finalize_charging_session cfg now w i u reason)"
  have "confined g w ?w" if ok: "platform_ok cfg (w_db w)"
  proof -
    have mem: "s \<in> set (charging_sessions (w_db w))" using find_session_SomeD [OF find] by simp
    have keys: "distinct (map cs_id (charging_sessions (w_db w)))" "distinct (map pl_id (plugs (w_db w)))"
      using platform_okD(3) [OF ok] by (simp_all add: keys_ok_def)
    have sane: "session_sane cfg s" using platform_okD(6) [OF ok] mem True by (auto simp: sessions_sane_def list_all_iff)
    obtain p plug where p: "balance_of (w_db w) (cs_user_id s) = Some p" "row_by pl_id (cs_plug_id s) (plugs (w_db w)) = Some plug"
      and run: "?w = after_settlement cfg ((emit [Plug_Off (pl_gateway_id plug) (pl_id plug)] w)
             \<lparr>w_db := settled_db now (w_db w) s (requested_debit cfg s) (p - requested_debit cfg s)\<rparr>) s plug reason"
      using finalize_result [OF platform_okD(2) [OF ok] find True sane, of now reason] by (metis fst_conv)
    have plug: "pl_id plug = cs_plug_id s" using row_by_SomeD [OF p(2)] by simp
    define w1 where "w1 = w\<lparr>w_db := upd_plug (cs_plug_id s) (\<lambda>p. p\<lparr>pl_status := AVAILABLE\<rparr>) (w_db w)\<rparr>"
    have w1: "confined g w w1" by (rule confined_plug [OF own keys(2), where h = "\<lambda>p. p\<lparr>pl_status := AVAILABLE\<rparr>"]) (simp_all add: w1_def)
    then have "owns (w_db w1) g (cs_plug_id s)" using own owns_cong [of "w_db w1" "w_db w"] by (simp add: confined_def)
    then have "confined g w1 ?w"
    proof (rule confined_session [rotated 2])
      show "charging_sessions (w_db ?w) = update_where (\<lambda>r. r = s)
          (\<lambda>r. r\<lparr>cs_status := COMPLETED, cs_coins_spent := requested_debit cfg s, cs_ended_at := Some now\<rparr>) (charging_sessions (w_db w1))"
        using update_where_key [OF keys(1) mem] by (simp add: run w1_def settled_db_def)
      show "balance_of (w_db ?w) v = balance_of (w_db w1) v" if "v \<noteq> cs_user_id s" for v
        using that balance_of_settled [OF p(1)] by (simp add: run w1_def balance_of_cong [OF after_settlement_frame(1)] balance_of_cong [OF upd_plug_simps(2)])
      show "get_latest (w_store ?w) j = get_latest (w_store w1) j" if "j \<noteq> cs_plug_id s" for j
        using that plug by (simp add: run w1_def after_settlement_latest)
    qed (use mem True in \<open>simp_all add: run w1_def settled_db_def\<close>)
    with w1 show ?thesis by (rule confined_trans)
  qed
  then show ?thesis by (simp add: gateway_acts_def finalize_keeps)
qed (use find in \<open>simp add: finalize_charging_session_def\<close>)

lemma plug_row_keeps:
  assumes h: "\<And>r. cap_row (h r) = cap_row r" "\<And>r. pl_status (h r) = AVAILABLE \<Longrightarrow> pl_status r = AVAILABLE"
  shows "keeps cfg d (upd_plug p h d)"
  unfolding upd_plug_def by (rule plug_rows_keeps) (simp_all add: h)

lemma plug_row_acts:
  assumes own: "owns (w_db w) g p"
    and h: "\<And>r. cap_row (h r) = cap_row r" "\<And>r. pl_id (h r) = pl_id r" "\<And>r. pl_gateway_id (h r) = pl_gateway_id r"
      "\<And>r. pl_status (h r) = AVAILABLE \<Longrightarrow> pl_status r = AVAILABLE"
    and w': "w_db w' = upd_plug p h (w_db w)" "\<And>i. i \<noteq> p \<Longrightarrow> get_latest (w_store w') i = get_latest (w_store w) i"
  shows "gateway_acts cfg g w w'"
  unfolding gateway_acts_def w'(1)
proof (intro conjI impI)
  show "keeps cfg (w_db w) (upd_plug p h (w_db w))" using h(1,4) by (rule plug_row_keeps)
  assume ok: "platform_ok cfg (w_db w)"
  then have "distinct (map pl_id (plugs (w_db w)))" using platform_okD(3) by (auto simp: keys_ok_def)
  then show "confined g w w'" by (rule confined_plug [OF own, where h = h]) (simp_all add: w' h)
qed

lemma cutoff_acts:
  assumes own: "owns (w_db w) g p"
  shows "gateway_acts cfg g w (finalize_session_after_cutoff cfg now w p reason)"
proof (rule gateway_actsI)
  assume ok: "platform_ok cfg (w_db w)"
  have "gateway_acts cfg g w (fst (finalize_charging_session cfg now w (cs_id s) None (Some reason)))"
    if s: "filter (\<lambda>s. cs_plug_id s = p \<and> cs_status s = ACTIVE) (charging_sessions (w_db w)) = [s]" for s
  proof -
    have "s \<in> set (filter (\<lambda>s. cs_plug_id s = p \<and> cs_status s = ACTIVE) (charging_sessions (w_db w)))" by (simp add: s)
    then have mem: "s \<in> set (charging_sessions (w_db w))" "cs_plug_id s = p" by simp_all
    have "distinct (map cs_id (charging_sessions (w_db w)))" using platform_okD(3) [OF ok] by (simp add: keys_ok_def)
    then have "find_session (w_db w) (cs_id s) None = Some s" using row_by_in_set [OF _ mem(1)] by (simp add: find_session_def row_by_def)
    then show ?thesis by (rule finalize_acts) (use own mem(2) in simp)
  qed
  then show "gateway_acts cfg g w (finalize_session_after_cutoff cfg now w p reason)"
    by (simp add: finalize_session_after_cutoff_def split: list.split)
qed

lemma maintenance_acts:
  assumes "owns (w_db w) g p"
  shows "gateway_acts cfg g w (auto_enter_maintenance w p)"
proof -
  have "gateway_acts cfg g w (emit es (w\<lparr>w_db := upd_plug p (\<lambda>p. p\<lparr>pl_status := MAINTENANCE\<rparr>) (w_db w)\<rparr>))" for es
    by (rule plug_row_acts [OF assms, where h = "\<lambda>p. p\<lparr>pl_status := MAINTENANCE\<rparr>"]) (simp_all add: cap_row_def)
  then show ?thesis by (simp add: auto_enter_maintenance_def split: option.split)
qed

lemma emit_acts [simp, intro]: "gateway_acts cfg g w (emit es w)"
  by (rule gateway_acts_frame) simp_all

lemma after_event_acts:
  assumes own: "owns (w_db w) g p"
  shows "gateway_acts cfg g w (after_event cfg now w t p e)"
proof (rule gateway_actsI)
  assume ok: "platform_ok cfg (w_db w)"
  define w1 where "w1 = (if e = ''UNMETERED_CONSUMPTION'' then notify_cpos_unmetered_consumption w t p else w)"
  define w2 where "w2 = (case map_of FINALIZE_ALARM_REASONS e of None \<Rightarrow> w1 | Some r \<Rightarrow> finalize_session_after_cutoff cfg now w1 p r)"
  have w1: "gateway_acts cfg g w w1" "w_db w1 = w_db w" by (simp_all add: w1_def notify_cpos_unmetered_consumption_def)
  have "gateway_acts cfg g w1 w2"
    using own w1(2) by (auto simp: w2_def intro!: cutoff_acts split: option.split)
  with w1(1) have w2: "gateway_acts cfg g w w2" by (rule gateway_acts_trans)
  have "owns (w_db w2) g p" using own gateway_acts_owns [OF w2 ok] by simp
  then have "gateway_acts cfg g w2 (auto_enter_maintenance w2 p)" by (rule maintenance_acts)
  with w2 show "gateway_acts cfg g w (after_event cfg now w t p e)"
    by (auto simp: after_event_def Let_def w1_def [symmetric] w2_def [symmetric] intro: gateway_acts_trans)
qed

lemma own_plug_SomeD: "own_plug d g claimed = Some p \<Longrightarrow> owns d g p"
  by (auto simp: own_plug_def owns_def exists_row_iff dest!: row_by_SomeD split: option.splits if_splits)

lemma persist_event_acts: "gateway_acts cfg g w (persist_gateway_event cfg now w g claimed e sev)"
proof -
  have row: "gateway_acts cfg g w (emit es (w\<lparr>w_db := add_gateway_event ev (w_db w)\<rparr>))"
    "owns (w_db (emit es (w\<lparr>w_db := add_gateway_event ev (w_db w)\<rparr>))) = owns (w_db w)" for ev es
    by (rule gateway_acts_frame; simp add: add_gateway_event_def) (simp add: add_gateway_event_def owns_def fun_eq_iff)
  then show ?thesis
    by (auto simp: persist_gateway_event_def Let_def dest!: own_plug_SomeD split: option.split
        intro!: gateway_acts_trans [OF row(1) after_event_acts])
qed

lemma alarm_acts: "gateway_acts cfg g w (handle_gateway_alarm cfg now w g payload)"
  by (simp add: handle_gateway_alarm_def Let_def persist_event_acts split: option.split)

lemma log_acts: "gateway_acts cfg g w (handle_gateway_log now w g raw)"
  by (auto simp: handle_gateway_log_def persist_gateway_log_def Let_def intro!: gateway_acts_frame split: option.split)

lemma gateways_acts: "gateway_acts cfg g w (w\<lparr>w_db := (w_db w)\<lparr>gateways := gs\<rparr>\<rparr>)"
  by (rule gateway_acts_frame) simp_all

text \<open>The announcements of a status message only send.\<close>

lemma status_sends [simp, intro]:
  "gateway_acts cfg g w (broadcast_plug_connectivity w g' b)"
  "gateway_acts cfg g w (notify_drivers_gateway_offline w g')"
  "gateway_acts cfg g w (republish_off_for_orphaned_plugs cfg' now w g' alert)"
  by (simp_all add: broadcast_plug_connectivity_def notify_drivers_gateway_offline_def republish_off_for_orphaned_plugs_def Let_def)

lemma offline_announced: "gateway_acts cfg g w (broadcast_plug_connectivity (notify_drivers_gateway_offline w g') g'' b)"
  by (rule gateway_acts_trans [OF status_sends(2) status_sends(1)])

lemma status_acts: "gateway_acts cfg g (ss_world m) (ss_world (handle_gateway_status cfg now m g status fw))"
proof -
  define v where "v = map_option (take 32) (truthy fw)"
  define online where "online = ((case status of Some s \<Rightarrow> s | None \<Rightarrow> ''offline'') = ''online'')"
  define w1 where "w1 = (ss_world m)\<lparr>w_db := (w_db (ss_world m))\<lparr>gateways := update_where (\<lambda>x. gw_id x = g)
     (\<lambda>x. x\<lparr>gw_status := (if online then ONLINE else GW_OFFLINE),
        gw_firmware_version := (case v of None \<Rightarrow> gw_firmware_version x | Some v \<Rightarrow> Some v)\<rparr>) (gateways (w_db (ss_world m)))\<rparr>\<rparr>"
  have w1: "gateway_acts cfg g (ss_world m) w1" unfolding w1_def by (rule gateways_acts)
  have on: "gateway_acts cfg g w1 (emit es (republish_off_for_orphaned_plugs cfg now w1 g b))" for es b
    by (rule gateway_acts_trans [OF status_sends(3) emit_acts])
  have "gateway_acts cfg g w1 (ss_world (handle_gateway_status cfg now m g status fw))"
    unfolding handle_gateway_status_def persist_gateway_status_def Let_def v_def [symmetric] online_def [symmetric] w1_def [symmetric]
    using on offline_announced gateway_acts_trans [OF on status_sends(1)] by simp
  with w1 show ?thesis by (rule gateway_acts_trans)
qed

lemma deferred_notice_acts: "gateway_acts cfg g (ss_world m) (ss_world (deferred_offline_notice m g))"
  using offline_announced by (simp add: deferred_offline_notice_def Let_def)

end
