(* ===== verification/Mqtt_Telemetry.thy ===== *)
theory Mqtt_Telemetry
  imports Gateway_Events
begin

text \<open>
  Ingestion of meter frames (\<open>backend/services/mqtt/telemetry.py\<close>): validation of the payload, the
  live store, the plug's power clock, the session's meter with the banking of counter drops, the
  reconciliation of a relay that is on without a session, unmetered consumption, and the two
  automatic stops that ride on every frame.

  A number of a payload is the rational it denotes, or \<open>Not_Finite\<close>; \<open>float()\<close> rounds it.  The
  database, the store and the time-series buffer are attached.  A handler reads the clock a few
  times within one frame; here these readings are one instant \<open>now\<close>, with \<open>tick\<close> the monotonic
  clock of the throttles.
\<close>

subsection \<open>Frames\<close>

datatype number = Real_Number rat | Not_Finite

record telemetry_payload =
  tp_plug_id :: "int wire"
  tp_watts :: "number wire"
  tp_kwh :: "number wire"
  tp_voltage :: "number wire"
  tp_current :: "number wire"
  tp_status :: "string option"
  tp_relay :: "bool option"
  tp_session_id :: "int wire"
  tp_offline :: "bool option"
  tp_today_kwh :: "number wire"
  tp_month_kwh :: "number wire"

record frame =
  fr_plug_id :: int
  fr_watts :: pyfloat
  fr_kwh :: pyfloat
  fr_voltage :: pyfloat
  fr_current :: pyfloat
  fr_status :: string
  fr_relay_on :: bool
  fr_session_id :: "int option"
  fr_offline :: bool
  fr_today_kwh :: "pyfloat option"
  fr_month_kwh :: "pyfloat option"

definition parse_optional_nonneg_float :: "number wire \<Rightarrow> pyfloat option" where
  "parse_optional_nonneg_float v =
     (case v of Got (Real_Number x) \<Rightarrow> if 0 \<le> fl x then Some (fl x) else None | _ \<Rightarrow> None)"

text \<open>A required number: absent fields take their default, the others must convert and be finite.\<close>

definition float_field :: "pyfloat \<Rightarrow> number wire \<Rightarrow> pyfloat option" where
  "float_field dflt v = (case v of Absent \<Rightarrow> Some dflt | Got (Real_Number x) \<Rightarrow> Some (fl x) | _ \<Rightarrow> None)"

definition claimed_session :: "int wire \<Rightarrow> int option" where
  "claimed_session v = (case v of Got i \<Rightarrow> if 0 < i then Some i else None | _ \<Rightarrow> None)"

definition parse_frame :: "config \<Rightarrow> telemetry_payload \<Rightarrow> frame option" where
  "parse_frame cfg p =
     (case (tp_plug_id p, float_field 0 (tp_watts p), float_field 0 (tp_kwh p), float_field 230 (tp_voltage p),
            float_field 0 (tp_current p)) of
        (Got plug_id, Some watts, Some kwh, Some voltage, Some current) \<Rightarrow>
          if kwh < 0 \<or> MAX_PLAUSIBLE_KWH cfg < kwh then None
          else let status = (case tp_status p of Some s \<Rightarrow> s | None \<Rightarrow> ''occupied'')
               in Some \<lparr>fr_plug_id = plug_id, fr_watts = watts, fr_kwh = kwh, fr_voltage = voltage, fr_current = current,
                    fr_status = status,
                    fr_relay_on = (case tp_relay p of Some b \<Rightarrow> b | None \<Rightarrow> status = ''occupied''),
                    fr_session_id = claimed_session (tp_session_id p),
                    fr_offline = (case tp_offline p of Some b \<Rightarrow> b | None \<Rightarrow> False),
                    fr_today_kwh = parse_optional_nonneg_float (tp_today_kwh p),
                    fr_month_kwh = parse_optional_nonneg_float (tp_month_kwh p)\<rparr>
      | _ \<Rightarrow> None)"

subsection \<open>State of the manager\<close>

record mqtt_state =
  mq_world :: world
  mq_gateway_seen_bumped :: "string \<rightharpoonup> pyfloat"
  mq_unmetered_alert_cooldown :: "int \<rightharpoonup> pyfloat"
  mq_low_balance_warned :: "int list"

definition cooled :: "pyfloat \<Rightarrow> pyfloat \<Rightarrow> pyfloat option \<Rightarrow> bool" where
  "cooled interval tick last_at = (case last_at of None \<Rightarrow> True | Some t \<Rightarrow> \<not> fsub tick t < interval)"

definition should_bump_gateway_seen :: "config \<Rightarrow> pyfloat \<Rightarrow> mqtt_state \<Rightarrow> string \<Rightarrow> mqtt_state \<times> bool" where
  "should_bump_gateway_seen cfg tick m gateway_id =
     (if cooled (GATEWAY_SEEN_BUMP_INTERVAL_SEC cfg) tick (mq_gateway_seen_bumped m gateway_id)
      then (m\<lparr>mq_gateway_seen_bumped := (mq_gateway_seen_bumped m)(gateway_id \<mapsto> tick)\<rparr>, True)
      else (m, False))"

definition should_alert_unmetered :: "config \<Rightarrow> pyfloat \<Rightarrow> mqtt_state \<Rightarrow> int \<Rightarrow> mqtt_state \<times> bool" where
  "should_alert_unmetered cfg tick m plug_id =
     (if cooled (UNMETERED_ALERT_COOLDOWN_SEC cfg) tick (mq_unmetered_alert_cooldown m plug_id)
      then (m\<lparr>mq_unmetered_alert_cooldown := (mq_unmetered_alert_cooldown m)(plug_id \<mapsto> tick)\<rparr>, True)
      else (m, False))"

definition persist_gateway_seen :: "timestamp \<Rightarrow> mqtt_state \<Rightarrow> string \<Rightarrow> mqtt_state" where
  "persist_gateway_seen now m gateway_id =
     m\<lparr>mq_world := (mq_world m)\<lparr>w_db := (w_db (mq_world m))\<lparr>gateways :=
        update_where (\<lambda>g. gw_id g = gateway_id) (\<lambda>g. g\<lparr>gw_status := ONLINE, gw_last_seen_at := now\<rparr>)
          (gateways (w_db (mq_world m)))\<rparr>\<rparr>\<rparr>"

subsection \<open>The meter\<close>

definition counter_dropped :: "config \<Rightarrow> pyfloat \<Rightarrow> charging_session \<Rightarrow> bool" where
  "counter_dropped cfg kwh s =
     (case cs_energy_counter_last_raw_kwh s of
        None \<Rightarrow> False | Some last_raw \<Rightarrow> kwh < fsub last_raw (ENERGY_COUNTER_RESET_DROP_KWH cfg))"

definition track_counter :: "config \<Rightarrow> pyfloat \<Rightarrow> charging_session \<Rightarrow> charging_session" where
  "track_counter cfg kwh s =
     s\<lparr>cs_energy_counter_last_raw_kwh := Some kwh,
       cs_energy_reset_offset_kwh :=
         (if counter_dropped cfg kwh s
          then fadd (cs_energy_reset_offset_kwh s) (fsub (the (cs_energy_counter_last_raw_kwh s)) kwh)
          else cs_energy_reset_offset_kwh s)\<rparr>"

definition meter_session :: "config \<Rightarrow> timestamp \<Rightarrow> frame \<Rightarrow> charging_session \<Rightarrow> charging_session" where
  "meter_session cfg now fr s =
     (let s1 = (if fr_offline fr then s else track_counter cfg (fr_kwh fr) s)
      in s1\<lparr>cs_energy_kwh := max (cs_energy_kwh s1) (fadd (cs_energy_reset_offset_kwh s1) (fr_kwh fr)),
            cs_peak_power_w := (if cs_peak_power_w s1 < fr_watts fr then fr_watts fr else cs_peak_power_w s1),
            cs_last_telemetry_at := Some now\<rparr>)"

definition stamp_plug :: "config \<Rightarrow> timestamp \<Rightarrow> frame \<Rightarrow> plug \<Rightarrow> plug" where
  "stamp_plug cfg now fr plug =
     (let resumed = (case pl_last_telemetry_at plug of
                       None \<Rightarrow> True | Some prev \<Rightarrow> of_int (PLUG_POWER_STALE_SEC cfg) < total_seconds (now - prev));
          plug1 = (if fr_offline fr then plug
                   else plug\<lparr>pl_powered_since := (if resumed then Some now else pl_powered_since plug),
                             pl_last_telemetry_at := Some now\<rparr>)
      in plug1\<lparr>pl_current_power_w := fr_watts fr\<rparr>)"

definition remember_counters :: "frame \<Rightarrow> plug \<Rightarrow> plug" where
  "remember_counters fr plug =
     plug\<lparr>pl_last_today_energy_kwh := (case fr_today_kwh fr of None \<Rightarrow> pl_last_today_energy_kwh plug | Some k \<Rightarrow> Some k),
          pl_last_month_energy_kwh := (case fr_month_kwh fr of None \<Rightarrow> pl_last_month_energy_kwh plug | Some k \<Rightarrow> Some k)\<rparr>"

text \<open>What the plug's own calendar counters say was drawn since the last frame.\<close>

definition unmetered_candidate :: "config \<Rightarrow> plug \<Rightarrow> frame \<Rightarrow> pyfloat option" where
  "unmetered_candidate cfg plug fr =
     (case (pl_last_today_energy_kwh plug, pl_last_month_energy_kwh plug, fr_today_kwh fr, fr_month_kwh fr) of
        (Some prev_today, Some prev_month, Some today, Some month) \<Rightarrow>
          let delta_today = fsub today prev_today; delta_month = fsub month prev_month;
              reset_today = (delta_today < - UNMETERED_CONSUMPTION_RESET_EPS_KWH cfg);
              reset_month = (delta_month < - UNMETERED_CONSUMPTION_RESET_EPS_KWH cfg)
          in if \<not> reset_today \<and> \<not> reset_month then Some (max delta_today delta_month)
             else if reset_today \<and> \<not> reset_month then Some delta_month
             else if reset_month \<and> \<not> reset_today then Some delta_today
             else None
      | _ \<Rightarrow> None)"

subsection \<open>Automatic stops\<close>

definition exhausted_reason :: "charging_session \<Rightarrow> string" where
  "exhausted_reason s =
     (if cs_hold_coins s \<noteq> None then ''auto-stopped: session hold exhausted'' else ''auto-stopped: wallet balance exhausted'')"

definition maybe_auto_stop_on_exhaustion :: "config \<Rightarrow> timestamp \<Rightarrow> mqtt_state \<Rightarrow> charging_session \<Rightarrow> mqtt_state" where
  "maybe_auto_stop_on_exhaustion cfg now m s =
     (if \<not> AUTO_STOP_ON_BALANCE_EXHAUSTED cfg then m
      else let accrued_cost = session_cost cfg s (cs_energy_kwh s)
           in if accrued_cost \<le> 0 then m
              else case (case cs_hold_coins s of Some h \<Rightarrow> Some h | None \<Rightarrow> balance_of (w_db (mq_world m)) (cs_user_id s)) of
                     None \<Rightarrow> m
                   | Some threshold \<Rightarrow>
                       if accrued_cost < threshold
                       then (if 0 < LOW_BALANCE_WARN_FRACTION cfg
                                \<and> fmul (fl (money_dec threshold)) (LOW_BALANCE_WARN_FRACTION cfg) \<le> fl (money_dec accrued_cost)
                                \<and> cs_id s \<notin> set (mq_low_balance_warned m)
                             then m\<lparr>mq_low_balance_warned :=
                                      (if 1000 < length (mq_low_balance_warned m) then [] else mq_low_balance_warned m) @ [cs_id s],
                                    mq_world := emit [Notify (cs_user_id s) ''low_balance'' ''warning'' None (Some (cs_id s))] (mq_world m)\<rparr>
                             else m)
                       else let r = finalize_charging_session cfg now (mq_world m) (cs_id s) None (Some (exhausted_reason s))
                            in m\<lparr>mq_world := fst r,
                                 mq_low_balance_warned := (case snd r of
                                     Inl _ \<Rightarrow> mq_low_balance_warned m
                                   | Inr _ \<Rightarrow> filter (\<lambda>i. i \<noteq> cs_id s) (mq_low_balance_warned m))\<rparr>)"

definition limit_reason :: "timestamp \<Rightarrow> charging_session \<Rightarrow> string option" where
  "limit_reason now s =
     (if (case cs_max_kwh s of None \<Rightarrow> False | Some k \<Rightarrow> k \<le> cs_energy_kwh s) then Some ''auto-stopped: energy limit reached''
      else case cs_max_duration_seconds s of
             None \<Rightarrow> None
           | Some n \<Rightarrow> if of_int n \<le> total_seconds (now - cs_started_at s) then Some ''auto-stopped: time limit reached'' else None)"

definition maybe_auto_stop_on_limits :: "config \<Rightarrow> timestamp \<Rightarrow> mqtt_state \<Rightarrow> charging_session \<Rightarrow> mqtt_state" where
  "maybe_auto_stop_on_limits cfg now m s =
     (if \<not> AUTO_STOP_ON_LIMITS cfg then m
      else case limit_reason now s of
             None \<Rightarrow> m
           | Some reason \<Rightarrow> m\<lparr>mq_world := fst (finalize_charging_session cfg now (mq_world m) (cs_id s) None (Some reason))\<rparr>)"

subsection \<open>Persisting a frame\<close>

text \<open>
  The transaction of a frame, on a plug of the publishing gateway.  It gives the committed database,
  the effects issued meanwhile, the metered session with its reprice, and the unmetered estimate;
  \<open>None\<close> in place of the database is the rollback after a query found several rows where one may
  exist.
\<close>

record frame_result =
  fx_db :: "db option"
  fx_effects :: "effect list"
  fx_metered :: "(charging_session \<times> (money \<times> timestamp option) option) option"
  fx_unmetered :: "pyfloat option"

definition target_sessions :: "db \<Rightarrow> frame \<Rightarrow> charging_session list" where
  "target_sessions d fr =
     filter (\<lambda>s. (case fr_session_id fr of None \<Rightarrow> True | Some i \<Rightarrow> cs_id s = i)
       \<and> cs_plug_id s = fr_plug_id fr \<and> cs_status s = ACTIVE) (charging_sessions d)"

definition rolled_back :: frame_result where
  "rolled_back = \<lparr>fx_db = None, fx_effects = [], fx_metered = None, fx_unmetered = None\<rparr>"

definition frame_transaction :: "config \<Rightarrow> zones \<Rightarrow> timestamp \<Rightarrow> db \<Rightarrow> frame \<Rightarrow> plug \<Rightarrow> frame_result" where
  "frame_transaction cfg zones now d fr plug =
     (let d1 = upd_plug (fr_plug_id fr) (\<lambda>p. remember_counters fr (stamp_plug cfg now fr p)) d
      in case target_sessions d fr of
           [] \<Rightarrow>
             let unmetered = unmetered_candidate cfg plug fr
             in if fr_relay_on fr \<and> \<not> fr_offline fr
                then (case filter (\<lambda>s. cs_plug_id s = fr_plug_id fr \<and> cs_status s = ACTIVE) (charging_sessions d) of
                        [] \<Rightarrow> \<lparr>fx_db = Some d1, fx_effects = [Plug_Off (pl_gateway_id plug) (fr_plug_id fr)],
                              fx_metered = None, fx_unmetered = unmetered\<rparr>
                      | [_] \<Rightarrow> \<lparr>fx_db = Some d1, fx_effects = [], fx_metered = None, fx_unmetered = unmetered\<rparr>
                      | _ \<Rightarrow> rolled_back)
                else \<lparr>fx_db = Some d1, fx_effects = [], fx_metered = None, fx_unmetered = unmetered\<rparr>
         | [s] \<Rightarrow>
             if fr_session_id fr = None \<and> \<not> fr_relay_on fr
             then \<lparr>fx_db = Some d1, fx_effects = [], fx_metered = None, fx_unmetered = None\<rparr>
             else let r = reprice_session_if_due cfg zones d (meter_session cfg now fr s) plug now
                  in \<lparr>fx_db = Some (upd_session (cs_id s) (\<lambda>_. fst r) d1), fx_effects = [], fx_metered = Some r, fx_unmetered = None\<rparr>
         | _ \<Rightarrow> rolled_back)"

text \<open>After the commit: the operator's event, the live mirror, the rate notice and the two stops.\<close>

definition mirror_session ::
  "world \<Rightarrow> int \<Rightarrow> charging_session \<Rightarrow> (money \<times> timestamp option) option \<Rightarrow> world" where
  "mirror_session w plug_id s reprice =
     (let st1 = hydrate_session (w_store w) plug_id (cs_rate_coins_per_kwh s) (cs_settled_cost_coins s)
                  (cs_rate_segment_start_kwh s) (Some (cs_started_at s))
      in case reprice of
           None \<Rightarrow> w\<lparr>w_store := st1\<rparr>
         | Some (new_rate, boundary) \<Rightarrow>
             emit [Notify (cs_user_id s) ''rate_changed'' ''info'' (Some plug_id) (Some (cs_id s))]
               (w\<lparr>w_store := set_segment_state st1 plug_id (cs_settled_cost_coins s) (cs_rate_segment_start_kwh s) (Some new_rate)\<rparr>))"

definition after_frame :: "config \<Rightarrow> timestamp \<Rightarrow> mqtt_state \<Rightarrow> int \<Rightarrow> charging_session \<Rightarrow> (money \<times> timestamp option) option \<Rightarrow> mqtt_state" where
  "after_frame cfg now m plug_id s reprice =
     maybe_auto_stop_on_limits cfg now
       (maybe_auto_stop_on_exhaustion cfg now (m\<lparr>mq_world := mirror_session (mq_world m) plug_id s reprice\<rparr>) s) s"

definition report_unmetered :: "config \<Rightarrow> timestamp \<Rightarrow> pyfloat \<Rightarrow> mqtt_state \<Rightarrow> string \<Rightarrow> int \<Rightarrow> pyfloat option \<Rightarrow> mqtt_state" where
  "report_unmetered cfg now tick m gateway_id plug_id unmetered =
     (case unmetered of
        None \<Rightarrow> m
      | Some candidate \<Rightarrow>
          if candidate < UNMETERED_CONSUMPTION_THRESHOLD_KWH cfg then m
          else let r = should_alert_unmetered cfg tick m plug_id
               in if snd r
                  then (fst r)\<lparr>mq_world := persist_gateway_event cfg now (mq_world (fst r)) gateway_id (Some plug_id)
                                 ''UNMETERED_CONSUMPTION'' ''warning''\<rparr>
                  else m)"

definition fed_world :: "config \<Rightarrow> timestamp \<Rightarrow> world \<Rightarrow> frame \<Rightarrow> world" where
  "fed_world cfg now w fr =
     emit [Enqueue_Sample (fr_plug_id fr) (fr_watts fr) (fr_kwh fr)]
       (w\<lparr>w_store := store_update cfg (total_seconds now) (w_store w) (fr_plug_id fr) (fr_watts fr) (fr_current fr) (fr_kwh fr)
          (if fr_status fr = ''occupied'' then ''charging'' else ''idle'') None (fr_voltage fr) (fr_relay_on fr)\<rparr>)"

definition persist_telemetry :: "config \<Rightarrow> zones \<Rightarrow> timestamp \<Rightarrow> pyfloat \<Rightarrow> mqtt_state \<Rightarrow> string \<Rightarrow> frame \<Rightarrow> mqtt_state" where
  "persist_telemetry cfg zones now tick m gateway_id fr =
     (let w = mq_world m
      in case row_by pl_id (fr_plug_id fr) (plugs (w_db w)) of
           None \<Rightarrow> m
         | Some plug \<Rightarrow>
             if pl_gateway_id plug \<noteq> gateway_id then m
             else let w1 = fed_world cfg now w fr;
                      r = frame_transaction cfg zones now (w_db w) fr plug
                  in (case fx_db r of
                        None \<Rightarrow> m\<lparr>mq_world := w1\<rparr>
                      | Some d \<Rightarrow>
                          let m1 = m\<lparr>mq_world := emit (fx_effects r) (w1\<lparr>w_db := d\<rparr>)\<rparr>;
                              m2 = report_unmetered cfg now tick m1 gateway_id (fr_plug_id fr) (fx_unmetered r)
                          in (case fx_metered r of
                                None \<Rightarrow> m2
                              | Some (s, reprice) \<Rightarrow> after_frame cfg now m2 (fr_plug_id fr) s reprice)))"

definition handle_gateway_telemetry ::
  "config \<Rightarrow> zones \<Rightarrow> timestamp \<Rightarrow> pyfloat \<Rightarrow> mqtt_state \<Rightarrow> string \<Rightarrow> telemetry_payload \<Rightarrow> mqtt_state" where
  "handle_gateway_telemetry cfg zones now tick m gateway_id payload =
     (case parse_frame cfg payload of
        None \<Rightarrow> m
      | Some fr \<Rightarrow>
          let r = should_bump_gateway_seen cfg tick (persist_telemetry cfg zones now tick m gateway_id fr) gateway_id
          in if snd r then persist_gateway_seen now (fst r) gateway_id else fst r)"

text \<open>Anything the broker may deliver from one gateway, and the offline notice armed by its status.\<close>

inductive gateway_step :: "config \<Rightarrow> zones \<Rightarrow> string \<Rightarrow> world \<Rightarrow> world \<Rightarrow> bool" for cfg zones g where
  telemetry_step: "gateway_step cfg zones g (mq_world m) (mq_world (handle_gateway_telemetry cfg zones now tick m g payload))"
| alarm_step: "gateway_step cfg zones g w (handle_gateway_alarm cfg now w g alarm)"
| log_step: "gateway_step cfg zones g w (handle_gateway_log now w g raw)"
| status_step: "gateway_step cfg zones g (ss_world st) (ss_world (handle_gateway_status cfg now st g status fw))"
| notice_step: "gateway_step cfg zones g (ss_world st) (ss_world (deferred_offline_notice st g))"

text \<open>What a metered frame leaves of its session, before the automatic stops.\<close>

definition metered_row :: "config \<Rightarrow> zones \<Rightarrow> timestamp \<Rightarrow> db \<Rightarrow> frame \<Rightarrow> plug \<Rightarrow> charging_session \<Rightarrow> charging_session" where
  "metered_row cfg zones now d fr plug s = fst (reprice_session_if_due cfg zones d (meter_session cfg now fr s) plug now)"

text \<open>The world after the transaction that metered \<open>s\<close>, with the live store fed.\<close>

definition metered_world :: "config \<Rightarrow> zones \<Rightarrow> timestamp \<Rightarrow> world \<Rightarrow> frame \<Rightarrow> plug \<Rightarrow> charging_session \<Rightarrow> world" where
  "metered_world cfg zones now w fr plug s =
     (fed_world cfg now w fr)\<lparr>w_db := upd_session (cs_id s) (\<lambda>_. metered_row cfg zones now (w_db w) fr plug s)
        (upd_plug (fr_plug_id fr) (\<lambda>p. remember_counters fr (stamp_plug cfg now fr p)) (w_db w))\<rparr>"

text \<open>
  The energy a sequence of raw counter readings stands for: the first reading and every rise after
  it, whatever falls lie between; and the meter over a sequence of frames.
\<close>

fun rises :: "pyfloat \<Rightarrow> pyfloat list \<Rightarrow> rat" where
  "rises l [] = 0"
| "rises l (r # rs) = max 0 (r - l) + rises r rs"

definition delivered :: "pyfloat list \<Rightarrow> rat" where
  "delivered rs = (case rs of [] \<Rightarrow> 0 | r # rs \<Rightarrow> r + rises r rs)"

definition meter_all :: "config \<Rightarrow> (timestamp \<times> frame) list \<Rightarrow> charging_session \<Rightarrow> charging_session" where
  "meter_all cfg frs s = fold (\<lambda>f. meter_session cfg (fst f) (snd f)) frs s"

definition readings :: "(timestamp \<times> frame) list \<Rightarrow> pyfloat list" where
  "readings frs = map (\<lambda>f. fr_kwh (snd f)) frs"

definition live_frame :: "pyfloat \<Rightarrow> frame" where
  "live_frame kwh = \<lparr>fr_plug_id = 1, fr_watts = 1000, fr_kwh = kwh, fr_voltage = 230, fr_current = 4, fr_status = ''occupied'',
     fr_relay_on = True, fr_session_id = Some 1, fr_offline = False, fr_today_kwh = None, fr_month_kwh = None\<rparr>"

definition manager_of :: "world \<Rightarrow> mqtt_state" where
  "manager_of w = \<lparr>mq_world = w, mq_gateway_seen_bumped = Map.empty, mq_unmetered_alert_cooldown = Map.empty, mq_low_balance_warned = []\<rparr>"

definition sample_telemetry :: telemetry_payload where
  "sample_telemetry = \<lparr>tp_plug_id = Got 1, tp_watts = Got (Real_Number 1000), tp_kwh = Got (Real_Number 900), tp_voltage = Absent,
     tp_current = Absent, tp_status = None, tp_relay = None, tp_session_id = Got 1, tp_offline = None,
     tp_today_kwh = Absent, tp_month_kwh = Absent\<rparr>"

text \<open>Whether a metered session must be stopped by its frame.\<close>

definition stop_due :: "config \<Rightarrow> timestamp \<Rightarrow> db \<Rightarrow> charging_session \<Rightarrow> bool" where
  "stop_due cfg now d s \<longleftrightarrow>
     AUTO_STOP_ON_BALANCE_EXHAUSTED cfg \<and> 0 < session_cost cfg s (cs_energy_kwh s)
       \<and> (case (case cs_hold_coins s of Some h \<Rightarrow> Some h | None \<Rightarrow> balance_of d (cs_user_id s)) of
            None \<Rightarrow> False | Some threshold \<Rightarrow> threshold \<le> session_cost cfg s (cs_energy_kwh s))
     \<or> AUTO_STOP_ON_LIMITS cfg \<and> limit_reason now s \<noteq> None"

subsection \<open>Frames and meter\<close>

lemma float_field_is_float: "float_field d v = Some x \<Longrightarrow> is_float d \<Longrightarrow> is_float x"
  by (auto simp: float_field_def split: wire.splits number.splits)

lemma parse_frame_ok:
  assumes "parse_frame cfg p = Some fr"
  shows "is_float (fr_kwh fr)" "0 \<le> fr_kwh fr" "fr_kwh fr \<le> MAX_PLAUSIBLE_KWH cfg"
  using assms
  by (auto simp: parse_frame_def Let_def not_less dest: float_field_is_float [of 0] split: wire.splits option.splits if_splits)

lemma track_counter_simps [simp]:
  "cs_id (track_counter cfg k s) = cs_id s" "cs_user_id (track_counter cfg k s) = cs_user_id s"
  "cs_plug_id (track_counter cfg k s) = cs_plug_id s" "cs_hold_coins (track_counter cfg k s) = cs_hold_coins s"
  "cs_status (track_counter cfg k s) = cs_status s" "cs_energy_kwh (track_counter cfg k s) = cs_energy_kwh s"
  "current_rate cfg' (track_counter cfg k s) = current_rate cfg' s" "settled_of (track_counter cfg k s) = settled_of s"
  by (simp_all add: track_counter_def current_rate_def settled_of_def)

lemma meter_session_simps [simp]:
  "cs_id (meter_session cfg now fr s) = cs_id s" "cs_user_id (meter_session cfg now fr s) = cs_user_id s"
  "cs_plug_id (meter_session cfg now fr s) = cs_plug_id s" "cs_hold_coins (meter_session cfg now fr s) = cs_hold_coins s"
  "cs_status (meter_session cfg now fr s) = cs_status s"
  by (simp_all add: meter_session_def Let_def)

lemma meter_session_mono: "cs_energy_kwh s \<le> cs_energy_kwh (meter_session cfg now fr s)"
  by (simp add: meter_session_def Let_def)

lemma meter_session_sane:
  assumes "session_sane cfg s"
  shows "session_sane cfg (meter_session cfg' now fr s)"
proof -
  have "is_float (cs_energy_kwh (meter_session cfg' now fr s))"
    using assms by (simp add: meter_session_def Let_def session_sane_def)
  moreover have "0 \<le> cs_energy_kwh (meter_session cfg' now fr s)"
    using assms meter_session_mono [of s cfg' now fr] by (simp add: session_sane_def)
  ultimately show ?thesis
    using assms by (simp add: session_sane_def) (simp add: meter_session_def Let_def current_rate_def settled_of_def track_counter_def)
qed

subsection \<open>The live store\<close>

lemma store_latest:
  "i \<noteq> p \<Longrightarrow> get_latest (store_update cfg t st p pw c e status cost v r) i = get_latest st i"
  "get_latest (hydrate_session st p rate settled start since) i = get_latest st i"
  "get_latest (set_segment_state st p settled' start' rate') i = get_latest st i"
  by (simp_all add: get_latest_def store_update_def hydrate_session_def set_segment_state_def Let_def)

lemma mirror_session_simps [simp]:
  "w_db (mirror_session w p s reprice) = w_db w"
  "get_latest (w_store (mirror_session w p s reprice)) i = get_latest (w_store w) i"
  by (simp_all add: mirror_session_def Let_def store_latest split: option.split)

subsection \<open>The automatic stops\<close>

lemma emit_Nil [simp]: "emit [] w = w"
  by (simp add: emit_def)

lemma find_update_where:
  assumes "\<And>x. key (f x) = key x" "\<And>x. Q (f x) = Q x"
  shows "find (\<lambda>x. key x = k \<and> Q x) (update_where (\<lambda>x. key x = k) f rows) = map_option f (find (\<lambda>x. key x = k \<and> Q x) rows)"
  using assms by (induction rows) (auto simp: update_where_def)

lemma stopped_row:
  assumes ok: "platform_ok cfg (w_db w)" and s: "find_session (w_db w) i u = Some s" "cs_status s = ACTIVE"
  shows "find_session (w_db (fst (finalize_charging_session cfg now w i u reason))) i u =
      Some (s\<lparr>cs_status := COMPLETED, cs_coins_spent := requested_debit cfg s, cs_ended_at := Some now\<rparr>)"
proof -
  obtain w' r where w': "finalize_charging_session cfg now w i u reason = (w', Inr (Some r))" and
    rows: "charging_sessions (w_db w') = update_where (\<lambda>x. cs_id x = cs_id s)
       (\<lambda>x. x\<lparr>cs_status := COMPLETED, cs_coins_spent := requested_debit cfg s, cs_ended_at := Some now\<rparr>)
       (charging_sessions (w_db w))"
    using finalize_settles [OF ok s] by metis
  have i: "cs_id s = i" using find_session_SomeD [OF s(1)] by simp
  show ?thesis
    unfolding w' fst_conv find_session_def rows i
    by (subst find_update_where) (use s(1) in \<open>simp_all add: find_session_def cong: option.case_cong\<close>)
qed

lemma stop_twice:
  assumes "platform_ok cfg (w_db w)" "find_session (w_db w) i u = Some s" "cs_status s = ACTIVE"
  shows "fst (finalize_charging_session cfg now' (fst (finalize_charging_session cfg now w i u reason)) i u reason') =
    fst (finalize_charging_session cfg now w i u reason)"
  using stopped_row [OF assms, of now reason]
  by (simp add: finalize_charging_session_def [of cfg now' "fst (finalize_charging_session cfg now w i u reason)"])

lemma auto_stop_outcome:
  assumes ok: "platform_ok cfg (w_db (mq_world m))" and s: "find_session (w_db (mq_world m)) (cs_id s) None = Some s" "cs_status s = ACTIVE"
  shows "\<exists>es reason. mq_world (maybe_auto_stop_on_limits cfg now (maybe_auto_stop_on_exhaustion cfg now m s) s) =
    (if stop_due cfg now (w_db (mq_world m)) s
     then fst (finalize_charging_session cfg now (emit es (mq_world m)) (cs_id s) None reason) else emit es (mq_world m))"
proof -
  let ?m = "maybe_auto_stop_on_exhaustion cfg now m s"
  let ?fin = "\<lambda>w r. fst (finalize_charging_session cfg now w (cs_id s) None r)"
  let ?over = "AUTO_STOP_ON_BALANCE_EXHAUSTED cfg \<and> 0 < session_cost cfg s (cs_energy_kwh s)
       \<and> (case (case cs_hold_coins s of Some h \<Rightarrow> Some h | None \<Rightarrow> balance_of (w_db (mq_world m)) (cs_user_id s)) of
            None \<Rightarrow> False | Some threshold \<Rightarrow> threshold \<le> session_cost cfg s (cs_energy_kwh s))"
  have limits: "mq_world (maybe_auto_stop_on_limits cfg now m' s) =
      (if AUTO_STOP_ON_LIMITS cfg \<and> limit_reason now s \<noteq> None then ?fin (mq_world m') (limit_reason now s) else mq_world m')" for m'
    by (simp add: maybe_auto_stop_on_limits_def split: option.split)
  show ?thesis
  proof (cases ?over)
    case True
    then have "mq_world ?m = ?fin (mq_world m) (Some (exhausted_reason s))"
      by (auto simp: maybe_auto_stop_on_exhaustion_def Let_def split: option.splits)
    then have "mq_world (maybe_auto_stop_on_limits cfg now ?m s) = ?fin (emit [] (mq_world m)) (Some (exhausted_reason s))"
      using stop_twice [OF ok s] by (simp add: limits)
    with True show ?thesis unfolding stop_due_def by meson
  next
    case False
    then have "mq_world ?m = mq_world m
        \<or> mq_world ?m = emit [Notify (cs_user_id s) ''low_balance'' ''warning'' None (Some (cs_id s))] (mq_world m)"
      by (cases "cs_hold_coins s"; cases "balance_of (w_db (mq_world m)) (cs_user_id s)")
        (auto simp: maybe_auto_stop_on_exhaustion_def Let_def not_le not_less)
    then obtain es where es: "mq_world ?m = emit es (mq_world m)" by (metis emit_Nil)
    have "stop_due cfg now (w_db (mq_world m)) s \<longleftrightarrow> AUTO_STOP_ON_LIMITS cfg \<and> limit_reason now s \<noteq> None"
      using False unfolding stop_due_def by blast
    then show ?thesis
      by (intro exI [of _ es] exI [of _ "limit_reason now s"]) (simp only: limits es)
  qed
qed

subsection \<open>A frame acts on its own plug only\<close>

lemma session_row_acts:
  assumes s: "s \<in> set (charging_sessions (w_db w))" "cs_status s = ACTIVE" "owns (w_db w) g (cs_plug_id s)"
    and s': "cs_id s' = cs_id s" "cs_user_id s' = cs_user_id s" "cs_plug_id s' = cs_plug_id s"
      "cs_hold_coins s' = cs_hold_coins s" "cs_status s' = cs_status s" "platform_ok cfg (w_db w) \<Longrightarrow> session_sane cfg s'"
  shows "gateway_acts cfg g w (w\<lparr>w_db := upd_session (cs_id s) (\<lambda>_. s') (w_db w)\<rparr>)"
proof (rule gateway_actsI)
  let ?w = "w\<lparr>w_db := upd_session (cs_id s) (\<lambda>_. s') (w_db w)\<rparr>"
  assume ok: "platform_ok cfg (w_db w)"
  have "charging_sessions (w_db ?w) = update_where (\<lambda>r. r = s) (\<lambda>_. s') (charging_sessions (w_db w))"
    using update_where_key [OF _ s(1), of cs_id] platform_okD(3) [OF ok] by (simp add: keys_ok_def)
  then have "confined g w ?w"
    by (rule confined_session [OF s]) (use s' in \<open>simp_all add: balance_of_cong [OF upd_session_simps(2)]\<close>)
  then show "gateway_acts cfg g w ?w"
    using platform_ok_session_row [OF ok s(1) s'(1-5)] s'(6) [OF ok] by (simp add: gateway_acts_def keeps_def)
qed

lemma stamp_acts:
  assumes "owns (w_db w) g (fr_plug_id fr)"
  shows "gateway_acts cfg g w (w\<lparr>w_db := upd_plug (fr_plug_id fr) (\<lambda>p. remember_counters fr (stamp_plug cfg' now fr p)) (w_db w)\<rparr>)"
  by (rule plug_row_acts [OF assms, where h = "\<lambda>p. remember_counters fr (stamp_plug cfg' now fr p)"])
    (simp_all add: remember_counters_def stamp_plug_def cap_row_def Let_def split: if_split_asm)

lemma fed_world_db [simp]: "w_db (fed_world cfg now w fr) = w_db w"
  by (simp add: fed_world_def)

lemma feed_acts:
  assumes "owns (w_db w) g (fr_plug_id fr)"
  shows "gateway_acts cfg g w (fed_world cfg' now w fr)"
proof (rule gateway_acts_frame)
  fix i assume "\<not> owns (w_db w) g i"
  with assms have "i \<noteq> fr_plug_id fr" by auto
  then show "get_latest (w_store (fed_world cfg' now w fr)) i = get_latest (w_store w) i" by (simp add: fed_world_def store_latest(1))
qed simp_all

lemma metered_row_fields:
  "cs_id (metered_row cfg zones now d fr plug s) = cs_id s" "cs_user_id (metered_row cfg zones now d fr plug s) = cs_user_id s"
  "cs_plug_id (metered_row cfg zones now d fr plug s) = cs_plug_id s"
  "cs_hold_coins (metered_row cfg zones now d fr plug s) = cs_hold_coins s"
  "cs_status (metered_row cfg zones now d fr plug s) = cs_status s"
  "cs_energy_kwh (metered_row cfg zones now d fr plug s) = cs_energy_kwh (meter_session cfg now fr s)"
  using reprice_fields [OF surjective_pairing] by (simp_all add: metered_row_def)

lemma metered_row_sane:
  assumes "platform_ok cfg d" "s \<in> set (charging_sessions d)" "cs_status s = ACTIVE"
  shows "session_sane cfg (metered_row cfg zones now d fr plug s)"
  unfolding metered_row_def
proof (rule reprice_sane [OF _ platform_okD(7) [OF assms(1)] surjective_pairing])
  have "session_sane cfg s" using assms platform_okD(6) [OF assms(1)] by (auto simp: sessions_sane_def list_all_iff)
  then show "session_sane cfg (meter_session cfg now fr s)" by (rule meter_session_sane)
qed

lemma target_sessions_mem:
  "s \<in> set (target_sessions d fr) \<Longrightarrow> s \<in> set (charging_sessions d) \<and> cs_plug_id s = fr_plug_id fr \<and> cs_status s = ACTIVE"
  by (simp add: target_sessions_def)

lemma metered_world_acts:
  assumes s: "target_sessions (w_db w) fr = [s]" and own: "owns (w_db w) g (fr_plug_id fr)"
  shows "gateway_acts cfg g w (metered_world cfg zones now w fr plug s)"
proof -
  let ?F = "\<lambda>p. remember_counters fr (stamp_plug cfg now fr p)"
  define w1 where "w1 = fed_world cfg now w fr"
  define w2 where "w2 = w1\<lparr>w_db := upd_plug (fr_plug_id fr) ?F (w_db w1)\<rparr>"
  let ?s = "metered_row cfg zones now (w_db w) fr plug s"
  have mem: "s \<in> set (charging_sessions (w_db w))" "cs_plug_id s = fr_plug_id fr" "cs_status s = ACTIVE"
    using target_sessions_mem [of s "w_db w" fr] by (simp_all add: s)
  have w1: "gateway_acts cfg g w w1" unfolding w1_def using own by (rule feed_acts)
  have "gateway_acts cfg g w1 w2" unfolding w2_def by (rule stamp_acts) (simp add: w1_def own)
  with w1 have w2: "gateway_acts cfg g w w2" by (rule gateway_acts_trans)
  have own2: "owns (w_db w2) = owns (w_db w)"
    by (rule owns_cong) (simp add: w1_def w2_def map_update_where remember_counters_def stamp_plug_def Let_def)
  show ?thesis
  proof (rule gateway_actsI)
    assume ok: "platform_ok cfg (w_db w)"
    have "gateway_acts cfg g w2 (w2\<lparr>w_db := upd_session (cs_id s) (\<lambda>_. ?s) (w_db w2)\<rparr>)"
      by (rule session_row_acts) (use mem own own2 metered_row_sane [OF ok mem(1,3)] in \<open>simp_all add: w1_def w2_def metered_row_fields\<close>)
    with w2 have "gateway_acts cfg g w (w2\<lparr>w_db := upd_session (cs_id s) (\<lambda>_. ?s) (w_db w2)\<rparr>)" by (rule gateway_acts_trans)
    then show "gateway_acts cfg g w (metered_world cfg zones now w fr plug s)" by (simp add: metered_world_def w1_def w2_def)
  qed
qed

lemma persist_metered:
  assumes "row_by pl_id (fr_plug_id fr) (plugs (w_db (mq_world m))) = Some plug" "pl_gateway_id plug = g"
    "target_sessions (w_db (mq_world m)) fr = [s]" "fr_session_id fr \<noteq> None \<or> fr_relay_on fr"
  shows "persist_telemetry cfg zones now tick m g fr =
    after_frame cfg now (m\<lparr>mq_world := metered_world cfg zones now (mq_world m) fr plug s\<rparr>) (fr_plug_id fr)
      (metered_row cfg zones now (w_db (mq_world m)) fr plug s)
      (snd (reprice_session_if_due cfg zones (w_db (mq_world m)) (meter_session cfg now fr s) plug now))"
  using assms
  by (auto simp: persist_telemetry_def frame_transaction_def Let_def report_unmetered_def metered_world_def metered_row_def
      split: prod.split)

lemma metered_found:
  assumes ok: "platform_ok cfg (w_db w)" and s: "target_sessions (w_db w) fr = [s]"
  shows "find_session (w_db (metered_world cfg zones now w fr plug s)) (cs_id s) None = Some (metered_row cfg zones now (w_db w) fr plug s)"
proof -
  have mem: "s \<in> set (charging_sessions (w_db w))" using target_sessions_mem [of s "w_db w" fr] by (simp add: s)
  have "row_by cs_id (cs_id s) (charging_sessions (w_db w)) = Some s"
    using row_by_in_set [of cs_id, OF _ mem] platform_okD(3) [OF ok] by (simp add: keys_ok_def)
  then show ?thesis
    using row_by_update_where [of "\<lambda>r. cs_id r = cs_id s" cs_id "\<lambda>_. metered_row cfg zones now (w_db w) fr plug s" "cs_id s"
      "charging_sessions (w_db w)"]
    by (simp add: metered_world_def find_session_def row_by_def [symmetric] metered_row_fields)
qed

lemma after_frame_outcome:
  assumes ok: "platform_ok cfg (w_db w)" and s: "target_sessions (w_db w) fr = [s]" and own: "owns (w_db w) g (fr_plug_id fr)"
    and w1_def: "w1 = metered_world cfg zones now w fr plug s" and s1_def: "s1 = metered_row cfg zones now (w_db w) fr plug s"
  obtains w2 reason where "w_db w2 = w_db w1" "gateway_acts cfg g w w2" "find_session (w_db w2) (cs_id s) None = Some s1"
    "mq_world (after_frame cfg now (m\<lparr>mq_world := w1\<rparr>) p s1 reprice) =
      (if stop_due cfg now (w_db w1) s1 then fst (finalize_charging_session cfg now w2 (cs_id s) None reason) else w2)"
proof -
  let ?w = "mirror_session w1 p s1 reprice"
  have acts: "gateway_acts cfg g w w1" unfolding w1_def using s own by (rule metered_world_acts)
  then have ok1: "platform_ok cfg (w_db ?w)" using ok by (simp add: gateway_acts_def keeps_def)
  have id: "cs_id s1 = cs_id s" "cs_status s1 = ACTIVE"
    using target_sessions_mem [of s "w_db w" fr] by (simp_all add: s1_def metered_row_fields s)
  have found: "find_session (w_db w1) (cs_id s) None = Some s1" unfolding w1_def s1_def using ok s by (rule metered_found)
  have "\<exists>es reason. mq_world (after_frame cfg now (m\<lparr>mq_world := w1\<rparr>) p s1 reprice) =
      (if stop_due cfg now (w_db w1) s1 then fst (finalize_charging_session cfg now (emit es ?w) (cs_id s) None reason) else emit es ?w)"
    using auto_stop_outcome [of cfg "m\<lparr>mq_world := ?w\<rparr>" s1 now] ok1 found id
    by (simp add: after_frame_def cong: if_cong split del: if_split)
  then obtain es reason where out: "mq_world (after_frame cfg now (m\<lparr>mq_world := w1\<rparr>) p s1 reprice) =
      (if stop_due cfg now (w_db w1) s1 then fst (finalize_charging_session cfg now (emit es ?w) (cs_id s) None reason) else emit es ?w)"
    by blast
  have "gateway_acts cfg g w1 (emit es ?w)" by (rule gateway_acts_frame) simp_all
  with acts have "gateway_acts cfg g w (emit es ?w)" by (rule gateway_acts_trans)
  then show thesis by (rule that [of "emit es ?w", rotated]) (use out found in simp_all)
qed

lemma report_unmetered_acts: "gateway_acts cfg g (mq_world m) (mq_world (report_unmetered cfg now tick m g p u))"
  by (simp add: report_unmetered_def should_alert_unmetered_def Let_def persist_event_acts split: option.split)

text \<open>A frame that is not metered: the plug row, perhaps an OFF command, perhaps a report.\<close>

lemma unmetered_acts:
  assumes own: "owns (w_db (mq_world m)) g (fr_plug_id fr)"
  shows "gateway_acts cfg g (mq_world m) (mq_world (report_unmetered cfg now tick
    (m\<lparr>mq_world := emit es ((fed_world cfg now (mq_world m) fr)
       \<lparr>w_db := upd_plug (fr_plug_id fr) (\<lambda>p. remember_counters fr (stamp_plug cfg now fr p)) (w_db (mq_world m))\<rparr>)\<rparr>) g p u))"
    (is "gateway_acts cfg g ?w (mq_world (report_unmetered cfg now tick ?m g p u))")
proof -
  have "gateway_acts cfg g (fed_world cfg now ?w fr) ((fed_world cfg now ?w fr)
       \<lparr>w_db := upd_plug (fr_plug_id fr) (\<lambda>p. remember_counters fr (stamp_plug cfg now fr p)) (w_db (fed_world cfg now ?w fr))\<rparr>)"
    by (rule stamp_acts) (simp add: own)
  then have "gateway_acts cfg g ?w (mq_world ?m)"
    using gateway_acts_trans [OF feed_acts [OF own]] gateway_acts_trans [OF _ emit_acts] by simp
  then show ?thesis by (rule gateway_acts_trans) (rule report_unmetered_acts)
qed

lemma frame_transaction_cases:
  obtains (metered) s where "target_sessions d fr = [s]" "fr_session_id fr \<noteq> None \<or> fr_relay_on fr"
    | (rolled) "frame_transaction cfg zones now d fr plug = rolled_back"
    | (other) es u where "frame_transaction cfg zones now d fr plug =
        \<lparr>fx_db = Some (upd_plug (fr_plug_id fr) (\<lambda>p. remember_counters fr (stamp_plug cfg now fr p)) d),
         fx_effects = es, fx_metered = None, fx_unmetered = u\<rparr>"
proof -
  let ?r = "frame_transaction cfg zones now d fr plug"
  have "(\<exists>s. target_sessions d fr = [s] \<and> (fr_session_id fr \<noteq> None \<or> fr_relay_on fr)) \<or> ?r = rolled_back
    \<or> (\<exists>es u. ?r = \<lparr>fx_db = Some (upd_plug (fr_plug_id fr) (\<lambda>p. remember_counters fr (stamp_plug cfg now fr p)) d),
         fx_effects = es, fx_metered = None, fx_unmetered = u\<rparr>)"
    by (simp add: frame_transaction_def Let_def split: list.split)
  then show thesis using that by blast
qed

lemma persist_telemetry_acts:
  "gateway_acts cfg g (mq_world m) (mq_world (persist_telemetry cfg zones now tick m g fr))"
proof (cases "row_by pl_id (fr_plug_id fr) (plugs (w_db (mq_world m)))")
  case (Some plug)
  let ?w = "mq_world m" and ?m = "persist_telemetry cfg zones now tick m g fr"
  show ?thesis
  proof (cases "pl_gateway_id plug = g")
    case True
    then have own: "owns (w_db ?w) g (fr_plug_id fr)" using row_by_SomeD [OF Some] by (auto simp: owns_def exists_row_iff)
    show ?thesis
    proof (cases rule: frame_transaction_cases [of "w_db ?w" fr _ cfg zones now plug, case_names metered rolled other])
      case (metered s)
      show ?thesis
      proof (rule gateway_actsI)
        assume ok: "platform_ok cfg (w_db ?w)"
        let ?s = "metered_row cfg zones now (w_db ?w) fr plug s" and ?w1 = "metered_world cfg zones now ?w fr plug s"
        obtain w2 reason where w2: "w_db w2 = w_db ?w1" "gateway_acts cfg g ?w w2" "find_session (w_db w2) (cs_id s) None = Some ?s"
          "mq_world ?m = (if stop_due cfg now (w_db ?w1) ?s then fst (finalize_charging_session cfg now w2 (cs_id s) None reason) else w2)"
          unfolding persist_metered [OF Some True metered] by (rule after_frame_outcome [OF ok metered(1) own refl refl])
        have "cs_plug_id s = fr_plug_id fr" using target_sessions_mem [of s "w_db ?w" fr] by (simp add: metered)
        with own have "gateway_acts cfg g w2 (fst (finalize_charging_session cfg now w2 (cs_id s) None reason))"
          by (intro finalize_acts [OF w2(3)]) (simp add: metered_row_fields gateway_acts_owns [OF w2(2) ok])
        with w2(2) show "gateway_acts cfg g ?w (mq_world ?m)" unfolding w2(4) using gateway_acts_trans by simp
      qed
    next
      case rolled
      then show ?thesis using feed_acts [OF own] by (simp add: persist_telemetry_def Some True rolled_back_def Let_def)
    next
      case (other es u)
      then show ?thesis using unmetered_acts [OF own] by (simp add: persist_telemetry_def Some True Let_def)
    qed
  qed (simp add: persist_telemetry_def Some)
qed (simp add: persist_telemetry_def)

lemma telemetry_acts:
  "gateway_acts cfg g (mq_world m) (mq_world (handle_gateway_telemetry cfg zones now tick m g payload))"
proof -
  have seen: "gateway_acts cfg g (mq_world m') (mq_world (persist_gateway_seen now m' g))" for m'
    by (rule gateway_acts_frame) (simp_all add: persist_gateway_seen_def)
  have bump: "gateway_acts cfg g (mq_world m')
      (mq_world (let r = should_bump_gateway_seen cfg tick m' g in if snd r then persist_gateway_seen now (fst r) g else fst r))" for m'
    using seen [of "m'\<lparr>mq_gateway_seen_bumped := (mq_gateway_seen_bumped m')(g \<mapsto> tick)\<rparr>"]
    by (simp add: should_bump_gateway_seen_def Let_def)
  show ?thesis
  proof (cases "parse_frame cfg payload")
    case (Some fr)
    then show ?thesis
      unfolding handle_gateway_telemetry_def Some option.case by (intro gateway_acts_trans [OF persist_telemetry_acts bump])
  qed (simp add: handle_gateway_telemetry_def)
qed

lemma gateway_step_acts: "gateway_step cfg zones g w w' \<Longrightarrow> gateway_acts cfg g w w'"
  by (induction rule: gateway_step.induct) (rule telemetry_acts alarm_acts log_acts status_acts deferred_notice_acts)+

subsection \<open>Accuracy of the meter\<close>

lemma fl_near: "\<bar>x\<bar> \<le> 2097152 \<Longrightarrow> \<bar>fl x - x\<bar> \<le> 1 / 2147483648"
proof -
  assume x: "\<bar>x\<bar> \<le> 2097152"
  have "\<bar>x\<bar> / 2 ^ 53 \<le> 2097152 / 2 ^ 53" using x by (rule divide_right_mono) simp
  moreover have "(1 :: rat) / 2 ^ 1074 \<le> 1 / 2 ^ 32" by (intro divide_left_mono power_increasing) simp_all
  moreover have "(2097152 :: rat) / 2 ^ 53 + 1 / 2 ^ 32 = 1 / 2147483648" by simp
  ultimately show ?thesis using fl_error [of x] by linarith
qed

lemma rises_nonneg: "0 \<le> rises l rs"
  by (induction rs arbitrary: l) auto

lemma meter_step:
  assumes last_raw: "cs_energy_counter_last_raw_kwh s = Some l" and o': "cs_energy_reset_offset_kwh s = b" "0 \<le> b"
    and live: "\<not> fr_offline fr" "fr_kwh fr = r" and vals: "is_float l" "0 \<le> l" "is_float r" "0 \<le> r"
    and bound: "b + l \<le> 1048576" "b + r \<le> 1048576" and thr: "0 \<le> ENERGY_COUNTER_RESET_DROP_KWH cfg" "ENERGY_COUNTER_RESET_DROP_KWH cfg \<le> 1"
    and s'_def: "s' = meter_session cfg now fr s"
  obtains b' where "cs_energy_reset_offset_kwh s' = b'" "0 \<le> b'" "cs_energy_counter_last_raw_kwh s' = Some r"
    "b' + r \<le> b + l + max 0 (r - l) + 2 / 2147483648"
    "b + l + max 0 (r - l) - ENERGY_COUNTER_RESET_DROP_KWH cfg - 2 / 2147483648 \<le> b' + r"
    "cs_energy_kwh s' = max (cs_energy_kwh s) (fl (b' + r))" "\<bar>fl (b' + r) - (b' + r)\<bar> \<le> 1 / 2147483648"
proof -
  let ?thr = "ENERGY_COUNTER_RESET_DROP_KWH cfg"
  define b' where "b' = cs_energy_reset_offset_kwh s'"
  have fields: "cs_energy_counter_last_raw_kwh s' = Some r" "cs_energy_kwh s' = max (cs_energy_kwh s) (fl (b' + r))"
    using live by (simp_all add: b'_def s'_def meter_session_def Let_def track_counter_def fadd_def)
  have l': "\<bar>fl (l - ?thr) - (l - ?thr)\<bar> \<le> 1 / 2147483648" by (rule fl_near) (use vals bound o'(2) thr in linarith)
  have lr: "\<bar>fl (l - r) - (l - r)\<bar> \<le> 1 / 2147483648" by (rule fl_near) (use vals bound o'(2) in linarith)
  have range: "0 \<le> b' \<and> b' + r \<le> b + l + max 0 (r - l) + 2 / 2147483648 \<and> b + l + max 0 (r - l) - ?thr - 2 / 2147483648 \<le> b' + r"
  proof (cases "counter_dropped cfg r s")
    case True
    then have "r < fl (l - ?thr)" by (simp add: counter_dropped_def last_raw fsub_def)
    also have "\<dots> \<le> l" using fsub_mono [of l l 0 ?thr] thr(1) vals(1) by (simp add: fsub_def is_float_def)
    finally have "r < l" .
    moreover have "b' = fl (b + fl (l - r))"
      using True live o'(1) by (simp add: b'_def s'_def meter_session_def Let_def track_counter_def last_raw fadd_def fsub_def)
    moreover have "\<bar>fl (b + fl (l - r)) - (b + fl (l - r))\<bar> \<le> 1 / 2147483648"
      by (rule fl_near) (use lr \<open>r < l\<close> vals bound o'(2) in linarith)
    moreover have "0 \<le> fl (l - r)" "0 \<le> fl (b + fl (l - r))"
      using \<open>r < l\<close> o'(2) by (simp_all add: bin64.rnd_nonneg)
    ultimately show ?thesis using lr thr(1) by linarith
  next
    case False
    then have "fl (l - ?thr) \<le> r" by (simp add: counter_dropped_def last_raw fsub_def)
    with l' have "l - ?thr - 1 / 2147483648 \<le> r" by linarith
    moreover have "b' = b" using False live o'(1) by (simp add: b'_def s'_def meter_session_def Let_def track_counter_def)
    ultimately show ?thesis using o'(2) thr(1) by (simp add: max_def)
  qed
  have "\<bar>fl (b' + r) - (b' + r)\<bar> \<le> 1 / 2147483648"
    by (rule fl_near) (use range vals bound o'(2) in linarith)
  with range fields show thesis by (intro that [OF b'_def [symmetric]]) simp_all
qed

lemma meter_all_bounds:
  assumes "cs_energy_counter_last_raw_kwh s = Some l" "cs_energy_reset_offset_kwh s = b" "0 \<le> b" "is_float l" "0 \<le> l"
    and frames: "list_all (\<lambda>f. \<not> fr_offline (snd f) \<and> is_float (fr_kwh (snd f)) \<and> 0 \<le> fr_kwh (snd f)) frs"
    and thr: "0 \<le> ENERGY_COUNTER_RESET_DROP_KWH cfg" "ENERGY_COUNTER_RESET_DROP_KWH cfg \<le> 1"
    and bound: "b + l + rises l (readings frs) + of_nat (length frs) * (2 / 2147483648) \<le> 1048576"
    and E: "fl (b + l) \<le> cs_energy_kwh s"
  defines "n \<equiv> of_nat (length frs) :: rat"
  shows "cs_energy_kwh (meter_all cfg frs s) \<le> max (cs_energy_kwh s) (b + l + rises l (readings frs) + n * (3 / 2147483648))
    \<and> b + l + rises l (readings frs) - n * (ENERGY_COUNTER_RESET_DROP_KWH cfg + 2 / 2147483648) - 1 / 2147483648
        \<le> cs_energy_kwh (meter_all cfg frs s)"
  using assms(1-8) bound E unfolding n_def
proof (induction frs arbitrary: s l b)
  case Nil
  have "\<bar>fl (b + l) - (b + l)\<bar> \<le> 1 / 2147483648" by (rule fl_near) (use Nil in \<open>simp add: readings_def\<close>)
  with Nil show ?case by (simp add: meter_all_def readings_def, linarith)
next
  case (Cons f frs)
  let ?thr = "ENERGY_COUNTER_RESET_DROP_KWH cfg" and ?r = "fr_kwh (snd f)" and ?s = "meter_session cfg (fst f) (snd f) s"
  have f: "\<not> fr_offline (snd f)" "is_float ?r" "0 \<le> ?r" using Cons.prems(6) by simp_all
  define k where "k = (of_nat (length frs) :: rat)"
  have k: "0 \<le> k" "of_nat (length (f # frs)) = 1 + k" by (simp_all add: k_def)
  have total: "b + l + (max 0 (?r - l) + rises ?r (readings frs)) + (2 / 2147483648 + k * (2 / 2147483648)) \<le> 1048576"
    using Cons.prems(9) by (simp add: readings_def k_def add_divide_distrib)
  have nn: "0 \<le> rises ?r (readings frs)" "0 \<le> k * (2 / 2147483648)" "0 \<le> max 0 (?r - l)" "?r - l \<le> max 0 (?r - l)"
    using k(1) by (simp_all add: rises_nonneg)
  have small: "b + l \<le> 1048576" "b + ?r \<le> 1048576" using total nn by - linarith+
  obtain b' where b': "cs_energy_reset_offset_kwh ?s = b'" "0 \<le> b'" "cs_energy_counter_last_raw_kwh ?s = Some ?r"
    "b' + ?r \<le> b + l + max 0 (?r - l) + 2 / 2147483648" "b + l + max 0 (?r - l) - ?thr - 2 / 2147483648 \<le> b' + ?r"
    "cs_energy_kwh ?s = max (cs_energy_kwh s) (fl (b' + ?r))" "\<bar>fl (b' + ?r) - (b' + ?r)\<bar> \<le> 1 / 2147483648"
    by (rule meter_step [OF Cons.prems(1-3) f(1) refl Cons.prems(4,5) f(2,3) small thr refl])
  have "b' + ?r + rises ?r (readings frs) + of_nat (length frs) * (2 / 2147483648) \<le> 1048576"
    using b'(4) total unfolding k_def by linarith
  then have IH: "cs_energy_kwh (meter_all cfg frs ?s) \<le> max (cs_energy_kwh ?s) (b' + ?r + rises ?r (readings frs) + of_nat (length frs) * (3 / 2147483648))
    \<and> b' + ?r + rises ?r (readings frs) - of_nat (length frs) * (?thr + 2 / 2147483648) - 1 / 2147483648 \<le> cs_energy_kwh (meter_all cfg frs ?s)"
    by (intro Cons.IH [OF b'(3,1,2) f(2,3) _ thr]) (use Cons.prems(6) b'(6) in simp_all)
  have unfold: "meter_all cfg (f # frs) s = meter_all cfg frs ?s" "readings (f # frs) = ?r # readings frs"
    by (simp_all add: meter_all_def readings_def)
  define top where "top = b + l + (max 0 (?r - l) + rises ?r (readings frs)) + (1 + k) * (3 / 2147483648)"
  have split: "(1 + k) * (3 / 2147483648) = 3 / 2147483648 + k * (3 / 2147483648)"
    "(1 + k) * (?thr + 2 / 2147483648) = ?thr + 2 / 2147483648 + k * (?thr + 2 / 2147483648)" by (simp_all add: distrib_right)
  have "0 \<le> k * (3 / 2147483648)" using k(1) by simp
  then have "fl (b' + ?r) \<le> top" "b' + ?r + rises ?r (readings frs) + k * (3 / 2147483648) \<le> top"
    unfolding top_def split using b'(4,7) nn(1) by - linarith+
  then have up: "max (cs_energy_kwh ?s) (b' + ?r + rises ?r (readings frs) + k * (3 / 2147483648)) \<le> max (cs_energy_kwh s) top"
    unfolding b'(6) by - (intro max.boundedI; (rule max.cobounded1 | rule max.coboundedI2, assumption))
  have lo: "b + l + (max 0 (?r - l) + rises ?r (readings frs)) - (1 + k) * (?thr + 2 / 2147483648)
      \<le> b' + ?r + rises ?r (readings frs) - k * (?thr + 2 / 2147483648)"
    unfolding split using b'(5) by linarith
  show ?case
    unfolding unfold k(2) rises.simps top_def [symmetric]
    using IH up lo unfolding k_def [symmetric] by (meson diff_right_mono order_trans)
qed

text \<open>
  A frame replayed from the offline buffer is added to the offset banked since it was recorded: after
  a reset to zero the replay of the last reading before it bills that energy a second time.
\<close>

lemma offline_replay_overbills:
  "let s = sample_session\<lparr>cs_energy_kwh := 0, cs_energy_reset_offset_kwh := 0, cs_energy_counter_last_raw_kwh := None\<rparr>
   in cs_energy_kwh (meter_all default_config [(0, live_frame 10), (1, live_frame 0)] s) = 10
     \<and> cs_energy_kwh (meter_all default_config [(0, live_frame 10), (1, live_frame 0), (2, (live_frame 10)\<lparr>fr_offline := True\<rparr>)] s) = 20"
  by code_simp

lemma manager_world [simp]: "mq_world (manager_of w) = w"
  by (simp add: manager_of_def)

lemma sample_world_ok: "platform_ok default_config (w_db sample_world)"
  by code_simp

lemma stop_due_cong:
  assumes "users d' = users d"
  shows "stop_due cfg now d' s = stop_due cfg now d s"
  by (simp only: stop_due_def balance_of_cong [OF assms])

subsection \<open>Properties\<close>

text \<open>
  C9. A gateway is confined to its own plugs.  Whatever one gateway delivers, telemetry that claims
  any plug and any session, alarms, log lines and status messages in any order, the plugs of other
  gateways keep their rows, the sessions on them keep theirs, nobody without a running session on this
  gateway's plugs has money moved, the live snapshots of other plugs stay as they were, and the
  platform invariant and the books hold.
\<close>

theorem gateway_confined:
  assumes ok: "platform_ok cfg (w_db w)" and run: "reachable (\<lambda>x. x = w) (gateway_step cfg zones g) w'"
  shows "platform_ok cfg (w_db w') \<and> drift (w_db w') = drift (w_db w)
    \<and> (\<forall>p \<in> set (plugs (w_db w)). pl_gateway_id p \<noteq> g \<longrightarrow> p \<in> set (plugs (w_db w')))
    \<and> (\<forall>s \<in> set (charging_sessions (w_db w)). \<not> owns (w_db w) g (cs_plug_id s) \<longrightarrow> s \<in> set (charging_sessions (w_db w')))
    \<and> (\<forall>u. (\<forall>s \<in> set (charging_sessions (w_db w)). cs_user_id s = u \<and> cs_status s = ACTIVE \<longrightarrow> \<not> owns (w_db w) g (cs_plug_id s))
          \<longrightarrow> balance_of (w_db w') u = balance_of (w_db w) u)
    \<and> (\<forall>i. \<not> owns (w_db w) g i \<longrightarrow> get_latest (w_store w') i = get_latest (w_store w) i)"
proof -
  from run have "gateway_acts cfg g w w'"
    by (induction rule: reachable.induct) (auto intro: gateway_acts_trans gateway_step_acts)
  with ok show ?thesis by (simp add: gateway_acts_def keeps_def confined_def)
qed

theorem gateway_confined_witness:
  "sample_session \<in> set (charging_sessions (w_db (mq_world
      (handle_gateway_telemetry default_config ist_zones 5000000 0 (manager_of sample_world) ''other'' sample_telemetry))))
   \<and> balance_of (w_db (mq_world
      (handle_gateway_telemetry default_config ist_zones 5000000 0 (manager_of sample_world) ''other'' sample_telemetry))) 1 = Some 10000"
proof -
  have pre: "\<not> owns (w_db sample_world) ''other'' 1" "charging_sessions (w_db sample_world) = [sample_session]"
    "cs_plug_id sample_session = 1" "balance_of (w_db sample_world) 1 = Some 10000"
    by (simp_all add: owns_def exists_row_iff sample_world_def sample_free_plug_def sample_session_def sample_user_def balance_of_def row_by_Cons)
  have "reachable (\<lambda>x. x = sample_world) (gateway_step default_config ist_zones ''other'')
      (mq_world (handle_gateway_telemetry default_config ist_zones 5000000 0 (manager_of sample_world) ''other'' sample_telemetry))"
    (is "reachable ?init ?step _")
  proof (rule reachable.extend)
    show "reachable ?init ?step (mq_world (manager_of sample_world))" by (rule reachable.start) simp
  qed (rule telemetry_step)
  from gateway_confined [OF sample_world_ok this] pre show ?thesis by auto
qed

text \<open>
  C10. A metered frame settles or covers.  The frame of a plug's own gateway that names its running
  session, or finds the relay on, advances the session's energy and reprices it; when the cost has
  reached the hold, the energy target or the time limit, the same frame settles the session for the
  smaller of cost and hold.  A session that is still running afterwards owes less than its hold (or
  nothing) and is below its limits.  Invariant and books are kept either way.
\<close>

theorem frame_settles_or_covers:
  assumes ok: "platform_ok cfg (w_db (mq_world m))"
    and row: "row_by pl_id (fr_plug_id fr) (plugs (w_db (mq_world m))) = Some plug" "pl_gateway_id plug = g"
    and s: "target_sessions (w_db (mq_world m)) fr = [s]" "fr_session_id fr \<noteq> None \<or> fr_relay_on fr"
    and flags: "AUTO_STOP_ON_BALANCE_EXHAUSTED cfg" "AUTO_STOP_ON_LIMITS cfg"
    and d'_def: "d' = w_db (mq_world (persist_telemetry cfg zones now tick m g fr))"
    and s1_def: "s1 = metered_row cfg zones now (w_db (mq_world m)) fr plug s"
  shows "find_session d' (cs_id s) None = Some (if stop_due cfg now (w_db (mq_world m)) s1
        then s1\<lparr>cs_status := COMPLETED, cs_coins_spent := requested_debit cfg s1, cs_ended_at := Some now\<rparr> else s1)
    \<and> cs_energy_kwh s \<le> cs_energy_kwh s1
    \<and> (\<not> stop_due cfg now (w_db (mq_world m)) s1 \<longrightarrow>
        (session_cost cfg s1 (cs_energy_kwh s1) < hold_of s1 \<or> session_cost cfg s1 (cs_energy_kwh s1) \<le> 0)
        \<and> (\<forall>k. cs_max_kwh s1 = Some k \<longrightarrow> cs_energy_kwh s1 < k)
        \<and> (\<forall>n. cs_max_duration_seconds s1 = Some n \<longrightarrow> total_seconds (now - cs_started_at s1) < of_int n))
    \<and> platform_ok cfg d' \<and> drift d' = drift (w_db (mq_world m))"
proof -
  let ?w = "mq_world m" and ?w1 = "metered_world cfg zones now (mq_world m) fr plug s"
  have own: "owns (w_db ?w) g (fr_plug_id fr)" using row_by_SomeD [OF row(1)] row(2) by (auto simp: owns_def exists_row_iff)
  obtain w2 reason where w2: "w_db w2 = w_db ?w1" "gateway_acts cfg g ?w w2" "find_session (w_db w2) (cs_id s) None = Some s1"
    "mq_world (persist_telemetry cfg zones now tick m g fr) =
       (if stop_due cfg now (w_db ?w1) s1 then fst (finalize_charging_session cfg now w2 (cs_id s) None reason) else w2)"
    unfolding persist_metered [OF row s] s1_def by (rule after_frame_outcome [OF ok s(1) own refl refl])
  have due: "stop_due cfg now (w_db ?w1) s1 = stop_due cfg now (w_db ?w) s1" by (rule stop_due_cong) (simp add: metered_world_def)
  have mem: "s \<in> set (charging_sessions (w_db ?w))" "cs_status s1 = ACTIVE" "cs_hold_coins s1 = cs_hold_coins s"
    using target_sessions_mem [of s "w_db ?w" fr] by (simp_all add: s s1_def metered_row_fields)
  have hold: "cs_hold_coins s \<noteq> None"
    using platform_okD(2) [OF ok] mem target_sessions_mem [of s "w_db ?w" fr] s(1) by (auto simp: money_ok_def holds_ok_def list_all_iff)
  have ok2: "platform_ok cfg (w_db w2)" using w2(2) ok by (simp add: gateway_acts_def keeps_def)
  have "platform_ok cfg d' \<and> drift d' = drift (w_db ?w)"
    using persist_telemetry_acts [of cfg g m zones now tick fr] ok by (simp add: gateway_acts_def keeps_def d'_def)
  moreover have "find_session d' (cs_id s) None = Some (if stop_due cfg now (w_db ?w) s1
        then s1\<lparr>cs_status := COMPLETED, cs_coins_spent := requested_debit cfg s1, cs_ended_at := Some now\<rparr> else s1)"
    using stopped_row [OF ok2 w2(3) mem(2)] w2(3) by (simp add: d'_def w2(4) due)
  moreover have "cs_energy_kwh s \<le> cs_energy_kwh s1" using meter_session_mono by (simp add: s1_def metered_row_fields)
  ultimately show ?thesis
    using hold mem(3) flags by (auto simp: stop_due_def limit_reason_def hold_of_def not_le not_less split: option.splits if_splits)
qed

theorem frame_settles_or_covers_witness:
  "\<exists>s. find_session (w_db (mq_world (persist_telemetry default_config ist_zones 5000000 0 (manager_of sample_world) ''gw'' (live_frame 10)))) 1 None
       = Some s \<and> cs_status s = COMPLETED \<and> cs_energy_kwh s = 10 \<and> cs_coins_spent s = 5000"
proof -
  let ?s = "sample_session\<lparr>cs_energy_kwh := 10, cs_peak_power_w := 1000, cs_last_telemetry_at := Some 5000000,
    cs_energy_counter_last_raw_kwh := Some 10\<rparr>"
  let ?plug = "sample_free_plug\<lparr>pl_status := OCCUPIED\<rparr>"
  have row: "?s = metered_row default_config ist_zones 5000000 (w_db sample_world) (live_frame 10) ?plug sample_session"
    using fl_of_int [of 10]
    by (simp add: metered_row_def meter_session_def live_frame_def track_counter_def counter_dropped_def sample_session_def fadd_def
        reprice_session_if_due_def)
  have pre: "row_by pl_id (fr_plug_id (live_frame 10)) (plugs (w_db sample_world)) = Some ?plug" "pl_gateway_id ?plug = ''gw''"
    "target_sessions (w_db sample_world) (live_frame 10) = [sample_session]"
    "fr_session_id (live_frame 10) \<noteq> None \<or> fr_relay_on (live_frame 10)"
    "AUTO_STOP_ON_BALANCE_EXHAUSTED default_config" "AUTO_STOP_ON_LIMITS default_config" "cs_id sample_session = 1"
    by (simp_all add: target_sessions_def sample_world_def sample_session_def live_frame_def sample_free_plug_def default_config_def row_by_Cons)
  have "session_cost default_config sample_session 10 = 5000" by code_simp
  moreover have "session_cost default_config ?s 10 = session_cost default_config sample_session 10"
    by (simp add: session_cost_def current_rate_def settled_of_def cong: option.case_cong)
  ultimately have "stop_due default_config 5000000 (w_db sample_world) ?s" "requested_debit default_config ?s = 5000"
    using pre(5) by (simp_all add: stop_due_def requested_debit_def sample_session_def Let_def)
  with frame_settles_or_covers [of default_config "manager_of sample_world" "live_frame 10" ?plug "''gw''" sample_session _ ist_zones 5000000 0,
      simplified manager_world, OF sample_world_ok pre(1-6) refl row] pre(7)
  show ?thesis by (simp add: sample_session_def)
qed

text \<open>
  C19. The meter follows the counter.  Over live frames of a new session, whatever resets and partial
  falls the plug's counter makes, the energy the session is billed for is the energy delivered, the
  first reading and every rise after it: never more than that but for rounding, and less by at most
  the reset threshold for each frame.
\<close>

theorem metering_accurate:
  assumes new: "cs_energy_counter_last_raw_kwh s = None" "cs_energy_reset_offset_kwh s = 0" "cs_energy_kwh s = 0"
    and frames: "frs \<noteq> []" "list_all (\<lambda>f. \<not> fr_offline (snd f) \<and> is_float (fr_kwh (snd f)) \<and> 0 \<le> fr_kwh (snd f)) frs"
    and thr: "0 \<le> ENERGY_COUNTER_RESET_DROP_KWH cfg" "ENERGY_COUNTER_RESET_DROP_KWH cfg \<le> 1"
    and bound: "delivered (readings frs) \<le> 1000000" "length frs \<le> 1000000"
  shows "cs_energy_kwh (meter_all cfg frs s) \<le> delivered (readings frs) + of_nat (length frs) / 2 ^ 29
    \<and> delivered (readings frs) - of_nat (length frs) * (ENERGY_COUNTER_RESET_DROP_KWH cfg + 1 / 2 ^ 29)
        \<le> cs_energy_kwh (meter_all cfg frs s)"
proof -
  obtain f rest where frs: "frs = f # rest" using frames(1) by (cases frs) auto
  let ?thr = "ENERGY_COUNTER_RESET_DROP_KWH cfg" and ?r = "fr_kwh (snd f)" and ?s = "meter_session cfg (fst f) (snd f) s"
  have f: "\<not> fr_offline (snd f)" "is_float ?r" "0 \<le> ?r" using frames(2) by (simp_all add: frs)
  define k where "k = (of_nat (length rest) :: rat)"
  have k: "0 \<le> k" "k \<le> 999999" using bound(2) by (simp_all add: k_def frs)
  have first: "cs_energy_counter_last_raw_kwh ?s = Some ?r" "cs_energy_reset_offset_kwh ?s = 0" "cs_energy_kwh ?s = ?r"
    using new f by (simp_all add: meter_session_def Let_def track_counter_def counter_dropped_def fadd_def is_float_def)
  have total: "delivered (readings frs) = ?r + rises ?r (readings rest)" by (simp add: frs readings_def delivered_def)
  have "?r + rises ?r (readings rest) + k * (2 / 2147483648) \<le> 1048576" using bound(1) k(2) total by linarith
  then have "cs_energy_kwh (meter_all cfg rest ?s) \<le> max ?r (?r + rises ?r (readings rest) + k * (3 / 2147483648))
      \<and> ?r + rises ?r (readings rest) - k * (?thr + 2 / 2147483648) - 1 / 2147483648 \<le> cs_energy_kwh (meter_all cfg rest ?s)"
    using meter_all_bounds [OF first(1,2) order_refl f(2,3) _ thr, of rest] frames(2) f(2) first(3)
    by (simp add: frs k_def is_float_def)
  moreover have "meter_all cfg frs s = meter_all cfg rest ?s" "of_nat (length frs) = 1 + k" by (simp_all add: frs meter_all_def k_def)
  moreover have "(1 + k) * (?thr + 1 / 2 ^ 29) = ?thr + 1 / 536870912 + k * ?thr + k * (1 / 536870912)"
    "k * (?thr + 2 / 2147483648) = k * ?thr + k * (2 / 2147483648)" "(1 + k) / 2 ^ 29 = 1 / 536870912 + k * (1 / 536870912)"
    by (simp_all add: algebra_simps add_divide_distrib)
  ultimately show ?thesis
    using total thr(1) k(1) rises_nonneg [of ?r "readings rest"] by (simp only:) linarith
qed

theorem metering_accurate_witness:
  "cs_energy_kwh (meter_all default_config [(0, live_frame 4), (1, live_frame 1), (2, live_frame 3)]
     (sample_session\<lparr>cs_energy_kwh := 0\<rparr>)) \<le> 6 + 3 / 2 ^ 29"
proof -
  let ?frs = "[(0, live_frame 4), (1, live_frame 1), (2, live_frame 3)]" and ?s = "sample_session\<lparr>cs_energy_kwh := 0\<rparr>"
  have pre: "cs_energy_counter_last_raw_kwh ?s = None" "cs_energy_reset_offset_kwh ?s = 0" "cs_energy_kwh ?s = 0" "?frs \<noteq> []"
    "list_all (\<lambda>f. \<not> fr_offline (snd f) \<and> is_float (fr_kwh (snd f)) \<and> 0 \<le> fr_kwh (snd f)) ?frs"
    "0 \<le> ENERGY_COUNTER_RESET_DROP_KWH default_config" "ENERGY_COUNTER_RESET_DROP_KWH default_config \<le> 1"
    "delivered (readings ?frs) = 6"
    using is_float_of_int [of 4] is_float_of_int [of 1] is_float_of_int [of 3] bin64.rnd_mono [of "5 / 1000" 1] fl_of_int [of 1]
    by (simp_all add: sample_session_def live_frame_def default_config_def bin64.rnd_nonneg delivered_def readings_def)
  from metering_accurate [OF pre(1-7)] pre(8) show ?thesis by simp
qed

end
