(* ===== verification/Payments.thy ===== *)
theory Payments
  imports Lifecycle Access Rate_Limit
begin

text \<open>
  Wallet top-ups through the payment provider (\<open>backend/services/payments.py\<close>,
  \<open>backend/routers/payments.py\<close>). The provider's client is a parameter: a signature check, the
  fetch of a payment and the creation of an order; so are the keyed digest of the webhook and the
  JSON reader. Its payloads have the types the provider documents: amounts are whole paise, the
  note with the user is a number or a text.

  The guard against a second credit is the unique column \<open>razorpay_payment_id\<close> of the ledger; the
  look-up before it only saves work. Between the look-up and the insert other requests may run, so
  the insert is an operation of its own.
\<close>

subsection \<open>Reading numbers\<close>

text \<open>Python's \<open>int(text)\<close>: space around, a sign, digits with single underscores between them.\<close>

fun scan_digits :: "string \<Rightarrow> string option" where
  "scan_digits [] = None"
| "scan_digits [c] = (if is_digit c then Some [c] else None)"
| "scan_digits (c # d # s) =
     (if \<not> is_digit c then None
      else if d = CHR ''_'' then map_option ((#) c) (scan_digits s)
      else map_option ((#) c) (scan_digits (d # s)))"

definition parse_int :: "string \<Rightarrow> int option" where
  "parse_int text =
     (case strip text of
        [] \<Rightarrow> None
      | c # s \<Rightarrow> if c = CHR ''-'' then map_option (\<lambda>ds. - int (read_nat ds)) (scan_digits s)
                 else if c = CHR ''+'' then map_option (\<lambda>ds. int (read_nat ds)) (scan_digits s)
                 else map_option (\<lambda>ds. int (read_nat ds)) (scan_digits (c # s)))"

subsection \<open>The provider\<close>

datatype user_note = No_User | Int_User int | Text_User string

record payment_entity =
  pe_id :: string
  pe_order_id :: "string option"
  pe_status :: string
  pe_amount :: int
  pe_user_note :: user_note

record refund_entity =
  re_id :: string
  re_payment_id :: string
  re_amount :: int

record webhook_event =
  we_event :: string
  we_payment :: "payment_entity option"
  we_refund :: "refund_entity option"

record order_data =
  od_amount :: int
  od_receipt :: string
  od_user_note :: user_note
  od_coins_note :: pyfloat

record order =
  or_id :: string
  or_amount :: int

record provider =
  pv_signature_ok :: "string \<Rightarrow> string \<Rightarrow> string \<Rightarrow> bool"
  pv_fetch :: "string \<Rightarrow> payment_entity option"
  pv_create :: "order_data \<Rightarrow> order option"

subsection \<open>The payment service\<close>

definition get_razorpay_client :: "config \<Rightarrow> provider \<Rightarrow> provider option" where
  "get_razorpay_client cfg pv = (if RAZORPAY_KEY_ID cfg = [] \<or> RAZORPAY_KEY_SECRET cfg = [] then None else Some pv)"

definition calculate_coins :: "config \<Rightarrow> pyfloat \<Rightarrow> pyfloat" where
  "calculate_coins cfg amount_inr = py_round 2 (fmul amount_inr (COINS_PER_RUPEE cfg))"

definition create_order :: "config \<Rightarrow> provider \<Rightarrow> pyfloat \<Rightarrow> int \<Rightarrow> order option" where
  "create_order cfg pv amount_inr user_id =
     (case get_razorpay_client cfg pv of
        None \<Rightarrow> None
      | Some client \<Rightarrow>
          pv_create client \<lparr>od_amount = round_half_even (fmul amount_inr 100),
            od_receipt = ''amphive_user'' @ show_int user_id @ ''_'' @ show_int (trunc_int amount_inr),
            od_user_note = Text_User (show_int user_id), od_coins_note = calculate_coins cfg amount_inr\<rparr>)"

definition verify_payment_signature :: "config \<Rightarrow> provider \<Rightarrow> string \<Rightarrow> string \<Rightarrow> string \<Rightarrow> bool" where
  "verify_payment_signature cfg pv order_id payment_id signature =
     (case get_razorpay_client cfg pv of
        None \<Rightarrow> False | Some client \<Rightarrow> pv_signature_ok client order_id payment_id signature)"

definition amount_inr_of :: "int \<Rightarrow> pyfloat" where
  "amount_inr_of paise = fdiv (fl (of_int paise)) 100"

record captured_payment =
  cp_status :: string
  cp_amount_inr :: pyfloat
  cp_user_note :: user_note

definition fetch_captured_payment :: "config \<Rightarrow> provider \<Rightarrow> string \<Rightarrow> string \<Rightarrow> captured_payment option" where
  "fetch_captured_payment cfg pv payment_id expected_order_id =
     (case get_razorpay_client cfg pv of
        None \<Rightarrow> None
      | Some client \<Rightarrow>
          (case pv_fetch client payment_id of
             None \<Rightarrow> None
           | Some payment \<Rightarrow>
               if pe_order_id payment \<noteq> Some expected_order_id then None
               else Some \<lparr>cp_status = pe_status payment, cp_amount_inr = amount_inr_of (pe_amount payment),
                          cp_user_note = pe_user_note payment\<rparr>))"

definition verify_webhook_signature :: "config \<Rightarrow> (string \<Rightarrow> string \<Rightarrow> string) \<Rightarrow> string \<Rightarrow> string \<Rightarrow> bool" where
  "verify_webhook_signature cfg hmac_sha256 body signature =
     (if RAZORPAY_WEBHOOK_SECRET cfg = [] then False
      else hmac_sha256 (RAZORPAY_WEBHOOK_SECRET cfg) body = signature)"

definition user_of_note :: "user_note \<Rightarrow> int option" where
  "user_of_note note = (case note of No_User \<Rightarrow> None | Int_User i \<Rightarrow> Some i | Text_User s \<Rightarrow> parse_int s)"

record webhook_payment =
  wp_payment_id :: string
  wp_user_id :: int
  wp_amount_inr :: pyfloat
  wp_coins :: pyfloat

definition extract_payment_from_webhook :: "config \<Rightarrow> webhook_event \<Rightarrow> webhook_payment option" where
  "extract_payment_from_webhook cfg event =
     (if we_event event \<noteq> ''payment.captured'' then None
      else case we_payment event of
             None \<Rightarrow> None
           | Some entity \<Rightarrow>
               if pe_id entity = [] then None
               else (case user_of_note (pe_user_note entity) of
                       None \<Rightarrow> None
                     | Some user_id \<Rightarrow>
                         let amount_inr = amount_inr_of (pe_amount entity)
                         in Some \<lparr>wp_payment_id = pe_id entity, wp_user_id = user_id, wp_amount_inr = amount_inr,
                                  wp_coins = calculate_coins cfg amount_inr\<rparr>))"

definition REFUND_EVENT_NAMES :: "string list" where
  "REFUND_EVENT_NAMES = [''refund.processed'', ''refund.created'', ''payment.refunded'']"

record webhook_refund =
  wr_refund_id :: string
  wr_payment_id :: string
  wr_amount_inr :: pyfloat
  wr_coins :: pyfloat

definition extract_refund_from_webhook :: "config \<Rightarrow> webhook_event \<Rightarrow> webhook_refund option" where
  "extract_refund_from_webhook cfg event =
     (if we_event event \<notin> set REFUND_EVENT_NAMES then None
      else case we_refund event of
             None \<Rightarrow> None
           | Some entity \<Rightarrow>
               if re_id entity = [] \<or> re_payment_id entity = [] then None
               else let amount_inr = amount_inr_of (re_amount entity)
                    in Some \<lparr>wr_refund_id = re_id entity, wr_payment_id = re_payment_id entity,
                             wr_amount_inr = amount_inr, wr_coins = calculate_coins cfg amount_inr\<rparr>)"

subsection \<open>The payment routes\<close>

definition already_credited :: "db \<Rightarrow> string \<Rightarrow> bool" where
  "already_credited d razorpay_id = exists_row (\<lambda>t. lt_razorpay_payment_id t = Some razorpay_id) (ledger d)"

text \<open>
  \<open>_credit_topup\<close> and \<open>_debit_refund\<close>: wallet and ledger in one transaction, rolled back when the
  unique column already holds the id.
\<close>

definition credit_topup :: "timestamp \<Rightarrow> world \<Rightarrow> int \<Rightarrow> pyfloat \<Rightarrow> string \<Rightarrow> world \<times> money option response" where
  "credit_topup now w user_id coins payment_id =
     (let credit = to_money_f coins
      in case credit_wallet (w_db w) user_id credit of
           Inl err \<Rightarrow> (w, Inl err)
         | Inr credited \<Rightarrow>
             (case snd credited of
                None \<Rightarrow> (w, Inr None)
              | Some new_balance \<Rightarrow>
                  if already_credited (fst credited) payment_id then (w, Inr None)
                  else (emit [Notify user_id ''topup_credited'' ''info'' None None]
                          (w\<lparr>w_db := add_ledger \<lparr>lt_id = 0, lt_user_id = user_id, lt_session_id = None, lt_amount = credit,
                                lt_transaction_type = TOPUP, lt_razorpay_payment_id = Some payment_id,
                                lt_balance_after = new_balance, lt_created_at = now\<rparr> (fst credited)\<rparr>),
                        Inr (Some new_balance))))"

definition topup_user_for_payment :: "db \<Rightarrow> string \<Rightarrow> int option" where
  "topup_user_for_payment d payment_id =
     map_option lt_user_id (find (\<lambda>t. lt_razorpay_payment_id t = Some payment_id) (ledger d))"

definition debit_refund :: "timestamp \<Rightarrow> world \<Rightarrow> int \<Rightarrow> pyfloat \<Rightarrow> string \<Rightarrow> world \<times> money option response" where
  "debit_refund now w user_id coins refund_id =
     (let debit = to_money_f coins
      in case debit_wallet_clamped (w_db w) user_id debit of
           Inl err \<Rightarrow> (w, Inl err)
         | Inr debited \<Rightarrow>
             let d1 = fst debited; actual_debit = fst (snd debited); new_balance = snd (snd debited)
             in if already_credited d1 refund_id then (w, Inr None)
                else (emit [Notify user_id ''topup_refunded'' ''info'' None None]
                        (w\<lparr>w_db := add_ledger \<lparr>lt_id = 0, lt_user_id = user_id, lt_session_id = None, lt_amount = - actual_debit,
                              lt_transaction_type = REFUND, lt_razorpay_payment_id = Some refund_id,
                              lt_balance_after = new_balance, lt_created_at = now\<rparr> d1\<rparr>),
                      Inr (Some new_balance)))"

definition get_wallet_ledger :: "db \<Rightarrow> int \<Rightarrow> int \<Rightarrow> ledger_transaction list \<times> pyfloat" where
  "get_wallet_ledger d user_id limit =
     (page (max 1 (min limit 500)) 0
        (sort_key (\<lambda>t. (- lt_created_at t, - lt_id t)) (filter (\<lambda>t. lt_user_id t = user_id) (ledger d))),
      fl (money_dec (available_balance d user_id)))"

definition create_payment_order ::
  "config \<Rightarrow> provider \<Rightarrow> limiter \<Rightarrow> pyfloat \<Rightarrow> user \<Rightarrow> pyfloat \<Rightarrow> limiter \<times> order response" where
  "create_payment_order cfg pv l now user amount_inr =
     (let gated = account_rate_limit_dependency l now (us_id user)
      in (fst gated,
          case snd gated of
            Inl err \<Rightarrow> Inl err
          | Inr _ \<Rightarrow>
              if amount_inr < 10 then Inl (HTTPException 400 ''Minimum top-up amount is 10.'')
              else if 10000 < amount_inr then Inl (HTTPException 400 ''Maximum top-up amount is 10,000.'')
              else (case create_order cfg pv amount_inr (us_id user) of
                      None \<Rightarrow> Inl (HTTPException 503 ''Payment service is not configured.'')
                    | Some placed \<Rightarrow> Inr placed)))"

definition note_text :: "user_note \<Rightarrow> string option" where
  "note_text note = (case note of No_User \<Rightarrow> None | Int_User i \<Rightarrow> Some (show_int i) | Text_User s \<Rightarrow> Some s)"

definition fresh_balance :: "db \<Rightarrow> int \<Rightarrow> (pyfloat \<times> money) response" where
  "fresh_balance d user_id = (case balance_of d user_id of None \<Rightarrow> Inl NoResultFound | Some b \<Rightarrow> Inr (0, b))"

definition verify_payment ::
  "config \<Rightarrow> provider \<Rightarrow> timestamp \<Rightarrow> world \<Rightarrow> user \<Rightarrow> string \<Rightarrow> string \<Rightarrow> string \<Rightarrow> world \<times> (pyfloat \<times> money) response" where
  "verify_payment cfg pv now w user order_id payment_id signature =
     (if \<not> verify_payment_signature cfg pv order_id payment_id signature
      then (w, Inl (HTTPException 400 ''Payment verification failed. Invalid signature.''))
      else case fetch_captured_payment cfg pv payment_id order_id of
             None \<Rightarrow> (w, Inl (HTTPException 502 ''Could not confirm the payment with Razorpay.''))
           | Some payment \<Rightarrow>
               if cp_status payment \<noteq> ''captured'' then (w, Inl (HTTPException 409 ''Payment not captured yet.''))
               else if note_text (cp_user_note payment) = None
               then (w, Inl (HTTPException 400 ''This order is missing its user attribution; cannot credit.''))
               else if note_text (cp_user_note payment) \<noteq> Some (show_int (us_id user))
               then (w, Inl (HTTPException 403 ''This payment belongs to a different account.''))
               else if already_credited (w_db w) payment_id then (w, fresh_balance (w_db w) (us_id user))
               else let coins = calculate_coins cfg (cp_amount_inr payment);
                        r = credit_topup now w (us_id user) coins payment_id
                    in (fst r,
                        case snd r of
                          Inl err \<Rightarrow> Inl err
                        | Inr None \<Rightarrow> fresh_balance (w_db w) (us_id user)
                        | Inr (Some credited) \<Rightarrow> Inr (coins, credited)))"

datatype ack =
    Ignored string
  | Already_Credited string
  | User_Not_Found string
  | Credited string pyfloat money
  | Already_Refunded string
  | Payment_Not_Found string
  | Refunded string pyfloat money

definition handle_refund_webhook :: "timestamp \<Rightarrow> world \<Rightarrow> webhook_refund \<Rightarrow> world \<times> ack response" where
  "handle_refund_webhook now w refund =
     (let refund_id = wr_refund_id refund
      in if already_credited (w_db w) refund_id then (w, Inr (Already_Refunded refund_id))
         else case topup_user_for_payment (w_db w) (wr_payment_id refund) of
                None \<Rightarrow> (w, Inr (Payment_Not_Found refund_id))
              | Some user_id \<Rightarrow>
                  let r = debit_refund now w user_id (wr_coins refund) refund_id
                  in (fst r,
                      case snd r of
                        Inl err \<Rightarrow> Inl err
                      | Inr None \<Rightarrow> Inr (if already_credited (w_db (fst r)) refund_id then Already_Refunded refund_id
                                         else User_Not_Found refund_id)
                      | Inr (Some new_balance) \<Rightarrow> Inr (Refunded refund_id (wr_coins refund) new_balance)))"

definition razorpay_webhook ::
  "config \<Rightarrow> (string \<Rightarrow> string \<Rightarrow> string) \<Rightarrow> (string \<Rightarrow> webhook_event option) \<Rightarrow> timestamp \<Rightarrow> world \<Rightarrow> string \<Rightarrow> string
     \<Rightarrow> world \<times> ack response" where
  "razorpay_webhook cfg hmac_sha256 json_loads now w body signature =
     (if \<not> verify_webhook_signature cfg hmac_sha256 body signature
      then (w, Inl (HTTPException 400 ''Invalid webhook signature.''))
      else case json_loads body of
             None \<Rightarrow> (w, Inl (HTTPException 400 ''Invalid JSON payload.''))
           | Some event \<Rightarrow>
               (case extract_refund_from_webhook cfg event of
                  Some refund \<Rightarrow> handle_refund_webhook now w refund
                | None \<Rightarrow>
                    (case extract_payment_from_webhook cfg event of
                       None \<Rightarrow> (w, Inr (Ignored (we_event event)))
                     | Some payment \<Rightarrow>
                         let payment_id = wp_payment_id payment
                         in if already_credited (w_db w) payment_id then (w, Inr (Already_Credited payment_id))
                            else let r = credit_topup now w (wp_user_id payment) (wp_coins payment) payment_id
                                 in (fst r,
                                     case snd r of
                                       Inl err \<Rightarrow> Inl err
                                     | Inr None \<Rightarrow> Inr (if already_credited (w_db (fst r)) payment_id
                                                        then Already_Credited payment_id else User_Not_Found payment_id)
                                     | Inr (Some new_balance) \<Rightarrow> Inr (Credited payment_id (wp_coins payment) new_balance)))))"


text \<open>The ids of the provider in the ledger, and the steps that can touch them: the two handlers, the
  transactions of a handler whose look-up ran earlier, and the settlement of a session.\<close>

definition razorpay_ids :: "db \<Rightarrow> string list" where
  "razorpay_ids d = List.map_filter lt_razorpay_payment_id (ledger d)"

inductive payment_step ::
  "config \<Rightarrow> provider \<Rightarrow> (string \<Rightarrow> string \<Rightarrow> string) \<Rightarrow> (string \<Rightarrow> webhook_event option) \<Rightarrow> world \<Rightarrow> world \<Rightarrow> bool"
  for cfg :: config and pv :: provider and hmac :: "string \<Rightarrow> string \<Rightarrow> string" and json :: "string \<Rightarrow> webhook_event option" where
  verify: "payment_step cfg pv hmac json w (fst (verify_payment cfg pv now w user order_id payment_id signature))"
| webhook: "payment_step cfg pv hmac json w (fst (razorpay_webhook cfg hmac json now w body signature))"
| late_credit: "payment_step cfg pv hmac json w (fst (credit_topup now w user_id coins payment_id))"
| late_debit: "payment_step cfg pv hmac json w (fst (debit_refund now w user_id coins refund_id))"
| settle: "payment_step cfg pv hmac json w (fst (finalize_charging_session cfg now w session_id expected reason))"

definition paid_ok :: "db \<Rightarrow> db \<Rightarrow> bool" where
  "paid_ok d0 d \<longleftrightarrow> distinct (razorpay_ids d) \<and> balances_ok d \<and> drift d = drift d0
     \<and> (\<exists>new. ledger d = ledger d0 @ new)"

text \<open>A provider and a webhook for the examples: payment \<open>pay\<close> of 250.00 rupees by user 1.\<close>

definition sample_payment :: payment_entity where
  "sample_payment = \<lparr>pe_id = ''pay'', pe_order_id = Some ''order'', pe_status = ''captured'', pe_amount = 25000,
     pe_user_note = Text_User ''1''\<rparr>"

definition sample_provider :: provider where
  "sample_provider = \<lparr>pv_signature_ok = \<lambda>ord pay sig. sig = ''sig'', pv_fetch = \<lambda>pay. if pay = ''pay'' then Some sample_payment else None,
     pv_create = \<lambda>od. Some \<lparr>or_id = ''order'', or_amount = od_amount od\<rparr>\<rparr>"

definition sample_event :: webhook_event where
  "sample_event = \<lparr>we_event = ''payment.captured'', we_payment = Some sample_payment, we_refund = None\<rparr>"

definition payment_config :: config where
  "payment_config = default_config\<lparr>RAZORPAY_KEY_ID := ''key'', RAZORPAY_KEY_SECRET := ''secret'',
     RAZORPAY_WEBHOOK_SECRET := ''hook''\<rparr>"

subsection \<open>Reading back printed numbers\<close>

lemma scan_digits_id: "s \<noteq> [] \<Longrightarrow> list_all is_digit s \<Longrightarrow> scan_digits s = Some s"
proof (induction s rule: scan_digits.induct)
  case (3 c d s)
  have "\<not> is_digit (CHR ''_'')" by (simp add: is_digit_def code_of_def)
  with 3 have "d \<noteq> CHR ''_''" by auto
  with 3 show ?case by simp
qed simp_all

lemma show_nat_all_digits [simp]: "list_all is_digit (show_nat n)"
  by (simp add: list_all_iff show_nat_digits)

lemma strip_digits: "s \<noteq> [] \<Longrightarrow> list_all is_digit s \<Longrightarrow> strip s = s"
  by (rule strip_id) (simp_all add: digit_not_space list_all_iff)

lemma parse_show_int: "parse_int (show_int i) = Some i"
proof (cases "i < 0")
  case True
  have "\<not> is_space (CHR ''-'')" by (simp add: is_space_def code_of_def)
  moreover have "\<not> is_space (last (show_nat (nat (- i))))"
    using show_nat_digits [of "last (show_nat (nat (- i)))" "nat (- i)"] by (intro digit_not_space) simp
  ultimately have "strip (CHR ''-'' # show_nat (nat (- i))) = CHR ''-'' # show_nat (nat (- i))"
    by (intro strip_id) simp_all
  with True show ?thesis by (simp add: parse_int_def show_int_def scan_digits_id)
next
  case False
  obtain c s where cs: "show_nat (nat i) = c # s" by (cases "show_nat (nat i)") auto
  have "is_digit c" using show_nat_digits [of c "nat i"] cs by simp
  moreover have "\<not> is_digit (CHR ''-'')" "\<not> is_digit (CHR ''+'')" by (simp_all add: is_digit_def code_of_def)
  ultimately have "c \<noteq> CHR ''-''" "c \<noteq> CHR ''+''" by auto
  moreover have "strip (c # s) = c # s" "scan_digits (c # s) = Some (c # s)" "read_nat (c # s) = nat i"
    using strip_digits [of "show_nat (nat i)"] scan_digits_id [of "show_nat (nat i)"] read_show_nat [of "nat i"]
    unfolding cs [symmetric] by simp_all
  ultimately show ?thesis using False cs by (simp add: parse_int_def show_int_def)
qed

subsection \<open>The unique column\<close>

lemma razorpay_ids_simps [simp]:
  "razorpay_ids (upd_user i f d) = razorpay_ids d" "razorpay_ids (upd_plug i g d) = razorpay_ids d"
  "razorpay_ids (upd_session i h d) = razorpay_ids d"
  "razorpay_ids (add_ledger t d) = razorpay_ids d @ (case lt_razorpay_payment_id t of None \<Rightarrow> [] | Some i \<Rightarrow> [i])"
  by (simp_all add: razorpay_ids_def List.map_filter_def split: option.split)

lemma balance_of_add_ledger [simp]: "balance_of (add_ledger t d) = balance_of d"
  by (rule balance_of_cong) simp

lemma already_credited_iff: "already_credited d i \<longleftrightarrow> i \<in> set (razorpay_ids d)"
  by (force simp: already_credited_def exists_row_iff razorpay_ids_def List.map_filter_def)

lemma already_credited_upd_user [simp]: "already_credited (upd_user i f d) r = already_credited d r"
  by (simp add: already_credited_iff)

lemma credit_topup_cases:
  assumes "credit_topup now w u coins i = (w', res)"
  obtains (refused) "w' = w" "(\<exists>err. res = Inl err) \<or> res = Inr None"
  | (credited) b where "balance_of (w_db w) u = Some (b - to_money_f coins)" "0 \<le> b" "b \<le> MAX_MONEY"
      "i \<notin> set (razorpay_ids (w_db w))" "res = Inr (Some b)"
      "w_db w' = add_ledger \<lparr>lt_id = 0, lt_user_id = u, lt_session_id = None, lt_amount = to_money_f coins,
         lt_transaction_type = TOPUP, lt_razorpay_payment_id = Some i, lt_balance_after = b, lt_created_at = now\<rparr>
         (upd_user u (\<lambda>r. r\<lparr>us_coin_balance := b\<rparr>) (w_db w))"
proof (cases "credit_wallet (w_db w) u (to_money_f coins)")
  case (Inl err)
  with assms show ?thesis by (intro refused) (auto simp: credit_topup_def)
next
  case (Inr r)
  obtain d' b where r: "r = (d', b)" by (cases r)
  show ?thesis
  proof (cases b)
    case None
    with assms Inr r show ?thesis by (intro refused) (auto simp: credit_topup_def)
  next
    case (Some n)
    with Inr r have c: "credit_wallet (w_db w) u (to_money_f coins) = Inr (d', Some n)" by simp
    note facts = credit_wallet_SomeD [OF c]
    show ?thesis
    proof (cases "i \<in> set (razorpay_ids (w_db w))")
      case True
      with assms c facts(4) show ?thesis by (intro refused) (auto simp: credit_topup_def already_credited_iff)
    next
      case False
      with assms c facts show ?thesis by (intro credited) (auto simp: credit_topup_def already_credited_iff)
    qed
  qed
qed

lemma debit_refund_cases:
  assumes "debit_refund now w u coins i = (w', res)"
  obtains (refused) "w' = w" "(\<exists>err. res = Inl err) \<or> res = Inr None"
  | (debited) p x where "balance_of (w_db w) u = Some p" "x = min (to_money_f coins) (max 0 p)" "0 \<le> max 0 p - x"
      "max 0 p - x \<le> MAX_MONEY" "i \<notin> set (razorpay_ids (w_db w))" "res = Inr (Some (max 0 p - x))"
      "w_db w' = add_ledger \<lparr>lt_id = 0, lt_user_id = u, lt_session_id = None, lt_amount = - x,
         lt_transaction_type = REFUND, lt_razorpay_payment_id = Some i, lt_balance_after = max 0 p - x, lt_created_at = now\<rparr>
         (upd_user u (\<lambda>r. r\<lparr>us_coin_balance := max 0 p - x\<rparr>) (w_db w))"
proof (cases "debit_wallet_clamped (w_db w) u (to_money_f coins)")
  case (Inl err)
  with assms show ?thesis by (intro refused) (auto simp: debit_refund_def)
next
  case (Inr debited)
  then obtain d' x b where "debit_wallet_clamped (w_db w) u (to_money_f coins) = Inr (d', x, b)" by (cases debited) auto
  then obtain p where c: "debit_wallet_clamped (w_db w) u (to_money_f coins) = Inr (d', x, b)"
    and p: "balance_of (w_db w) u = Some p" "x = min (to_money_f coins) (max 0 p)" "b = max 0 p - x" "0 \<le> b" "b \<le> MAX_MONEY"
      "d' = upd_user u (\<lambda>r. r\<lparr>us_coin_balance := b\<rparr>) (w_db w)"
    using debit_walletD [of "w_db w" u "to_money_f coins" d' x b] by blast
  show ?thesis
  proof (cases "i \<in> set (razorpay_ids (w_db w))")
    case True
    with assms c p(6) show ?thesis by (intro refused) (auto simp: debit_refund_def already_credited_iff)
  next
    case False
    with assms c p show ?thesis
      by (intro debited [OF p(1,2)]) (auto simp: debit_refund_def Let_def already_credited_iff)
  qed
qed

lemma booking_paid_ok:
  assumes ok: "paid_ok d0 d" and b: "balance_of d u = Some p" "b = p + lt_amount t" "0 \<le> b" "b \<le> MAX_MONEY"
    and t: "lt_user_id t = u" "case lt_razorpay_payment_id t of None \<Rightarrow> True | Some i \<Rightarrow> i \<notin> set (razorpay_ids d)"
  shows "paid_ok d0 (add_ledger t (upd_user u (\<lambda>r. r\<lparr>us_coin_balance := b\<rparr>) d))"
proof -
  let ?d = "add_ledger t (upd_user u (\<lambda>r. r\<lparr>us_coin_balance := b\<rparr>) d)"
  have "balance_of ?d v = balance_of (upd_user u (\<lambda>r. r\<lparr>us_coin_balance := b\<rparr>) d) v" for v by (simp add: balance_of_def)
  then have "drift ?d v = drift d v" for v
    using b t(1) by (simp add: drift_def ledger_total_def balance_of_store)
  then have "drift ?d = drift d" by (rule ext)
  moreover have "balances_ok ?d"
    using balances_ok_store [of d b u] ok b(3,4) by (simp add: paid_ok_def balances_ok_def)
  ultimately show ?thesis using ok t(2) by (auto simp: paid_ok_def split: option.splits)
qed

lemma paid_ok_cong:
  "paid_ok d0 d \<Longrightarrow> users d' = users d \<Longrightarrow> ledger d' = ledger d \<Longrightarrow> paid_ok d0 d'"
  using drift_cong [of d' d] balances_ok_cong [of d' d] by (simp add: paid_ok_def razorpay_ids_def)

lemma credit_topup_paid_ok:
  assumes "paid_ok d0 (w_db w)"
  shows "paid_ok d0 (w_db (fst (credit_topup now w u coins i)))"
proof (cases rule: credit_topup_cases [OF surjective_pairing [of "credit_topup now w u coins i"], case_names refused credited])
  case (credited b)
  with assms show ?thesis by (auto intro!: booking_paid_ok)
qed (use assms in simp)

lemma debit_refund_paid_ok:
  assumes "paid_ok d0 (w_db w)"
  shows "paid_ok d0 (w_db (fst (debit_refund now w u coins i)))"
proof (cases rule: debit_refund_cases [OF surjective_pairing [of "debit_refund now w u coins i"], case_names refused debited])
  case (debited p x)
  moreover have "0 \<le> p" using balances_ok_balance [OF _ debited(1)] assms by (simp add: paid_ok_def)
  ultimately show ?thesis using assms by (auto intro!: booking_paid_ok)
qed (use assms in simp)

lemma verify_payment_world:
  "fst (verify_payment cfg pv now w user ord p sig) \<in>
     {w} \<union> (if already_credited (w_db w) p then {} else range (\<lambda>coins. fst (credit_topup now w (us_id user) coins p)))"
  by (auto simp: verify_payment_def Let_def split: option.splits)

lemma refund_webhook_world:
  "fst (handle_refund_webhook now w refund) \<in>
     {w} \<union> (\<lambda>u. fst (debit_refund now w u (wr_coins refund) (wr_refund_id refund))) ` UNIV"
  by (auto simp: handle_refund_webhook_def Let_def split: option.splits)

lemma razorpay_webhook_paid_ok:
  assumes "paid_ok d0 (w_db w)"
  shows "paid_ok d0 (w_db (fst (razorpay_webhook cfg hmac json now w body sig)))"
proof -
  have "paid_ok d0 (w_db (fst (handle_refund_webhook now w refund)))" for refund
    using refund_webhook_world [of now w refund] debit_refund_paid_ok [OF assms] assms by auto
  with assms credit_topup_paid_ok [OF assms] show ?thesis
    by (auto simp: razorpay_webhook_def Let_def split: option.splits)
qed

lemma settle_session_paid_ok:
  assumes ok: "paid_ok d0 d" and settled: "settle_session cfg now d s = Inr (d', q, b)"
  shows "paid_ok d0 d'"
proof -
  let ?t = "\<lparr>lt_id = 0, lt_user_id = cs_user_id s, lt_session_id = Some (cs_id s), lt_amount = - q,
    lt_transaction_type = SESSION_DEBIT, lt_razorpay_payment_id = None, lt_balance_after = b, lt_created_at = now\<rparr>"
  from settled obtain d1 where debit: "debit_wallet_clamped d (cs_user_id s) (requested_debit cfg s) = Inr (d1, q, b)"
    and d': "users d' = users d1" "ledger d' = ledger (add_ledger ?t d1)"
    by (auto simp: settle_session_def Let_def split: sum.splits)
  from debit obtain p where p: "balance_of d (cs_user_id s) = Some p" "b = max 0 p - q" "0 \<le> b" "b \<le> MAX_MONEY"
    "d1 = upd_user (cs_user_id s) (\<lambda>r. r\<lparr>us_coin_balance := b\<rparr>) d" by (rule debit_walletD)
  have "0 \<le> p" using balances_ok_balance [OF _ p(1)] ok by (simp add: paid_ok_def)
  with ok p have "paid_ok d0 (add_ledger ?t d1)" by (auto intro!: booking_paid_ok)
  then show ?thesis by (rule paid_ok_cong) (simp_all add: d')
qed

lemma settle_paid_ok:
  assumes "paid_ok d0 (w_db w)"
  shows "paid_ok d0 (w_db (fst (finalize_charging_session cfg now w i u reason)))"
proof (cases rule: finalize_receipt_cases [OF surjective_pairing [of "finalize_charging_session cfg now w i u reason"],
      case_names no_session failed settled])
  case (settled s plug d' q b)
  from settle_session_paid_ok [OF assms settled(3)] show ?thesis by (rule paid_ok_cong) (simp_all add: settled(4))
qed (use assms in simp_all)

lemma paid_ok_init: "distinct (razorpay_ids d) \<Longrightarrow> balances_ok d \<Longrightarrow> paid_ok d d"
  by (simp add: paid_ok_def)

lemma paid_ok_step: "payment_step cfg pv hmac json w w' \<Longrightarrow> paid_ok d0 (w_db w) \<Longrightarrow> paid_ok d0 (w_db w')"
proof (induction rule: payment_step.induct)
  case (verify w now user order_id payment_id signature)
  then show ?case
    using verify_payment_world [of cfg pv now w user order_id payment_id signature] credit_topup_paid_ok [of d0 w]
    by (auto split: if_splits)
qed (simp_all add: razorpay_webhook_paid_ok credit_topup_paid_ok debit_refund_paid_ok settle_paid_ok)

subsection \<open>A known id changes nothing\<close>

lemma known_id_refused:
  assumes "i \<in> set (razorpay_ids (w_db w))"
  shows "fst (credit_topup now w u coins i) = w" "fst (debit_refund now w u coins i) = w"
    "fst (verify_payment cfg pv now w user ord i sig) = w"
proof -
  show "fst (credit_topup now w u coins i) = w"
    using assms by (cases rule: credit_topup_cases [OF surjective_pairing [of "credit_topup now w u coins i"]]) simp_all
  show "fst (debit_refund now w u coins i) = w"
    using assms by (cases rule: debit_refund_cases [OF surjective_pairing [of "debit_refund now w u coins i"]]) simp_all
  show "fst (verify_payment cfg pv now w user ord i sig) = w"
    using verify_payment_world [of cfg pv now w user ord i sig] assms by (simp add: already_credited_iff)
qed

lemma redelivery_refused:
  assumes "json body = Some event"
    and "i \<in> set (razorpay_ids (w_db w))"
    and "we_event event = ''payment.captured'' \<and> map_option pe_id (we_payment event) = Some i
       \<or> we_event event \<in> set REFUND_EVENT_NAMES \<and> map_option re_id (we_refund event) = Some i"
  shows "fst (razorpay_webhook cfg hmac json now w body sig) = w"
proof (cases "we_event event = ''payment.captured''")
  case True
  then have "we_event event \<notin> set REFUND_EVENT_NAMES" by (simp add: REFUND_EVENT_NAMES_def)
  with True assms show ?thesis
    by (auto simp: razorpay_webhook_def extract_refund_from_webhook_def extract_payment_from_webhook_def
        already_credited_iff Let_def split: option.splits)
next
  case False
  with assms show ?thesis
    by (auto simp: razorpay_webhook_def extract_refund_from_webhook_def extract_payment_from_webhook_def
        handle_refund_webhook_def already_credited_iff Let_def split: option.splits)
qed

subsection \<open>Amounts\<close>

lemma amount_inr_of_paise: "\<bar>m\<bar> \<le> MAX_MONEY \<Longrightarrow> amount_inr_of m = fl (money_dec m)"
  using fl_of_int [of m] by (simp add: amount_inr_of_def fdiv_def money_dec_def MAX_MONEY_def)

lemma calculate_coins_paise:
  "0 \<le> m \<Longrightarrow> m \<le> MAX_MONEY \<Longrightarrow> COINS_PER_RUPEE cfg = 1 \<Longrightarrow> calculate_coins cfg (amount_inr_of m) = fl (money_dec m)"
  by (simp add: calculate_coins_def amount_inr_of_paise fmul_def bin64.rnd_idem py_round_money)

lemma order_amount:
  assumes "0 \<le> m" "m \<le> 1000000"
  shows "round_half_even (fmul (fl (money_dec m)) 100) = m"
proof -
  have m: "0 \<le> m" "m \<le> MAX_MONEY" using assms by (simp_all add: MAX_MONEY_def)
  let ?x = "fl (money_dec m) * 100"
  have x: "\<bar>?x - of_int m\<bar> \<le> 100 / 8192"
    using money_float_near(1) [OF m] by (simp add: money_dec_def abs_le_iff field_simps)
  have "of_int m \<le> (1000000 :: rat)" "0 \<le> (of_int m :: rat)" using assms by simp_all
  with x have "\<bar>?x\<bar> \<le> 1000001" by linarith
  then have "\<bar>?x\<bar> \<le> 2 ^ 40" by simp
  then have "\<bar>fl ?x - ?x\<bar> \<le> 1 / 8192" by (rule fl_abs_error)
  with x have "\<bar>fl ?x - of_int m\<bar> < 1 / 2" by linarith
  then show ?thesis by (simp add: fmul_def round_near(1))
qed

lemma webhook_credits:
  assumes "RAZORPAY_WEBHOOK_SECRET cfg \<noteq> []" "hmac (RAZORPAY_WEBHOOK_SECRET cfg) body = sig" "json body = Some event"
    and "we_event event = ''payment.captured''" "we_payment event = Some pay" "pe_id pay \<noteq> []"
    and "user_of_note (pe_user_note pay) = Some u" "pe_id pay \<notin> set (razorpay_ids (w_db w))"
    and "calculate_coins cfg (amount_inr_of (pe_amount pay)) = coins" "to_money_f coins = m"
    and "balance_of (w_db w) u = Some b" "0 \<le> b + m" "b + m \<le> MAX_MONEY"
  shows "razorpay_webhook cfg hmac json now w body sig =
    (emit [Notify u ''topup_credited'' ''info'' None None]
       (w\<lparr>w_db := add_ledger \<lparr>lt_id = 0, lt_user_id = u, lt_session_id = None, lt_amount = m, lt_transaction_type = TOPUP,
             lt_razorpay_payment_id = Some (pe_id pay), lt_balance_after = b + m, lt_created_at = now\<rparr>
           (upd_user u (\<lambda>r. r\<lparr>us_coin_balance := b + m\<rparr>) (w_db w))\<rparr>),
     Inr (Credited (pe_id pay) coins (b + m)))"
  using assms
  by (simp add: razorpay_webhook_def verify_webhook_signature_def extract_refund_from_webhook_def REFUND_EVENT_NAMES_def
      extract_payment_from_webhook_def already_credited_iff Let_def credit_topup_def credit_wallet_def store_balance_def)

lemma verify_after_credit:
  assumes "verify_payment_signature cfg pv ord i sig" "fetch_captured_payment cfg pv i ord = Some p"
    "cp_status p = ''captured''" "note_text (cp_user_note p) = Some (show_int (us_id user))"
    "i \<in> set (razorpay_ids (w_db w))" "balance_of (w_db w) (us_id user) = Some b"
  shows "verify_payment cfg pv now w user ord i sig = (w, Inr (0, b))"
  using assms by (simp add: verify_payment_def already_credited_iff fresh_balance_def)

subsection \<open>Properties\<close>

text \<open>
  C7. Every payment is credited at most once and every refund debited at most once, whatever the
  order of app confirmations, webhook deliveries and re-deliveries, requests whose look-up ran
  before another one's insert, and session settlements: the provider's ids in the ledger stay
  distinct, balances stay within their constraints and each balance moves exactly with the
  ledger, no row is rewritten or lost, and once an id is booked no handler changes anything for it.
\<close>

theorem payments_exactly_once:
  assumes run: "reachable (\<lambda>w. w = w0) (payment_step cfg pv hmac json) w"
    and init: "distinct (razorpay_ids (w_db w0))" "balances_ok (w_db w0)"
  shows "distinct (razorpay_ids (w_db w)) \<and> balances_ok (w_db w) \<and> drift (w_db w) = drift (w_db w0)
    \<and> (\<exists>new. ledger (w_db w) = ledger (w_db w0) @ new)
    \<and> (\<forall>i \<in> set (razorpay_ids (w_db w)). \<forall>now u coins user ord sig.
         fst (credit_topup now w u coins i) = w \<and> fst (debit_refund now w u coins i) = w
         \<and> fst (verify_payment cfg pv now w user ord i sig) = w
         \<and> (\<forall>body event. json body = Some event
              \<and> (we_event event = ''payment.captured'' \<and> map_option pe_id (we_payment event) = Some i
                 \<or> we_event event \<in> set REFUND_EVENT_NAMES \<and> map_option re_id (we_refund event) = Some i)
              \<longrightarrow> fst (razorpay_webhook cfg hmac json now w body sig) = w))"
proof -
  from run have "paid_ok (w_db w0) (w_db w)"
    by (induction rule: reachable.induct) (use init in \<open>auto intro: paid_ok_init paid_ok_step\<close>)
  then show ?thesis
    unfolding paid_ok_def
    by (elim conjE, intro conjI ballI allI impI)
      (assumption | rule known_id_refused, assumption | elim conjE, rule redelivery_refused, assumption+)+
qed

theorem payments_exactly_once_witness:
  "\<exists>w. w = fst (razorpay_webhook payment_config (\<lambda>k b. ''ok'') (\<lambda>b. Some sample_event) 5
                 (empty_world\<lparr>w_db := empty_db\<lparr>users := [sample_user]\<rparr>\<rparr>) ''body'' ''ok'')
     \<and> razorpay_ids (w_db w) = [''pay''] \<and> drift (w_db w) 1 = Some 10000
     \<and> fst (verify_payment payment_config sample_provider 9 w sample_user ''order'' ''pay'' ''sig'') = w
     \<and> fst (razorpay_webhook payment_config (\<lambda>k b. ''ok'') (\<lambda>b. Some sample_event) 9 w ''body'' ''ok'') = w"
proof -
  define w0 where "w0 = empty_world\<lparr>w_db := empty_db\<lparr>users := [sample_user]\<rparr>\<rparr>"
  define w where "w = fst (razorpay_webhook payment_config (\<lambda>k b. ''ok'') (\<lambda>b. Some sample_event) 5 w0 ''body'' ''ok'')"
  have sample: "RAZORPAY_WEBHOOK_SECRET payment_config \<noteq> []" "we_event sample_event = ''payment.captured''"
    "we_payment sample_event = Some sample_payment" "pe_id sample_payment = ''pay''" "pe_amount sample_payment = 25000"
    "user_of_note (pe_user_note sample_payment) = Some 1" "COINS_PER_RUPEE payment_config = 1"
    "balance_of (w_db w0) 1 = Some 10000" "razorpay_ids (w_db w0) = []" "(10000 :: int) + 25000 \<le> MAX_MONEY" "(25000 :: int) \<le> MAX_MONEY"
    unfolding w0_def by code_simp+
  have "razorpay_ids (w_db w) = [''pay'']"
    unfolding w_def using sample calculate_coins_paise [of 25000 payment_config] to_money_f_money [of 25000]
    by (subst webhook_credits [of payment_config _ _ _ _ sample_event sample_payment 1 _ "fl (money_dec 25000)" 25000 10000]) simp_all
  note ids = this
  have reach: "reachable (\<lambda>w. w = w0) (payment_step payment_config sample_provider (\<lambda>k b. ''ok'') (\<lambda>b. Some sample_event)) w"
    unfolding w_def by (rule reachable.extend, rule reachable.start, rule refl, rule payment_step.webhook)
  have init: "distinct (razorpay_ids (w_db w0))" "balances_ok (w_db w0)" unfolding w0_def by code_simp+
  have "drift (w_db w0) 1 = Some 10000" "we_event sample_event = ''payment.captured''"
    "map_option pe_id (we_payment sample_event) = Some ''pay''" unfolding w0_def by code_simp+
  with payments_exactly_once [OF reach init] ids show ?thesis
    by (intro exI [of _ w]) (auto simp: w_def [symmetric] simp flip: w0_def)
qed

text \<open>
  C18. A top-up comes through to the hundredth: for an amount of \<open>m\<close> hundredths the order asks the
  provider for \<open>m\<close> paise in the name of the driver; the verified capture of \<open>m\<close> paise with that
  note adds exactly \<open>m\<close> to that driver's balance, with one ledger row, and to nobody else's; and the
  app's own confirmation of the same payment afterwards reports the new balance and adds nothing.
\<close>

theorem topup_roundtrip:
  assumes cfg: "RAZORPAY_WEBHOOK_SECRET cfg \<noteq> []" "RAZORPAY_KEY_ID cfg \<noteq> []" "RAZORPAY_KEY_SECRET cfg \<noteq> []"
      "COINS_PER_RUPEE cfg = 1"
    and m: "0 \<le> m" "m \<le> 1000000" "b + m \<le> MAX_MONEY" "0 \<le> b"
    and w: "balance_of (w_db w) (us_id user) = Some b" "i \<noteq> []" "i \<notin> set (razorpay_ids (w_db w))"
    and sig: "hmac (RAZORPAY_WEBHOOK_SECRET cfg) body = sig" "json body = Some event" "we_event event = ''payment.captured''"
      "we_payment event = Some pay" "pe_id pay = i" "pe_amount pay = m" "pe_user_note pay = Text_User (show_int (us_id user))"
    and app: "pv_signature_ok pv ord i sig'" "pv_fetch pv i = Some pay" "pe_order_id pay = Some ord"
      "pe_status pay = ''captured''"
  shows "\<exists>w' od. create_order cfg pv (fl (money_dec m)) (us_id user) = pv_create pv od
    \<and> od_amount od = m \<and> od_user_note od = Text_User (show_int (us_id user))
    \<and> razorpay_webhook cfg hmac json now w body sig = (w', Inr (Credited i (fl (money_dec m)) (b + m)))
    \<and> balance_of (w_db w') (us_id user) = Some (b + m)
    \<and> (\<forall>v. v \<noteq> us_id user \<longrightarrow> balance_of (w_db w') v = balance_of (w_db w) v)
    \<and> map (\<lambda>t. (lt_user_id t, lt_amount t, lt_razorpay_payment_id t)) (ledger (w_db w')) =
        map (\<lambda>t. (lt_user_id t, lt_amount t, lt_razorpay_payment_id t)) (ledger (w_db w)) @ [(us_id user, m, Some i)]
    \<and> verify_payment cfg pv now' w' user ord i sig' = (w', Inr (0, b + m))"
proof -
  have M: "m \<le> MAX_MONEY" using m by (simp add: MAX_MONEY_def)
  let ?w = "fst (razorpay_webhook cfg hmac json now w body sig)"
  have hook: "razorpay_webhook cfg hmac json now w body sig = (?w, Inr (Credited i (fl (money_dec m)) (b + m)))"
    "w_db ?w = add_ledger \<lparr>lt_id = 0, lt_user_id = us_id user, lt_session_id = None, lt_amount = m,
       lt_transaction_type = TOPUP, lt_razorpay_payment_id = Some i, lt_balance_after = b + m, lt_created_at = now\<rparr>
       (upd_user (us_id user) (\<lambda>r. r\<lparr>us_coin_balance := b + m\<rparr>) (w_db w))"
    using webhook_credits [of cfg hmac body sig json event pay "us_id user" w "fl (money_dec m)" m b now] cfg(1) sig w m M
    by (simp_all add: user_of_note_def parse_show_int calculate_coins_paise [OF m(1) M cfg(4)] to_money_f_money)
  have bal: "balance_of (w_db ?w) v = (if v = us_id user then Some (b + m) else balance_of (w_db w) v)" for v
    using w(1) by (simp add: hook(2) balance_of_store)
  have "verify_payment cfg pv now' ?w user ord i sig' = (?w, Inr (0, b + m))"
    using cfg app sig bal hook(2)
    by (intro verify_after_credit) (auto simp: verify_payment_signature_def fetch_captured_payment_def get_razorpay_client_def note_text_def)
  moreover have "create_order cfg pv (fl (money_dec m)) (us_id user) = pv_create pv
      \<lparr>od_amount = m, od_receipt = ''amphive_user'' @ show_int (us_id user) @ ''_'' @ show_int (trunc_int (fl (money_dec m))),
       od_user_note = Text_User (show_int (us_id user)), od_coins_note = calculate_coins cfg (fl (money_dec m))\<rparr>"
    using cfg by (simp add: create_order_def get_razorpay_client_def order_amount [OF m(1,2)])
  ultimately show ?thesis using hook bal by (intro exI [of _ ?w] exI conjI) (assumption | simp)+
qed

theorem topup_roundtrip_witness:
  "\<exists>w'. razorpay_webhook payment_config (\<lambda>k b. ''ok'') (\<lambda>b. Some sample_event) 5
           (empty_world\<lparr>w_db := empty_db\<lparr>users := [sample_user]\<rparr>\<rparr>) ''body'' ''ok''
         = (w', Inr (Credited ''pay'' (fl (money_dec 25000)) 35000))
     \<and> balance_of (w_db w') 1 = Some 35000
     \<and> verify_payment payment_config sample_provider 9 w' sample_user ''order'' ''pay'' ''sig'' = (w', Inr (0, 35000))"
proof -
  have "RAZORPAY_WEBHOOK_SECRET payment_config \<noteq> []" "RAZORPAY_KEY_ID payment_config \<noteq> []"
    "RAZORPAY_KEY_SECRET payment_config \<noteq> []" "COINS_PER_RUPEE payment_config = 1" "(10000 :: int) + 25000 \<le> MAX_MONEY"
    "balance_of (w_db (empty_world\<lparr>w_db := empty_db\<lparr>users := [sample_user]\<rparr>\<rparr>)) (us_id sample_user) = Some 10000"
    "''pay'' \<notin> set (razorpay_ids (w_db (empty_world\<lparr>w_db := empty_db\<lparr>users := [sample_user]\<rparr>\<rparr>)))"
    "we_event sample_event = ''payment.captured''" "we_payment sample_event = Some sample_payment"
    "pe_id sample_payment = ''pay''" "pe_amount sample_payment = 25000" "pe_user_note sample_payment = Text_User (show_int (us_id sample_user))"
    "pv_signature_ok sample_provider ''order'' ''pay'' ''sig''" "pv_fetch sample_provider ''pay'' = Some sample_payment"
    "pe_order_id sample_payment = Some ''order''" "pe_status sample_payment = ''captured''" "us_id sample_user = 1"
    by code_simp+
  note facts = this
  show ?thesis
    using topup_roundtrip [OF facts(1-4) _ _ facts(5) _ facts(6) _ facts(7), of "\<lambda>k b. ''ok''" "''body''" "''ok''" "\<lambda>b. Some sample_event"
        sample_event sample_payment sample_provider "''order''" "''sig''" 5 9] facts
    by auto
qed

end
