(* ===== verification/Payouts.thy ===== *)
theory Payouts
  imports Access Lifecycle Pricing
begin

text \<open>
  Operator earnings, payouts and cash top-ups (\<open>backend/services/payouts.py\<close>,
  \<open>backend/routers/cpo/_payouts.py\<close>, \<open>backend/routers/cpo/_topups.py\<close>).

  A payout claims sessions by stamping them with its id; a cancelled payout gives them back.
  \<open>created_at\<close> of a top-up is the database's \<open>CURRENT_TIMESTAMP\<close>, the start of the transaction,
  which is an argument of its own: it lies before the instant at which the tenant lock is granted.
  A handler that raises leaves the database as it was.
\<close>

subsection \<open>Earnings\<close>

definition finished :: "charging_session \<Rightarrow> bool" where
  "finished s \<longleftrightarrow> cs_status s = COMPLETED \<or> cs_status s = PAID"

text \<open>\<open>start <= column < end\<close>; a missing bound is no condition, a NULL column satisfies none.\<close>

definition in_period :: "timestamp option \<Rightarrow> timestamp option \<Rightarrow> timestamp option \<Rightarrow> bool" where
  "in_period window_start window_end column \<longleftrightarrow>
     (case window_start of None \<Rightarrow> True | Some a \<Rightarrow> (case column of None \<Rightarrow> False | Some t \<Rightarrow> a \<le> t))
     \<and> (case window_end of None \<Rightarrow> True | Some b \<Rightarrow> (case column of None \<Rightarrow> False | Some t \<Rightarrow> t < b))"

definition platform_fee_pct :: "config \<Rightarrow> decimal" where
  "platform_fee_pct cfg = (case PLATFORM_FEE_PCT cfg of None \<Rightarrow> Finite 10 | Some pct \<Rightarrow> pct)"

text \<open>\<open>gross * pct / 100\<close> in the decimal context; zero times an infinity raises.\<close>

definition percent_of :: "money \<Rightarrow> decimal \<Rightarrow> decimal option" where
  "percent_of gross pct =
     (case pct of
        Finite p \<Rightarrow> Some (Finite (dctx (dctx (money_dec gross * p) / 100)))
      | Infinity negative \<Rightarrow> if gross = 0 then None else Some (Infinity (negative \<noteq> (gross < 0)))
      | NaN \<Rightarrow> Some NaN)"

definition compute_fee_and_net :: "config \<Rightarrow> money \<Rightarrow> (money \<times> money) response" where
  "compute_fee_and_net cfg gross0 =
     (let gross = to_money_m gross0
      in case percent_of gross (platform_fee_pct cfg) of
           None \<Rightarrow> Inl DecimalError
         | Some x \<Rightarrow> let fee = to_money x; net = to_money_m (gross - fee) in Inr (fee, net))"

definition refund_of :: "session_dispute \<Rightarrow> money" where
  "refund_of r = (case sd_refund_coins r of Some c \<Rightarrow> c | None \<Rightarrow> 0)"

definition refund_counts :: "db \<Rightarrow> int \<Rightarrow> timestamp option \<Rightarrow> timestamp option \<Rightarrow> session_dispute \<Rightarrow> bool" where
  "refund_counts d tenant_id window_start window_end r \<longleftrightarrow>
     (case row_by cs_id (sd_session_id r) (charging_sessions d) of
        None \<Rightarrow> False
      | Some s \<Rightarrow> cs_tenant_id s = tenant_id \<and> finished s)
     \<and> sd_status r = DI_APPROVED \<and> in_period window_start window_end (sd_resolved_at r)"

definition sum_approved_refund_coins :: "db \<Rightarrow> int \<Rightarrow> timestamp option \<Rightarrow> timestamp option \<Rightarrow> money" where
  "sum_approved_refund_coins d tenant_id window_start window_end =
     to_money_m (sum_where refund_of (refund_counts d tenant_id window_start window_end) (disputes d))"

definition sum_completed_session_coins :: "db \<Rightarrow> int \<Rightarrow> timestamp option \<Rightarrow> timestamp option \<Rightarrow> money" where
  "sum_completed_session_coins d tenant_id window_start window_end =
     (let gross = to_money_m (sum_where cs_coins_spent
            (\<lambda>s. cs_tenant_id s = tenant_id \<and> finished s \<and> in_period window_start window_end (cs_ended_at s)) (charging_sessions d));
          refunds = sum_approved_refund_coins d tenant_id window_start window_end
      in to_money_m (max (gross - refunds) ZERO_MONEY))"

definition tenant_settlement_watermark :: "db \<Rightarrow> int \<Rightarrow> timestamp" where
  "tenant_settlement_watermark d tenant_id =
     (case map po_period_end (filter (\<lambda>p. po_tenant_id p = tenant_id \<and> po_status p \<noteq> PO_CANCELLED) (payouts d)) of
        [] \<Rightarrow> 0
      | t # ts \<Rightarrow> fold max ts t)"

definition unsettled :: "int \<Rightarrow> charging_session \<Rightarrow> bool" where
  "unsettled tenant_id s \<longleftrightarrow> cs_tenant_id s = tenant_id \<and> finished s \<and> cs_settled_payout_id s = None"

definition sum_unsettled_session_coins :: "timestamp \<Rightarrow> db \<Rightarrow> int \<Rightarrow> money" where
  "sum_unsettled_session_coins now d tenant_id =
     (let gross = to_money_m (sum_where cs_coins_spent (unsettled tenant_id) (charging_sessions d));
          refunds = sum_approved_refund_coins d tenant_id (Some (tenant_settlement_watermark d tenant_id)) (Some now)
      in to_money_m (max (gross - refunds) ZERO_MONEY))"

definition mark_unsettled_sessions_and_sum_gross ::
  "db \<Rightarrow> int \<Rightarrow> int \<Rightarrow> timestamp \<Rightarrow> timestamp \<Rightarrow> db \<times> money" where
  "mark_unsettled_sessions_and_sum_gross d tenant_id payout_id refund_window_start refund_window_end =
     (let d' = d\<lparr>charging_sessions := update_where (unsettled tenant_id)
                   (\<lambda>s. s\<lparr>cs_settled_payout_id := Some payout_id\<rparr>) (charging_sessions d)\<rparr>;
          gross = to_money_m (sum_list (map cs_coins_spent (filter (unsettled tenant_id) (charging_sessions d))));
          refunds = sum_approved_refund_coins d' tenant_id (Some refund_window_start) (Some refund_window_end)
      in (d', to_money_m (max (gross - refunds) ZERO_MONEY)))"

definition sum_offline_topups :: "db \<Rightarrow> int \<Rightarrow> timestamp option \<Rightarrow> timestamp option \<Rightarrow> money" where
  "sum_offline_topups d tenant_id window_start window_end =
     to_money_m (sum_where ot_amount_coins
       (\<lambda>r. ot_tenant_id r = tenant_id \<and> in_period window_start window_end (Some (ot_created_at r))) (offline_topups d))"

record earnings_summary =
  es_watermark :: timestamp
  es_now :: timestamp
  es_lifetime_gross_coins :: money
  es_lifetime_platform_fee_coins :: money
  es_lifetime_net_coins :: money
  es_unsettled_gross_coins :: money
  es_unsettled_platform_fee_coins :: money
  es_unsettled_net_coins :: money
  es_topups_since_watermark_coins :: money
  es_available_pool_coins :: money

definition tenant_earnings_summary :: "config \<Rightarrow> timestamp \<Rightarrow> db \<Rightarrow> int \<Rightarrow> earnings_summary response" where
  "tenant_earnings_summary cfg now d tenant_id =
     (let watermark = tenant_settlement_watermark d tenant_id;
          lifetime_gross = sum_completed_session_coins d tenant_id None None;
          unsettled_gross = sum_unsettled_session_coins now d tenant_id;
          topups = sum_offline_topups d tenant_id (Some watermark) (Some now)
      in case compute_fee_and_net cfg lifetime_gross of
           Inl err \<Rightarrow> Inl err
         | Inr lifetime \<Rightarrow>
             (case compute_fee_and_net cfg unsettled_gross of
                Inl err \<Rightarrow> Inl err
              | Inr unsettled_split \<Rightarrow>
                  Inr \<lparr>es_watermark = watermark, es_now = now, es_lifetime_gross_coins = lifetime_gross,
                       es_lifetime_platform_fee_coins = fst lifetime, es_lifetime_net_coins = snd lifetime,
                       es_unsettled_gross_coins = unsettled_gross, es_unsettled_platform_fee_coins = fst unsettled_split,
                       es_unsettled_net_coins = snd unsettled_split, es_topups_since_watermark_coins = topups,
                       es_available_pool_coins = to_money_m (max (snd unsettled_split - topups) ZERO_MONEY)\<rparr>))"

definition cpo_earnings :: "config \<Rightarrow> timestamp \<Rightarrow> db \<Rightarrow> user \<Rightarrow> earnings_summary response" where
  "cpo_earnings cfg now d user =
     (case operator_tenant user of Inl err \<Rightarrow> Inl err | Inr tenant_id \<Rightarrow> tenant_earnings_summary cfg now d tenant_id)"

subsection \<open>Payout endpoints\<close>

definition cpo_request_payout :: "config \<Rightarrow> timestamp \<Rightarrow> db \<Rightarrow> user \<Rightarrow> db \<times> payout response" where
  "cpo_request_payout cfg now d user =
     (case operator_tenant user of
        Inl err \<Rightarrow> (d, Inl err)
      | Inr tenant_id \<Rightarrow>
          if row_by tn_id tenant_id (tenants d) = None then (d, Inl (HTTPException 404 ''Tenant not found.''))
          else if exists_row (\<lambda>p. po_tenant_id p = tenant_id \<and> po_status p = PO_REQUESTED) (payouts d)
          then (d, Inl (HTTPException 409 ''A payout request is already pending for this tenant.''))
          else
            let watermark = tenant_settlement_watermark d tenant_id;
                payout = \<lparr>po_id = fresh_id po_id (payouts d), po_tenant_id = tenant_id, po_period_start = watermark,
                          po_period_end = now, po_gross_coins = ZERO_MONEY, po_platform_fee_coins = ZERO_MONEY,
                          po_net_coins = ZERO_MONEY, po_status = PO_REQUESTED, po_requested_by_user_id = us_id user,
                          po_requested_at = now, po_paid_at = None\<rparr>;
                d1 = d\<lparr>payouts := payouts d @ [payout]\<rparr>;
                marked = mark_unsettled_sessions_and_sum_gross d1 tenant_id (po_id payout) watermark now;
                d2 = fst marked; gross = snd marked
            in case compute_fee_and_net cfg gross of
                 Inl err \<Rightarrow> (d, Inl err)
               | Inr split \<Rightarrow>
                   let fee = fst split; net = snd split;
                       topups = sum_offline_topups d2 tenant_id (Some watermark) (Some now);
                       payable_net = to_money_m (max (net - topups) ZERO_MONEY)
                   in if payable_net \<le> ZERO_MONEY
                      then (d, Inl (HTTPException 400 ''No unsettled earnings to pay out.''))
                      else let payout' = payout\<lparr>po_gross_coins := gross, po_platform_fee_coins := fee, po_net_coins := payable_net\<rparr>
                           in (d2\<lparr>payouts := payouts d @ [payout']\<rparr>, Inr payout'))"

definition cpo_list_payouts :: "db \<Rightarrow> user \<Rightarrow> int \<Rightarrow> int \<Rightarrow> payout list response" where
  "cpo_list_payouts d user limit offset =
     (case operator_tenant user of
        Inl err \<Rightarrow> Inl err
      | Inr tenant_id \<Rightarrow>
          let (n, off) = clamp_list_window limit offset
          in Inr (page n off (sort_key (\<lambda>p. (- po_requested_at p, - po_id p)) (filter (\<lambda>p. po_tenant_id p = tenant_id) (payouts d)))))"

definition upd_payout :: "int \<Rightarrow> (payout \<Rightarrow> payout) \<Rightarrow> db \<Rightarrow> db" where
  "upd_payout i f d = d\<lparr>payouts := update_where (\<lambda>p. po_id p = i) f (payouts d)\<rparr>"

definition cpo_mark_payout_paid :: "timestamp \<Rightarrow> db \<Rightarrow> int \<Rightarrow> user \<Rightarrow> db \<times> payout response" where
  "cpo_mark_payout_paid now d payout_id user =
     (case require_role [''admin''] user of
        Inl err \<Rightarrow> (d, Inl err)
      | Inr _ \<Rightarrow>
          (case row_by po_id payout_id (payouts d) of
             None \<Rightarrow> (d, Inl (HTTPException 404 ''Payout not found.''))
           | Some payout \<Rightarrow>
               if po_status payout \<noteq> PO_REQUESTED then (d, Inl (HTTPException 409 ''Payout is not requested.''))
               else let f = (\<lambda>p. p\<lparr>po_status := PO_PAID, po_paid_at := Some now\<rparr>)
                    in (upd_payout payout_id f d, Inr (f payout))))"

definition cpo_cancel_payout :: "db \<Rightarrow> int \<Rightarrow> user \<Rightarrow> db \<times> payout response" where
  "cpo_cancel_payout d payout_id user =
     (case require_role [''cpo'', ''admin''] user of
        Inl err \<Rightarrow> (d, Inl err)
      | Inr _ \<Rightarrow>
          (case row_by po_id payout_id (payouts d) of
             None \<Rightarrow> (d, Inl (HTTPException 404 ''Payout not found.''))
           | Some payout \<Rightarrow>
               if us_role user \<noteq> ADMIN \<and> us_tenant_id user \<noteq> Some (po_tenant_id payout)
               then (d, Inl (HTTPException 404 ''Payout not found.''))
               else if po_status payout \<noteq> PO_REQUESTED then (d, Inl (HTTPException 409 ''Payout is not requested.''))
               else let f = (\<lambda>p. p\<lparr>po_status := PO_CANCELLED\<rparr>);
                        d1 = d\<lparr>charging_sessions := update_where (\<lambda>s. cs_settled_payout_id s = Some (po_id payout))
                               (\<lambda>s. s\<lparr>cs_settled_payout_id := None\<rparr>) (charging_sessions d)\<rparr>
                    in (upd_payout payout_id f d1, Inr (f payout))))"

subsection \<open>Cash top-ups\<close>

definition cpo_create_topup ::
  "config \<Rightarrow> timestamp \<Rightarrow> timestamp \<Rightarrow> world \<Rightarrow> user \<Rightarrow> string \<Rightarrow> pyfloat \<Rightarrow> world \<times> offline_topup response" where
  "cpo_create_topup cfg tx_started now w user driver_email amount_coins =
     (let d = w_db w in
      case operator_tenant user of
        Inl err \<Rightarrow> (w, Inl err)
      | Inr tenant_id \<Rightarrow>
          if row_by tn_id tenant_id (tenants d) = None then (w, Inl (HTTPException 404 ''Tenant not found.''))
          else case filter (\<lambda>u. map lower_char (us_email u) = normalize_email driver_email) (users d) of
                 [] \<Rightarrow> (w, Inl (HTTPException 404 ''No driver account found.''))
               | _ # _ # _ \<Rightarrow> (w, Inl MultipleResultsFound)
               | [driver] \<Rightarrow>
                   if us_role driver \<noteq> DRIVER then (w, Inl (HTTPException 404 ''No driver account found.''))
                   else let amount = to_money_f amount_coins
                        in if amount \<le> ZERO_MONEY then (w, Inl (HTTPException 400 ''amount_coins must be greater than 0.''))
                           else case tenant_earnings_summary cfg now d tenant_id of
                                  Inl err \<Rightarrow> (w, Inl err)
                                | Inr summary \<Rightarrow>
                                    if es_available_pool_coins summary < amount
                                    then (w, Inl (HTTPException 409 ''That would exceed your available top-up pool.''))
                                    else case credit_wallet d (us_id driver) amount of
                                           Inl err \<Rightarrow> (w, Inl err)
                                         | Inr credited \<Rightarrow> case snd credited of
                                           None \<Rightarrow> (w, Inl (HTTPException 404 ''No driver account found.''))
                                         | Some new_balance \<Rightarrow>
                                             let d1 = fst credited;
                                                 topup = \<lparr>ot_id = fresh_id ot_id (offline_topups d), ot_tenant_id = tenant_id,
                                                          ot_actor_user_id = Some (us_id user), ot_driver_user_id = Some (us_id driver),
                                                          ot_amount_coins = amount, ot_created_at = tx_started\<rparr>;
                                                 d2 = add_ledger \<lparr>lt_id = 0, lt_user_id = us_id driver, lt_session_id = None,
                                                        lt_amount = amount, lt_transaction_type = CPO_TOPUP,
                                                        lt_razorpay_payment_id = None, lt_balance_after = new_balance,
                                                        lt_created_at = tx_started\<rparr>
                                                        (d1\<lparr>offline_topups := offline_topups d1 @ [topup]\<rparr>)
                                             in (emit [Notify (us_id driver) ''topup_credited'' ''info'' None None] (w\<lparr>w_db := d2\<rparr>), Inr topup))"

definition cpo_list_topups :: "db \<Rightarrow> user \<Rightarrow> int \<Rightarrow> int \<Rightarrow> (nat \<times> offline_topup list) response" where
  "cpo_list_topups d user limit offset =
     (case operator_tenant user of
        Inl err \<Rightarrow> Inl err
      | Inr tenant_id \<Rightarrow>
          Inr (count_where (\<lambda>r. ot_tenant_id r = tenant_id) (offline_topups d),
               page (max 1 (min limit 200)) (max 0 offset)
                 (sort_key (\<lambda>r. (- ot_created_at r, - ot_id r)) (filter (\<lambda>r. ot_tenant_id r = tenant_id) (offline_topups d)))))"

subsection \<open>The books\<close>

text \<open>
  A claimed session belongs to a payout that is not cancelled, of its own tenant; a payout that is
  not cancelled is worth no more than the sessions it claimed; a tenant has at most one pending
  payout.
\<close>

definition claimed :: "charging_session \<Rightarrow> bool" where
  "claimed s \<longleftrightarrow> cs_settled_payout_id s \<noteq> None"

definition claimed_sum :: "db \<Rightarrow> int \<Rightarrow> money" where
  "claimed_sum d payout_id =
     sum_where cs_coins_spent (\<lambda>s. cs_settled_payout_id s = Some payout_id) (charging_sessions d)"

definition live_payout :: "payout \<Rightarrow> bool" where
  "live_payout p \<longleftrightarrow> po_status p \<noteq> PO_CANCELLED"

definition one_pending :: "payout list \<Rightarrow> bool" where
  "one_pending ps \<longleftrightarrow> list_all (\<lambda>p. list_all (\<lambda>q. po_status p = PO_REQUESTED \<longrightarrow> po_status q = PO_REQUESTED
     \<longrightarrow> po_tenant_id p = po_tenant_id q \<longrightarrow> po_id p = po_id q) ps) ps"

definition books_ok :: "db \<Rightarrow> bool" where
  "books_ok d \<longleftrightarrow> distinct (map po_id (payouts d))
     \<and> list_all (\<lambda>s. 0 \<le> cs_coins_spent s \<and> (claimed s \<longrightarrow> finished s
           \<and> list_ex (\<lambda>p. cs_settled_payout_id s = Some (po_id p) \<and> live_payout p \<and> po_tenant_id p = cs_tenant_id s) (payouts d)))
         (charging_sessions d)
     \<and> list_all (\<lambda>p. 0 \<le> po_net_coins p \<and> 0 \<le> po_platform_fee_coins p
           \<and> (live_payout p \<longrightarrow> po_net_coins p + po_platform_fee_coins p \<le> claimed_sum d (po_id p))) (payouts d)
     \<and> one_pending (payouts d)
     \<and> list_all (\<lambda>r. 0 \<le> refund_of r) (disputes d)
     \<and> list_all (\<lambda>r. 0 \<le> ot_amount_coins r) (offline_topups d)"

definition fee_ok :: "config \<Rightarrow> bool" where
  "fee_ok cfg \<longleftrightarrow> (case platform_fee_pct cfg of Finite p \<Rightarrow> 0 \<le> p \<and> p \<le> 100 | _ \<Rightarrow> False)"

text \<open>
  What the session operations do to the books: they touch no payout and no claimed session, and
  every amount stays non-negative.
\<close>

definition session_activity :: "db \<Rightarrow> db \<Rightarrow> bool" where
  "session_activity d d' \<longleftrightarrow> payouts d' = payouts d
     \<and> filter claimed (charging_sessions d') = filter claimed (charging_sessions d)
     \<and> list_all (\<lambda>s. 0 \<le> cs_coins_spent s) (charging_sessions d')
     \<and> list_all (\<lambda>r. 0 \<le> refund_of r) (disputes d') \<and> list_all (\<lambda>r. 0 \<le> ot_amount_coins r) (offline_topups d')"

inductive payout_step :: "config \<Rightarrow> db \<Rightarrow> db \<Rightarrow> bool" for cfg where
  request: "payout_step cfg d (fst (cpo_request_payout cfg now d user))"
| mark_paid: "payout_step cfg d (fst (cpo_mark_payout_paid now d payout_id user))"
| cancel: "payout_step cfg d (fst (cpo_cancel_payout d payout_id user))"
| activity: "session_activity d d' \<Longrightarrow> payout_step cfg d d'"

inductive_cases payout_stepE [consumes 1, case_names request mark_paid cancel activity]: "payout_step cfg d d'"

text \<open>
  One operator, two drivers: a payout of 90.00 is pending with its watermark at 100, a session of
  100.00 has finished since.
\<close>

definition sample_operator :: user where
  "sample_operator = sample_user\<lparr>us_id := 9, us_email := ''op'', us_role := CPO, us_tenant_id := Some 1\<rparr>"

definition sample_books :: world where
  "sample_books = empty_world\<lparr>w_db := sample_site\<lparr>users := [sample_user, sample_operator],
     payouts := [\<lparr>po_id = 1, po_tenant_id = 1, po_period_start = 0, po_period_end = 100, po_gross_coins = 10000,
        po_platform_fee_coins = 1000, po_net_coins = 9000, po_status = PO_PAID, po_requested_by_user_id = 9,
        po_requested_at = 100, po_paid_at = Some 101\<rparr>],
     charging_sessions := [sample_session\<lparr>cs_status := COMPLETED, cs_coins_spent := 10000, cs_ended_at := Some 90,
          cs_settled_payout_id := Some 1\<rparr>,
        sample_session\<lparr>cs_id := 2, cs_status := COMPLETED, cs_coins_spent := 10000, cs_ended_at := Some 150\<rparr>]\<rparr>\<rparr>"

definition fresh_books :: "db \<Rightarrow> bool" where
  "fresh_books d \<longleftrightarrow> payouts d = [] \<and> list_all (\<lambda>s. 0 \<le> cs_coins_spent s \<and> \<not> claimed s) (charging_sessions d)
     \<and> list_all (\<lambda>r. 0 \<le> refund_of r) (disputes d) \<and> list_all (\<lambda>r. 0 \<le> ot_amount_coins r) (offline_topups d)"

definition sample_ledger :: db where
  "sample_ledger = (w_db sample_books)\<lparr>payouts := [], charging_sessions :=
     [sample_session\<lparr>cs_status := COMPLETED, cs_coins_spent := 10000, cs_ended_at := Some 90\<rparr>]\<rparr>"

subsection \<open>Lemmas\<close>

lemma sum_where_update:
  "sum_where f P (update_where Q g rows) = sum_where (\<lambda>r. if Q r then f (g r) else f r) (\<lambda>r. if Q r then P (g r) else P r) rows"
  by (induction rows) simp_all

lemma claimed_sum_filter:
  "claimed_sum d i = sum_where cs_coins_spent (\<lambda>s. cs_settled_payout_id s = Some i) (filter claimed (charging_sessions d))"
proof -
  have "sum_where f (\<lambda>s. cs_settled_payout_id s = Some i) rows = sum_where f (\<lambda>s. cs_settled_payout_id s = Some i) (filter claimed rows)" for f rows
    by (induction rows) (simp_all add: claimed_def)
  then show ?thesis by (simp add: claimed_sum_def)
qed

lemma claimed_sum_cong: "filter claimed (charging_sessions d') = filter claimed (charging_sessions d) \<Longrightarrow> claimed_sum d' i = claimed_sum d i"
  by (simp add: claimed_sum_filter)

lemma fee_and_net_foot:
  assumes "fee_ok cfg" "0 \<le> gross" "gross \<le> MAX_MONEY"
  obtains fee net where "compute_fee_and_net cfg gross = Inr (fee, net)" "fee + net = gross" "0 \<le> fee" "0 \<le> net"
proof -
  obtain p where p: "platform_fee_pct cfg = Finite p" "0 \<le> p" "p \<le> 100"
    using assms(1) by (auto simp: fee_ok_def split: decimal.splits)
  let ?x = "dctx (dctx (money_dec gross * p) / 100)"
  have g: "0 \<le> money_dec gross" "dctx (money_dec gross) = money_dec gross" "dctx (money_dec gross * 100) = money_dec gross * 100"
    using assms(2,3) dctx_hundredths [of gross] dctx_hundredths [of "gross * 100"] by (simp_all add: money_dec_def MAX_MONEY_def)
  have "dctx (money_dec gross * p) \<le> money_dec gross * 100"
    using g p by (intro dec28.rnd_le_fixed mult_left_mono) simp_all
  then have hi: "?x \<le> money_dec gross" using g(2) by (intro dec28.rnd_le_fixed) simp_all
  have lo: "0 \<le> ?x" using g(1) p(2) by (intro dec28.rnd_nonneg) (simp add: dec28.rnd_nonneg)
  have id: "to_money_m m = m" "to_money (Finite (money_dec m)) = m" if "0 \<le> m" "m \<le> MAX_MONEY" for m
    using to_money_m_id [of m] that by (simp_all add: to_money_m_def)
  have fee: "0 \<le> to_money (Finite ?x)" "to_money (Finite ?x) \<le> gross"
    using to_money_nonneg [OF lo] to_money_mono [OF hi] id(2) [OF assms(2,3)] by simp_all
  have "compute_fee_and_net cfg gross = Inr (to_money (Finite ?x), gross - to_money (Finite ?x))"
    using fee id(1) [of gross] id(1) [of "gross - to_money (Finite ?x)"] assms(2,3)
    by (simp add: compute_fee_and_net_def percent_of_def p(1) Let_def)
  then show thesis using that fee by simp
qed

lemma max_money_nonneg: "0 \<le> to_money_m (max x ZERO_MONEY)" "to_money_m (max x ZERO_MONEY) \<le> MAX_MONEY" "to_money_m (max x ZERO_MONEY) \<le> max x 0"
  by (simp_all add: to_money_m_clamp clamp_money_nonneg ZERO_MONEY_def clamp_money_le)

lemma sum_approved_refund_cong:
  assumes "charging_sessions d' = charging_sessions d" "disputes d' = disputes d"
  shows "sum_approved_refund_coins d' t a b = sum_approved_refund_coins d t a b"
proof -
  have "refund_counts d' t a b = refund_counts d t a b" using assms(1) by (simp add: refund_counts_def fun_eq_iff)
  then show ?thesis by (simp add: sum_approved_refund_coins_def assms(2))
qed

text \<open>What a successful request does, in terms of the database it started from.\<close>

lemma request_payout_cases:
  assumes "cpo_request_payout cfg now d user = (d', res)"
  obtains (refused) err where "d' = d" "res = Inl err"
  | (paid) t w fee net gross p where "us_tenant_id user = Some t" "w = tenant_settlement_watermark d t"
      "\<not> exists_row (\<lambda>p. po_tenant_id p = t \<and> po_status p = PO_REQUESTED) (payouts d)"
      "gross = to_money_m (max (to_money_m (sum_where cs_coins_spent (unsettled t) (charging_sessions d))
                 - sum_approved_refund_coins (fst (mark_unsettled_sessions_and_sum_gross d t (po_id p) w now)) t (Some w) (Some now)) ZERO_MONEY)"
      "compute_fee_and_net cfg gross = Inr (fee, net)" "res = Inr p" "0 < po_net_coins p"
      "po_net_coins p = to_money_m (max (net - sum_offline_topups d t (Some w) (Some now)) ZERO_MONEY)"
      "po_id p = fresh_id po_id (payouts d)" "po_tenant_id p = t" "po_status p = PO_REQUESTED" "po_platform_fee_coins p = fee"
      "po_gross_coins p = gross" "po_period_end p = now"
      "po_period_start p = w" "operator_tenant user = Inr t"
      "d' = d\<lparr>payouts := payouts d @ [p], charging_sessions := update_where (unsettled t)
               (\<lambda>s. s\<lparr>cs_settled_payout_id := Some (po_id p)\<rparr>) (charging_sessions d)\<rparr>"
proof (cases "operator_tenant user")
  case (Inl err)
  then have "(d', res) = (d, Inl err)" using assms by (simp add: cpo_request_payout_def)
  then show ?thesis by (intro refused) auto
next
  case (Inr t)
  let ?w = "tenant_settlement_watermark d t"
  let ?i = "fresh_id po_id (payouts d)"
  let ?gross = "to_money_m (max (to_money_m (sum_where cs_coins_spent (unsettled t) (charging_sessions d))
                 - sum_approved_refund_coins (fst (mark_unsettled_sessions_and_sum_gross d t ?i ?w now)) t (Some ?w) (Some now)) ZERO_MONEY)"
  have refunds: "sum_approved_refund_coins (d\<lparr>payouts := ps, charging_sessions := cs\<rparr>) t a b = sum_approved_refund_coins (d\<lparr>charging_sessions := cs\<rparr>) t a b"
    for ps cs a b by (rule sum_approved_refund_cong) simp_all
  have topups: "sum_offline_topups (d\<lparr>payouts := ps, charging_sessions := cs\<rparr>) t a b = sum_offline_topups d t a b" for ps cs a b
    by (simp add: sum_offline_topups_def)
  show ?thesis
  proof (cases "row_by tn_id t (tenants d) = None \<or> exists_row (\<lambda>p. po_tenant_id p = t \<and> po_status p = PO_REQUESTED) (payouts d)")
    case True
    then have "\<exists>err. (d', res) = (d, Inl err)" using assms Inr
      by (cases "row_by tn_id t (tenants d) = None") (auto simp: cpo_request_payout_def)
    then show ?thesis using refused by blast
  next
    case open_: False
    show ?thesis
    proof (cases "compute_fee_and_net cfg ?gross")
      case (Inl err)
      then have "\<exists>err. (d', res) = (d, Inl err)" using assms Inr open_
        by (auto simp: cpo_request_payout_def mark_unsettled_sessions_and_sum_gross_def Let_def refunds sum_where_def)
      then show ?thesis using refused by blast
    next
      case fee: (Inr x)
      obtain fee net where x: "x = (fee, net)" by (cases x)
      let ?net = "to_money_m (max (net - sum_offline_topups d t (Some ?w) (Some now)) ZERO_MONEY)"
      show ?thesis
      proof (cases "?net \<le> ZERO_MONEY")
        case True
        then have "\<exists>err. (d', res) = (d, Inl err)" using assms Inr open_ fee x
          by (auto simp: cpo_request_payout_def mark_unsettled_sessions_and_sum_gross_def Let_def refunds topups sum_where_def)
        then show ?thesis using refused by blast
      next
        case False
        let ?p = "\<lparr>po_id = ?i, po_tenant_id = t, po_period_start = ?w,
                          po_period_end = now, po_gross_coins = ?gross, po_platform_fee_coins = fee,
                          po_net_coins = ?net, po_status = PO_REQUESTED, po_requested_by_user_id = us_id user,
                          po_requested_at = now, po_paid_at = None\<rparr>"
        have "(d', res) = (d\<lparr>payouts := payouts d @ [?p], charging_sessions := update_where (unsettled t)
               (\<lambda>s. s\<lparr>cs_settled_payout_id := Some ?i\<rparr>) (charging_sessions d)\<rparr>, Inr ?p)"
          using assms Inr open_ fee x False
          by (auto simp: cpo_request_payout_def mark_unsettled_sessions_and_sum_gross_def Let_def refunds topups sum_where_def)
        then show ?thesis using Inr open_ fee x False operator_tenant_InrD [OF Inr]
          by (intro paid [of t ?w ?gross ?p fee net]) (auto simp: ZERO_MONEY_def)
      qed
    qed
  qed
qed

lemma one_pending_iff:
  "one_pending ps \<longleftrightarrow> (\<forall>p \<in> set ps. \<forall>q \<in> set ps. po_status p = PO_REQUESTED \<and> po_status q = PO_REQUESTED
     \<and> po_tenant_id p = po_tenant_id q \<longrightarrow> po_id p = po_id q)"
  by (auto simp: one_pending_def list_all_iff)

lemma one_pending_snoc:
  assumes "one_pending ps" "\<And>q. q \<in> set ps \<Longrightarrow> \<not> (po_status q = PO_REQUESTED \<and> po_tenant_id q = po_tenant_id p)"
  shows "one_pending (ps @ [p])"
  unfolding one_pending_iff
proof (intro ballI impI)
  fix y z
  assume "y \<in> set (ps @ [p])" "z \<in> set (ps @ [p])"
    and "po_status y = PO_REQUESTED \<and> po_status z = PO_REQUESTED \<and> po_tenant_id y = po_tenant_id z"
  then consider "y = p" "z = p" | "y \<in> set ps" "z \<in> set ps" using assms(2) [of y] assms(2) [of z] by auto
  then show "po_id y = po_id z"
    using assms(1) \<open>po_status y = PO_REQUESTED \<and> po_status z = PO_REQUESTED \<and> po_tenant_id y = po_tenant_id z\<close>
    unfolding one_pending_iff by cases blast+
qed

lemma books_ok_iff:
  "books_ok d \<longleftrightarrow> distinct (map po_id (payouts d))
     \<and> (\<forall>s \<in> set (charging_sessions d). 0 \<le> cs_coins_spent s)
     \<and> (\<forall>s \<in> set (filter claimed (charging_sessions d)). finished s \<and> (\<exists>p \<in> set (payouts d).
           cs_settled_payout_id s = Some (po_id p) \<and> live_payout p \<and> po_tenant_id p = cs_tenant_id s))
     \<and> (\<forall>p \<in> set (payouts d). 0 \<le> po_net_coins p \<and> 0 \<le> po_platform_fee_coins p
           \<and> (live_payout p \<longrightarrow> po_net_coins p + po_platform_fee_coins p \<le> claimed_sum d (po_id p)))
     \<and> one_pending (payouts d)
     \<and> (\<forall>r \<in> set (disputes d). 0 \<le> refund_of r) \<and> (\<forall>r \<in> set (offline_topups d). 0 \<le> ot_amount_coins r)"
  unfolding books_ok_def list_all_iff list_ex_iff by auto

lemma books_okD:
  assumes "books_ok d"
  shows "distinct (map po_id (payouts d))" "s \<in> set (charging_sessions d) \<Longrightarrow> 0 \<le> cs_coins_spent s"
    "s \<in> set (filter claimed (charging_sessions d)) \<Longrightarrow> finished s \<and> (\<exists>p \<in> set (payouts d).
           cs_settled_payout_id s = Some (po_id p) \<and> live_payout p \<and> po_tenant_id p = cs_tenant_id s)"
    "p \<in> set (payouts d) \<Longrightarrow> 0 \<le> po_net_coins p \<and> 0 \<le> po_platform_fee_coins p
           \<and> (live_payout p \<longrightarrow> po_net_coins p + po_platform_fee_coins p \<le> claimed_sum d (po_id p))"
    "one_pending (payouts d)" "r \<in> set (disputes d) \<Longrightarrow> 0 \<le> refund_of r"
    "x \<in> set (offline_topups d) \<Longrightarrow> 0 \<le> ot_amount_coins x"
  using assms unfolding books_ok_iff by blast+

lemma books_ok_activity: "books_ok d \<Longrightarrow> session_activity d d' \<Longrightarrow> books_ok d'"
  unfolding books_ok_iff session_activity_def list_all_iff using claimed_sum_cong [of d' d] by (elim conjE, intro conjI) simp_all

lemma refunds_nonneg: "books_ok d \<Longrightarrow> disputes d' = disputes d \<Longrightarrow> 0 \<le> sum_approved_refund_coins d' t a b"
  unfolding sum_approved_refund_coins_def to_money_m_clamp
  by (intro clamp_money_nonneg sum_where_nonneg) (simp add: books_ok_iff)

lemma topups_nonneg: "books_ok d \<Longrightarrow> 0 \<le> sum_offline_topups d t a b"
  unfolding sum_offline_topups_def to_money_m_clamp
  by (intro clamp_money_nonneg sum_where_nonneg) (simp add: books_ok_iff)

lemma unclaimed_fresh:
  assumes "books_ok d" "s \<in> set (charging_sessions d)"
  shows "cs_settled_payout_id s \<noteq> Some (fresh_id po_id (payouts d))"
proof
  assume fresh: "cs_settled_payout_id s = Some (fresh_id po_id (payouts d))"
  then have "s \<in> set (filter claimed (charging_sessions d))" using assms(2) by (simp add: claimed_def)
  then obtain p where "p \<in> set (payouts d)" "po_id p = fresh_id po_id (payouts d)"
    using assms(1) fresh unfolding books_ok_iff by fastforce
  then show False using fresh_id_notin [of po_id "payouts d"] by (metis imageI)
qed

lemma claimed_sum_request:
  assumes "books_ok d" "charging_sessions d' = update_where (unsettled t)
               (\<lambda>s. s\<lparr>cs_settled_payout_id := Some (fresh_id po_id (payouts d))\<rparr>) (charging_sessions d)"
  shows "claimed_sum d' (fresh_id po_id (payouts d)) = sum_where cs_coins_spent (unsettled t) (charging_sessions d)"
    and "i \<noteq> fresh_id po_id (payouts d) \<Longrightarrow> claimed_sum d' i = claimed_sum d i"
  unfolding claimed_sum_def assms(2) sum_where_update
  using unclaimed_fresh [OF assms(1)] by (auto intro!: sum_where_cong simp: unsettled_def)

lemma books_ok_request:
  assumes ok: "books_ok d" "fee_ok cfg" and run: "cpo_request_payout cfg now d user = (d', res)"
  shows "books_ok d'"
  using run
proof (cases rule: request_payout_cases)
  case refused
  with ok(1) show ?thesis by simp
next
  case (paid t w fee net gross p)
  let ?i = "fresh_id po_id (payouts d)"
  have sum0: "0 \<le> sum_where cs_coins_spent (unsettled t) (charging_sessions d)" (is "0 \<le> ?sum")
    using ok(1) by (intro sum_where_nonneg) (simp add: books_ok_iff)
  have gross: "0 \<le> gross" "gross \<le> MAX_MONEY" "gross \<le> ?sum"
  proof -
    have "0 \<le> sum_approved_refund_coins (fst (mark_unsettled_sessions_and_sum_gross d t (po_id p) w now)) t (Some w) (Some now)"
      by (rule refunds_nonneg [OF ok(1)]) (simp add: mark_unsettled_sessions_and_sum_gross_def Let_def)
    moreover have "to_money_m ?sum \<le> ?sum" using sum0 by (simp add: to_money_m_clamp clamp_money_le)
    ultimately show "gross \<le> ?sum" using max_money_nonneg(3) sum0 unfolding paid(4) by (smt (verit))
  qed (simp_all add: paid(4) max_money_nonneg)
  obtain fee' net' where "compute_fee_and_net cfg gross = Inr (fee', net')" "fee' + net' = gross" "0 \<le> fee'" "0 \<le> net'"
    using fee_and_net_foot [OF ok(2) gross(1,2)] by metis
  then have fn: "fee + net = gross" "0 \<le> fee" "0 \<le> net" using paid(5) by auto
  have "po_net_coins p \<le> net"
    using max_money_nonneg(3) [of "net - sum_offline_topups d t (Some w) (Some now)"] topups_nonneg [OF ok(1), of t "Some w" "Some now"] fn(3)
    unfolding paid(8) by linarith
  then have p: "0 \<le> po_net_coins p" "0 \<le> po_platform_fee_coins p" "po_net_coins p + po_platform_fee_coins p \<le> ?sum"
    using paid(7,12) fn gross(3) by simp_all
  have cs: "charging_sessions d' = update_where (unsettled t) (\<lambda>s. s\<lparr>cs_settled_payout_id := Some ?i\<rparr>) (charging_sessions d)"
    and ps: "payouts d' = payouts d @ [p]" using paid(9,17) by simp_all
  have old: "q \<in> set (payouts d) \<Longrightarrow> po_id q \<noteq> ?i" for q using fresh_id_notin [of po_id "payouts d"] by (metis imageI)
  show ?thesis
    unfolding books_ok_iff
  proof (intro conjI)
    show "distinct (map po_id (payouts d'))"
      unfolding ps using ok(1) paid(9) by (intro distinct_insert_fresh) (simp_all add: books_ok_iff)
    show "\<forall>s \<in> set (charging_sessions d'). 0 \<le> cs_coins_spent s"
      using ok(1) by (auto simp: cs set_update_where books_ok_iff)
    show "\<forall>s \<in> set (filter claimed (charging_sessions d')). finished s \<and> (\<exists>p \<in> set (payouts d').
           cs_settled_payout_id s = Some (po_id p) \<and> live_payout p \<and> po_tenant_id p = cs_tenant_id s)"
    proof
      fix s
      assume "s \<in> set (filter claimed (charging_sessions d'))"
      then obtain r where r: "r \<in> set (charging_sessions d)" "claimed s"
        "s = (if unsettled t r then r\<lparr>cs_settled_payout_id := Some ?i\<rparr> else r)" by (auto simp: cs set_update_where)
      show "finished s \<and> (\<exists>p \<in> set (payouts d'). cs_settled_payout_id s = Some (po_id p) \<and> live_payout p \<and> po_tenant_id p = cs_tenant_id s)"
      proof (cases "unsettled t r")
        case True
        then show ?thesis using r paid(9-11) by (auto simp: ps unsettled_def finished_def live_payout_def)
      next
        case False
        then show ?thesis using r ok(1) unfolding books_ok_iff ps by fastforce
      qed
    qed
    show "\<forall>q \<in> set (payouts d'). 0 \<le> po_net_coins q \<and> 0 \<le> po_platform_fee_coins q
           \<and> (live_payout q \<longrightarrow> po_net_coins q + po_platform_fee_coins q \<le> claimed_sum d' (po_id q))"
    proof
      fix q
      assume q: "q \<in> set (payouts d')"
      show "0 \<le> po_net_coins q \<and> 0 \<le> po_platform_fee_coins q
           \<and> (live_payout q \<longrightarrow> po_net_coins q + po_platform_fee_coins q \<le> claimed_sum d' (po_id q))"
      proof (cases "q = p")
        case True
        with p claimed_sum_request(1) [OF ok(1) cs] show ?thesis by (simp add: paid(9))
      next
        case False
        with q have "q \<in> set (payouts d)" by (simp add: ps)
        then show ?thesis
          using books_okD(4) [OF ok(1)] claimed_sum_request(2) [OF ok(1) cs old] by simp
      qed
    qed
    have fresh: "\<not> (po_status q = PO_REQUESTED \<and> po_tenant_id q = po_tenant_id p)" if "q \<in> set (payouts d)" for q
      using paid(3,10) that by (auto simp: exists_row_iff)
    show "one_pending (payouts d')" unfolding ps by (rule one_pending_snoc [OF books_okD(5) [OF ok(1)] fresh])
    show "\<forall>r \<in> set (disputes d'). 0 \<le> refund_of r" "\<forall>r \<in> set (offline_topups d'). 0 \<le> ot_amount_coins r"
      using books_okD(6,7) [OF ok(1)] by (simp_all add: paid(17))
  qed
qed

text \<open>A pending payout leaves that state: it is paid, or cancelled and its sessions are released.\<close>

lemma books_ok_resolve:
  assumes ok: "books_ok d" and p: "row_by po_id i (payouts d) = Some p" "po_status p = PO_REQUESTED"
    and ps: "payouts d' = update_where (\<lambda>p. po_id p = i) f (payouts d)"
    and f: "\<And>q. po_id (f q) = po_id q \<and> po_tenant_id (f q) = po_tenant_id q \<and> po_net_coins (f q) = po_net_coins q
              \<and> po_platform_fee_coins (f q) = po_platform_fee_coins q \<and> po_status (f q) = st" "st \<noteq> PO_REQUESTED"
    and cs: "\<And>s. s \<in> set (charging_sessions d') \<Longrightarrow> 0 \<le> cs_coins_spent s"
      "\<And>s. s \<in> set (filter claimed (charging_sessions d')) \<Longrightarrow> s \<in> set (filter claimed (charging_sessions d)) \<and> (st = PO_CANCELLED \<longrightarrow> cs_settled_payout_id s \<noteq> Some i)"
      "\<And>j. st = PO_CANCELLED \<longrightarrow> j \<noteq> i \<Longrightarrow> claimed_sum d' j = claimed_sum d j"
    and rest: "disputes d' = disputes d" "offline_topups d' = offline_topups d"
  shows "books_ok d'"
proof -
  let ?f = "\<lambda>q. if po_id q = i then f q else q"
  note D = books_okD [OF ok]
  have q: "q = p" if "q \<in> set (payouts d)" "po_id q = i" for q
    using row_by_in_set [OF D(1) that(1)] p(1) that(2) by simp
  have g: "po_id (?f q) = po_id q" "po_tenant_id (?f q) = po_tenant_id q" "po_net_coins (?f q) = po_net_coins q"
    "po_platform_fee_coins (?f q) = po_platform_fee_coins q" "po_status (?f q) = PO_REQUESTED \<Longrightarrow> po_status q = PO_REQUESTED" for q
    using f by (auto split: if_splits)
  have live: "live_payout (?f q) \<longleftrightarrow> live_payout q \<and> (st = PO_CANCELLED \<longrightarrow> po_id q \<noteq> i)" if "q \<in> set (payouts d)" for q
    using q [OF that] p(2) f by (auto simp: live_payout_def)
  have mem: "set (payouts d') = ?f ` set (payouts d)" by (simp add: ps set_update_where)
  show ?thesis
    unfolding books_ok_iff
  proof (intro conjI ballI)
    show "distinct (map po_id (payouts d'))" using D(1) f by (simp add: ps map_update_where)
  next
    fix s
    assume s: "s \<in> set (filter claimed (charging_sessions d'))"
    then obtain x where "finished s" "x \<in> set (payouts d)" "cs_settled_payout_id s = Some (po_id x)" "live_payout x"
        "po_tenant_id x = cs_tenant_id s" using D(3) cs(2) by blast
    moreover from this have "live_payout (?f x)" using cs(2) [OF s] live by blast
    ultimately show "finished s" "\<exists>p \<in> set (payouts d'). cs_settled_payout_id s = Some (po_id p) \<and> live_payout p \<and> po_tenant_id p = cs_tenant_id s"
      unfolding mem using g(1,2) by (blast, metis (mono_tags, lifting) imageI)
  next
    fix y
    assume "y \<in> set (payouts d')"
    then obtain x where x: "x \<in> set (payouts d)" "y = ?f x" unfolding mem by blast
    then show "0 \<le> po_net_coins y" "0 \<le> po_platform_fee_coins y" using D(4) g(3,4) by simp_all
    show "live_payout y \<longrightarrow> po_net_coins y + po_platform_fee_coins y \<le> claimed_sum d' (po_id y)"
    proof
      assume "live_payout y"
      then have l: "live_payout x" "st = PO_CANCELLED \<longrightarrow> po_id x \<noteq> i" using live [OF x(1)] unfolding x(2) by blast+
      moreover note cs(3) [OF l(2)]
      ultimately have "live_payout x" "claimed_sum d' (po_id x) = claimed_sum d (po_id x)" by blast+
      then show "po_net_coins y + po_platform_fee_coins y \<le> claimed_sum d' (po_id y)"
        using D(4) [OF x(1)] unfolding x(2) g(1,3,4) by metis
    qed
  next
    have "one_pending (map ?f (payouts d))"
      unfolding one_pending_iff
    proof (intro ballI impI)
      fix y z
      assume "y \<in> set (map ?f (payouts d))" "z \<in> set (map ?f (payouts d))"
        and pend: "po_status y = PO_REQUESTED \<and> po_status z = PO_REQUESTED \<and> po_tenant_id y = po_tenant_id z"
      then obtain y' z' where yz: "y' \<in> set (payouts d)" "y = ?f y'" "z' \<in> set (payouts d)" "z = ?f z'" by auto
      have "po_status y' = PO_REQUESTED" "po_status z' = PO_REQUESTED" using pend g(5) unfolding yz(2,4) by blast+
      moreover have "po_tenant_id y' = po_tenant_id z'" using pend unfolding yz(2,4) g(2) by blast
      ultimately have "po_id y' = po_id z'" using D(5) yz(1,3) unfolding one_pending_iff by blast
      then show "po_id y = po_id z" unfolding yz(2,4) g(1) .
    qed
    then show "one_pending (payouts d')" by (simp add: ps update_where_def)
  next
    show "\<And>s. s \<in> set (charging_sessions d') \<Longrightarrow> 0 \<le> cs_coins_spent s" by (fact cs(1))
    show "\<And>r. r \<in> set (disputes d') \<Longrightarrow> 0 \<le> refund_of r" unfolding rest by (fact D(6))
    show "\<And>r. r \<in> set (offline_topups d') \<Longrightarrow> 0 \<le> ot_amount_coins r" unfolding rest by (fact D(7))
  qed
qed

lemma mark_paid_cases:
  assumes "cpo_mark_payout_paid now d i user = (d', res)"
  obtains (refused) err where "d' = d" "res = Inl err"
  | (paid) p where "us_role user = ADMIN" "row_by po_id i (payouts d) = Some p" "po_status p = PO_REQUESTED"
      "d' = upd_payout i (\<lambda>p. p\<lparr>po_status := PO_PAID, po_paid_at := Some now\<rparr>) d"
      "res = Inr (p\<lparr>po_status := PO_PAID, po_paid_at := Some now\<rparr>)"
  using assms
  by (cases "us_role user"; cases "row_by po_id i (payouts d)")
     (auto simp: cpo_mark_payout_paid_def require_role_def Let_def split: if_splits)

lemma cancel_payout_cases:
  assumes "cpo_cancel_payout d i user = (d', res)"
  obtains (refused) err where "d' = d" "res = Inl err"
  | (cancelled) p where "row_by po_id i (payouts d) = Some p" "po_status p = PO_REQUESTED"
      "us_role user = ADMIN \<or> us_tenant_id user = Some (po_tenant_id p)" "po_id p = i"
      "d' = upd_payout i (\<lambda>p. p\<lparr>po_status := PO_CANCELLED\<rparr>)
              (d\<lparr>charging_sessions := update_where (\<lambda>s. cs_settled_payout_id s = Some i)
                               (\<lambda>s. s\<lparr>cs_settled_payout_id := None\<rparr>) (charging_sessions d)\<rparr>)"
      "res = Inr (p\<lparr>po_status := PO_CANCELLED\<rparr>)"
proof (cases "row_by po_id i (payouts d)")
  case None
  then show ?thesis using assms refused by (auto simp: cpo_cancel_payout_def split: sum.splits)
next
  case (Some p)
  have i: "po_id p = i" using row_by_SomeD [OF Some] by simp
  show ?thesis
  proof (cases "us_role user \<noteq> DRIVER \<and> (us_role user = ADMIN \<or> us_tenant_id user = Some (po_tenant_id p)) \<and> po_status p = PO_REQUESTED")
    case True
    then have "require_role [''cpo'', ''admin''] user = Inr user" by (cases "us_role user") (auto simp: require_role_def)
    then show ?thesis using assms Some True i by (intro cancelled [of p]) (auto simp: cpo_cancel_payout_def Let_def)
  next
    case False
    then have "\<exists>err. (d', res) = (d, Inl err)" using assms Some
      by (cases "us_role user") (auto simp: cpo_cancel_payout_def require_role_def Let_def split: if_splits)
    then show ?thesis using refused by blast
  qed
qed

lemma books_ok_mark_paid:
  assumes "books_ok d" "cpo_mark_payout_paid now d i user = (d', res)"
  shows "books_ok d'"
  using assms(2)
proof (cases rule: mark_paid_cases)
  case (paid p)
  show ?thesis
    by (rule books_ok_resolve [OF assms(1) paid(2,3), where f = "\<lambda>p. p\<lparr>po_status := PO_PAID, po_paid_at := Some now\<rparr>" and st = PO_PAID])
       (use books_okD(2) [OF assms(1)] in \<open>auto simp: paid(4) upd_payout_def claimed_sum_def\<close>)
qed (use assms(1) in simp)

lemma books_ok_cancel:
  assumes "books_ok d" "cpo_cancel_payout d i user = (d', res)"
  shows "books_ok d'"
  using assms(2)
proof (cases rule: cancel_payout_cases)
  case (cancelled p)
  have "claimed_sum d' j = claimed_sum d j" if "j \<noteq> i" for j
    unfolding claimed_sum_def cancelled(5) upd_payout_def using that
    by (auto simp: sum_where_update intro!: sum_where_cong)
  then show ?thesis
    by (intro books_ok_resolve [OF assms(1) cancelled(1,2), where f = "\<lambda>p. p\<lparr>po_status := PO_CANCELLED\<rparr>" and st = PO_CANCELLED])
       (use books_okD(2) [OF assms(1)] in \<open>auto simp: cancelled(5) upd_payout_def set_update_where claimed_def\<close>)
qed (use assms(1) in simp)

lemma fresh_books_ok: "fresh_books d \<Longrightarrow> books_ok d"
  unfolding books_ok_iff fresh_books_def list_all_iff by (auto simp: one_pending_def)

lemma books_ok_step:
  assumes "payout_step cfg d d'" "fee_ok cfg" "books_ok d"
  shows "books_ok d'"
  using assms(1)
proof (cases rule: payout_stepE)
  case (request now user)
  then show ?thesis using books_ok_request [OF assms(3,2)] by (metis prod.collapse)
next
  case (mark_paid now payout_id user)
  then show ?thesis using books_ok_mark_paid [OF assms(3)] by (metis prod.collapse)
next
  case (cancel payout_id user)
  then show ?thesis using books_ok_cancel [OF assms(3)] by (metis prod.collapse)
next
  case activity
  then show ?thesis by (rule books_ok_activity [OF assms(3)])
qed

interpretation books: transition_invariant fresh_books "payout_step cfg" "\<lambda>d. fee_ok cfg \<longrightarrow> books_ok d" for cfg
  by unfold_locales (auto intro: fresh_books_ok books_ok_step)

text \<open>Rows keyed by distinct ids are counted once.\<close>

lemma keyed_sums_le:
  fixes f :: "'a \<Rightarrow> int"
  assumes "distinct ids" "\<And>r. r \<in> set rows \<Longrightarrow> 0 \<le> f r"
    "\<And>r i. r \<in> set rows \<Longrightarrow> key r = Some i \<Longrightarrow> i \<in> set ids \<Longrightarrow> P r"
  shows "sum_list (map (\<lambda>i. sum_where f (\<lambda>r. key r = Some i) rows) ids) \<le> sum_where f P rows"
  using assms(2,3)
proof (induction rows)
  case Nil
  then show ?case by (simp add: sum_list_0)
next
  case (Cons r rows)
  have one: "sum_list (map (\<lambda>i. if key r = Some i then f r else 0) is) = (if \<exists>i \<in> set is. key r = Some i then f r else 0)" if "distinct is" for "is"
    using that by (induction "is") auto
  have "sum_list (map (\<lambda>i. if key r = Some i then f r else 0) ids) \<le> (if P r then f r else 0)"
    unfolding one [OF assms(1)] using Cons.prems by auto
  moreover have "sum_list (map (\<lambda>i. sum_where f (\<lambda>r. key r = Some i) rows) ids) \<le> sum_where f P rows"
    using Cons by simp
  moreover have "(\<lambda>i. sum_where f (\<lambda>r. key r = Some i) (r # rows))
      = (\<lambda>i. (if key r = Some i then f r else 0) + sum_where f (\<lambda>r. key r = Some i) rows)" by auto
  ultimately show ?case by (simp add: sum_list_addf)
qed

lemma books_ok_net_le:
  assumes "books_ok d"
  shows "sum_where po_net_coins (\<lambda>p. po_tenant_id p = t \<and> live_payout p) (payouts d)
       \<le> sum_where cs_coins_spent (\<lambda>s. cs_tenant_id s = t \<and> finished s) (charging_sessions d)"
proof -
  let ?P = "\<lambda>p. po_tenant_id p = t \<and> live_payout p"
  let ?ps = "filter ?P (payouts d)"
  note D = books_okD [OF assms]
  have "sum_where po_net_coins ?P (payouts d) = sum_list (map po_net_coins ?ps)" by (simp add: sum_where_def)
  also have "\<dots> \<le> sum_list (map (\<lambda>p. claimed_sum d (po_id p)) ?ps)"
    using D(4) by (intro sum_list_mono) fastforce
  also have "\<dots> = sum_list (map (\<lambda>i. sum_where cs_coins_spent (\<lambda>s. cs_settled_payout_id s = Some i) (charging_sessions d)) (map po_id ?ps))"
    by (simp add: claimed_sum_def comp_def)
  also have "\<dots> \<le> sum_where cs_coins_spent (\<lambda>s. cs_tenant_id s = t \<and> finished s) (charging_sessions d)"
  proof (rule keyed_sums_le)
    show "distinct (map po_id ?ps)" using D(1) by (simp add: distinct_map_filter)
    fix s i
    assume s: "s \<in> set (charging_sessions d)" "cs_settled_payout_id s = Some i" "i \<in> set (map po_id ?ps)"
    then obtain p where p: "p \<in> set (payouts d)" "po_id p = i" "po_tenant_id p = t" by auto
    have "s \<in> set (filter claimed (charging_sessions d))" using s by (simp add: claimed_def)
    with D(3) obtain q where q: "finished s" "q \<in> set (payouts d)" "po_id q = i" "po_tenant_id q = cs_tenant_id s"
      using s(2) by (metis option.inject)
    have "p = q" by (rule distinct_key_eq [OF D(1) p(1) q(2)]) (simp add: p(2) q(3))
    then show "cs_tenant_id s = t \<and> finished s" using p q by simp
  qed (rule D(2))
  finally show ?thesis .
qed

text \<open>
  C6. An operator is never paid twice for the same energy. From books with no payout, after any
  sequence of payout requests, confirmations and cancellations interleaved with session activity,
  and with a platform fee between 0 and 100 percent, the net amounts of an operator's payouts that
  are not cancelled add up to no more than what its finished sessions were charged, each of these
  payouts and its fee are covered by the sessions it claimed, every claimed session belongs to
  exactly one of them and is of the same operator, and at most one is pending.
\<close>

theorem never_paid_twice:
  assumes "fee_ok cfg" "reachable fresh_books (payout_step cfg) d"
  shows "sum_where po_net_coins (\<lambda>p. po_tenant_id p = t \<and> live_payout p) (payouts d)
           \<le> sum_where cs_coins_spent (\<lambda>s. cs_tenant_id s = t \<and> finished s) (charging_sessions d)
       \<and> (\<forall>p \<in> set (payouts d). live_payout p \<longrightarrow> po_net_coins p + po_platform_fee_coins p \<le> claimed_sum d (po_id p))
       \<and> (\<forall>s \<in> set (charging_sessions d). claimed s \<longrightarrow> finished s
            \<and> (\<exists>!p. p \<in> set (payouts d) \<and> cs_settled_payout_id s = Some (po_id p) \<and> live_payout p \<and> po_tenant_id p = cs_tenant_id s))
       \<and> one_pending (payouts d)"
proof -
  have ok: "books_ok d" using books.inv_reachable [OF assms(2)] assms(1) by blast
  note D = books_okD [OF ok]
  have "finished s \<and> (\<exists>!p. p \<in> set (payouts d) \<and> cs_settled_payout_id s = Some (po_id p) \<and> live_payout p \<and> po_tenant_id p = cs_tenant_id s)"
    if "s \<in> set (charging_sessions d)" "claimed s" for s
  proof -
    have s: "s \<in> set (filter claimed (charging_sessions d))" using that by simp
    obtain p where p: "p \<in> set (payouts d)" "cs_settled_payout_id s = Some (po_id p)" "live_payout p" "po_tenant_id p = cs_tenant_id s"
      using D(3) [OF s] by blast
    have "q = p" if "q \<in> set (payouts d)" "cs_settled_payout_id s = Some (po_id q)" for q
      using distinct_key_eq [OF D(1) that(1) p(1)] that(2) unfolding p(2) by (metis option.inject)
    then show ?thesis using D(3) [OF s] p by blast
  qed
  then show ?thesis using books_ok_net_le [OF ok] D(4,5) by blast
qed

lemma never_paid_twice_witness:
  "fee_ok default_config \<and> reachable fresh_books (payout_step default_config) (fst (cpo_request_payout default_config 200 sample_ledger sample_operator))
   \<and> map po_net_coins (payouts (fst (cpo_request_payout default_config 200 sample_ledger sample_operator))) = [9000]
   \<and> sum_where po_net_coins (\<lambda>p. po_tenant_id p = 1 \<and> live_payout p) (payouts (fst (cpo_request_payout default_config 200 sample_ledger sample_operator)))
       \<le> sum_where cs_coins_spent (\<lambda>s. cs_tenant_id s = 1 \<and> finished s)
           (charging_sessions (fst (cpo_request_payout default_config 200 sample_ledger sample_operator)))"
proof -
  have fee: "fee_ok default_config" by code_simp
  have "fresh_books sample_ledger" by code_simp
  then have r: "reachable fresh_books (payout_step default_config) (fst (cpo_request_payout default_config 200 sample_ledger sample_operator))"
    by (rule reachable.extend [OF reachable.start]) (rule payout_step.request)
  moreover have "map po_net_coins (payouts (fst (cpo_request_payout default_config 200 sample_ledger sample_operator))) = [9000]" by code_simp
  ultimately show ?thesis using fee never_paid_twice [OF fee r, of 1] by blast
qed

text \<open>The preview and the request read the same sums.\<close>

lemma refunds_marked:
  "sum_approved_refund_coins (fst (mark_unsettled_sessions_and_sum_gross d t i w now)) t a b = sum_approved_refund_coins d t a b"
proof -
  have "finished (if unsettled t s then s\<lparr>cs_settled_payout_id := Some i\<rparr> else s) = finished s"
    "cs_tenant_id (if unsettled t s then s\<lparr>cs_settled_payout_id := Some i\<rparr> else s) = cs_tenant_id s" for s
    by (simp_all add: finished_def)
  then have "refund_counts (fst (mark_unsettled_sessions_and_sum_gross d t i w now)) t a b = refund_counts d t a b"
    by (auto simp: refund_counts_def mark_unsettled_sessions_and_sum_gross_def Let_def row_by_update_where fun_eq_iff split: option.splits)
  then show ?thesis
    by (simp add: sum_approved_refund_coins_def) (simp add: mark_unsettled_sessions_and_sum_gross_def Let_def)
qed

text \<open>
  C17. The earnings page and the payout agree. When a payout request succeeds, its gross amount,
  its platform fee and its net amount are exactly the unsettled gross, the fee on it and the
  available pool that the earnings summary reports on the same books at the same instant, its period
  runs from the reported watermark to that instant, and after it the summary reports nothing
  unsettled.
\<close>

theorem payout_matches_earnings:
  assumes "cpo_request_payout cfg now d user = (d', Inr p)"
    and "cpo_earnings cfg now d user = Inr summary"
  shows "po_gross_coins p = es_unsettled_gross_coins summary
       \<and> po_platform_fee_coins p = es_unsettled_platform_fee_coins summary
       \<and> po_net_coins p = es_available_pool_coins summary \<and> 0 < es_available_pool_coins summary
       \<and> po_period_start p = es_watermark summary \<and> po_period_end p = now
       \<and> exists_row (unsettled (po_tenant_id p)) (charging_sessions d') = False"
  using assms(1)
proof (cases rule: request_payout_cases)
  case (paid t w fee net gross p')
  have p: "p' = p" using paid(6) by simp
  have g: "sum_unsettled_session_coins now d t = gross"
    unfolding paid(4) refunds_marked paid(2) by (simp add: sum_unsettled_session_coins_def Let_def)
  have cs: "charging_sessions d' = update_where (unsettled t) (\<lambda>s. s\<lparr>cs_settled_payout_id := Some (po_id p')\<rparr>) (charging_sessions d)"
    unfolding paid(17) by simp
  have "\<not> unsettled t s" if "s \<in> set (charging_sessions d')" for s
    using that unfolding cs set_update_where by (elim imageE) (simp add: unsettled_def)
  then have none: "exists_row (unsettled t) (charging_sessions d') = False" by (simp add: exists_row_iff)
  obtain lf ln where life: "compute_fee_and_net cfg (sum_completed_session_coins d t None None) = Inr (lf, ln)"
    using assms(2) unfolding cpo_earnings_def paid(16) tenant_earnings_summary_def Let_def
    by (cases "compute_fee_and_net cfg (sum_completed_session_coins d t None None)") auto
  have "es_unsettled_gross_coins summary = gross \<and> es_unsettled_platform_fee_coins summary = fee
      \<and> es_available_pool_coins summary = to_money_m (max (net - sum_offline_topups d t (Some w) (Some now)) ZERO_MONEY)
      \<and> es_watermark summary = w"
    using assms(2) by (auto simp: cpo_earnings_def paid(16) tenant_earnings_summary_def Let_def life g paid(5) simp flip: paid(2))
  then show ?thesis using paid(7,8,10,12-15) none unfolding p by simp
qed simp

lemma payout_matches_earnings_witness:
  "\<exists>d' p summary. cpo_request_payout default_config 200 sample_ledger sample_operator = (d', Inr p)
     \<and> cpo_earnings default_config 200 sample_ledger sample_operator = Inr summary
     \<and> po_net_coins p = es_available_pool_coins summary \<and> es_available_pool_coins summary = 9000"
proof -
  have "case cpo_request_payout default_config 200 sample_ledger sample_operator of (_, Inl _) \<Rightarrow> False | (_, Inr p) \<Rightarrow> po_net_coins p = 9000"
    by code_simp
  then obtain d' p where r: "cpo_request_payout default_config 200 sample_ledger sample_operator = (d', Inr p)" by (rule response_caseE)
  have "case cpo_earnings default_config 200 sample_ledger sample_operator of Inl _ \<Rightarrow> False | Inr summary \<Rightarrow> es_available_pool_coins summary = 9000"
    by code_simp
  then obtain summary where "cpo_earnings default_config 200 sample_ledger sample_operator = Inr summary" "es_available_pool_coins summary = 9000"
    by (rule sum_caseE)
  then show ?thesis using payout_matches_earnings [OF r] r by blast
qed

lemma earnings_cong:
  assumes "charging_sessions d' = charging_sessions d" "disputes d' = disputes d" "offline_topups d' = offline_topups d"
    "tenant_settlement_watermark d' t = tenant_settlement_watermark d t"
  shows "tenant_earnings_summary cfg now d' t = tenant_earnings_summary cfg now d t"
  unfolding tenant_earnings_summary_def sum_completed_session_coins_def sum_unsettled_session_coins_def sum_offline_topups_def
    assms(1,3,4) sum_approved_refund_cong [OF assms(1,2)] ..

text \<open>
  C24. A cancelled request leaves no trace in the books. When an operator's payout request is
  cancelled again, every session is back in the state it had before the request, the settlement
  watermark is the old one, and so the earnings summary of that operator at any later instant is
  what it would have been without the request.
\<close>

theorem payout_cancel_restores:
  assumes "books_ok d" "cpo_request_payout cfg now d user = (d1, Inr p)" "cpo_cancel_payout d1 (po_id p) user = (d2, Inr q)"
  shows "charging_sessions d2 = charging_sessions d \<and> payouts d2 = payouts d @ [p\<lparr>po_status := PO_CANCELLED\<rparr>]
       \<and> (\<forall>t later. tenant_settlement_watermark d2 t = tenant_settlement_watermark d t
             \<and> tenant_earnings_summary cfg later d2 t = tenant_earnings_summary cfg later d t)"
  using assms(2)
proof (cases rule: request_payout_cases)
  case (paid t w fee net gross p')
  have p: "p' = p" using paid(6) by simp
  note fresh = unclaimed_fresh [OF assms(1)]
  have old: "r \<in> set (payouts d) \<Longrightarrow> po_id r \<noteq> po_id p" for r
    using fresh_id_notin [of po_id "payouts d"] paid(9) p by (metis imageI)
  from assms(3) have "charging_sessions d2 = charging_sessions d \<and> payouts d2 = payouts d @ [p\<lparr>po_status := PO_CANCELLED\<rparr>]
      \<and> disputes d2 = disputes d \<and> offline_topups d2 = offline_topups d"
  proof (cases rule: cancel_payout_cases)
    case (cancelled q')
    have "(if unsettled t s then s\<lparr>cs_settled_payout_id := Some (po_id p)\<rparr> else s)\<lparr>cs_settled_payout_id := None\<rparr> = s"
      if "unsettled t s" for s using that by (simp add: unsettled_def)
    then have "update_where (\<lambda>s. cs_settled_payout_id s = Some (po_id p)) (\<lambda>s. s\<lparr>cs_settled_payout_id := None\<rparr>)
        (update_where (unsettled t) (\<lambda>s. s\<lparr>cs_settled_payout_id := Some (po_id p)\<rparr>) (charging_sessions d)) = charging_sessions d"
      using fresh unfolding update_where_def map_map by (intro map_idI) (auto simp: paid(9)[unfolded p])
    moreover have "update_where (\<lambda>r. po_id r = po_id p) (\<lambda>p. p\<lparr>po_status := PO_CANCELLED\<rparr>) (payouts d) = payouts d"
      using old by (intro update_where_id) blast
    ultimately show ?thesis by (simp add: cancelled(5) paid(17) p upd_payout_def)
  qed simp
  moreover from this have w: "tenant_settlement_watermark d2 t' = tenant_settlement_watermark d t'" for t'
    by (simp add: tenant_settlement_watermark_def)
  ultimately show ?thesis using earnings_cong [of d2 d] by blast
qed simp

lemma payout_cancel_restores_witness:
  "\<exists>d1 p d2 q. cpo_request_payout default_config 200 sample_ledger sample_operator = (d1, Inr p)
     \<and> cpo_cancel_payout d1 (po_id p) sample_operator = (d2, Inr q)
     \<and> charging_sessions d2 = charging_sessions sample_ledger \<and> charging_sessions d1 \<noteq> charging_sessions sample_ledger"
proof -
  have "case cpo_request_payout default_config 200 sample_ledger sample_operator of
          (_, Inl _) \<Rightarrow> False
        | (d1, Inr p) \<Rightarrow> map cs_settled_payout_id (charging_sessions d1) \<noteq> map cs_settled_payout_id (charging_sessions sample_ledger)
            \<and> (case cpo_cancel_payout d1 (po_id p) sample_operator of (_, Inl _) \<Rightarrow> False | (_, Inr _) \<Rightarrow> True)" by code_simp
  then obtain d1 p where "cpo_request_payout default_config 200 sample_ledger sample_operator = (d1, Inr p)"
    "map cs_settled_payout_id (charging_sessions d1) \<noteq> map cs_settled_payout_id (charging_sessions sample_ledger)
      \<and> (case cpo_cancel_payout d1 (po_id p) sample_operator of (_, Inl _) \<Rightarrow> False | (_, Inr _) \<Rightarrow> True)" by (rule response_caseE)
  from this(1) conjunct1 [OF this(2)] conjunct2 [OF this(2)] have r1: "cpo_request_payout default_config 200 sample_ledger sample_operator = (d1, Inr p)"
    "map cs_settled_payout_id (charging_sessions d1) \<noteq> map cs_settled_payout_id (charging_sessions sample_ledger)"
    "case cpo_cancel_payout d1 (po_id p) sample_operator of (_, Inl _) \<Rightarrow> False | (_, Inr _) \<Rightarrow> True"
    by this+
  from r1(3) obtain d2 q where r2: "cpo_cancel_payout d1 (po_id p) sample_operator = (d2, Inr q)" by (rule response_caseE)
  have "books_ok sample_ledger" by code_simp
  then show ?thesis using payout_cancel_restores [OF _ r1(1) r2] r1(1,2) r2 by metis
qed

text \<open>Stopping a session and selling a cash top-up are session activity.\<close>

lemma finalize_is_activity:
  assumes ok: "books_ok (w_db w)" "money_ok (w_db w)" and s: "find_session (w_db w) i u = Some s" "cs_status s = ACTIVE" "session_sane cfg s"
    and run: "finalize_charging_session cfg now w i u reason = (w', Inr (Some r))"
  shows "session_activity (w_db w) (w_db w')"
proof -
  note D = books_okD [OF ok(1)]
  have mem: "s \<in> set (charging_sessions (w_db w))" "cs_id s = i" using find_session_SomeD [OF s(1)] by auto
  have idle: "\<not> claimed s" using D(3) [of s] mem s(2) by (auto simp: finished_def)
  have "distinct (map cs_id (charging_sessions (w_db w)))" using ok(2) by (simp add: money_ok_def keys_ok_def)
  then have same: "x \<in> set (charging_sessions (w_db w)) \<Longrightarrow> cs_id x = i \<Longrightarrow> x = s" for x
    using row_by_in_set [of cs_id] mem by (metis option.inject)
  obtain plug q b where "0 \<le> q"
    and w': "w' = after_settlement cfg ((emit [Plug_Off (pl_gateway_id plug) (pl_id plug)] w)\<lparr>w_db := settled_db now (w_db w) s q b\<rparr>) s plug reason"
    using finalize_result [OF ok(2) s, where now = now and reason = reason] run by (metis prod.inject)
  have cs: "charging_sessions (w_db w') = update_where (\<lambda>r. cs_id r = i)
      (\<lambda>r. r\<lparr>cs_status := COMPLETED, cs_coins_spent := q, cs_ended_at := Some now\<rparr>) (charging_sessions (w_db w))"
    by (simp add: w' settled_db_def mem(2) upd_session_def)
  have "filter claimed (update_where (\<lambda>r. cs_id r = i) (\<lambda>r. r\<lparr>cs_status := COMPLETED, cs_coins_spent := q, cs_ended_at := Some now\<rparr>) rows)
      = filter claimed rows" if "\<And>x. x \<in> set rows \<Longrightarrow> cs_id x = i \<Longrightarrow> \<not> claimed x" for rows
    using that by (induction rows) (auto simp: claimed_def)
  then have "filter claimed (charging_sessions (w_db w')) = filter claimed (charging_sessions (w_db w))"
    unfolding cs using same idle by blast
  moreover have "list_all (\<lambda>s. 0 \<le> cs_coins_spent s) (charging_sessions (w_db w'))"
    unfolding cs list_all_iff set_update_where using D(2) \<open>0 \<le> q\<close> by auto
  moreover have "payouts (w_db w') = payouts (w_db w)" "disputes (w_db w') = disputes (w_db w)" "offline_topups (w_db w') = offline_topups (w_db w)"
    by (simp_all add: w' settled_db_def)
  ultimately show ?thesis using D(6,7) unfolding session_activity_def list_all_iff by metis
qed

lemma create_topup_is_activity:
  assumes "books_ok (w_db w)"
  shows "session_activity (w_db w) (w_db (fst (cpo_create_topup cfg tx_started now w user email amount)))"
proof -
  note D = books_okD [OF assms]
  have refl: "session_activity (w_db w) (w_db w)" using D(2,6,7) unfolding session_activity_def list_all_iff by blast
  have sold: "session_activity (w_db w) (add_ledger row (d1\<lparr>offline_topups := offline_topups d1 @ [topup]\<rparr>))"
    if "credit_wallet (w_db w) i a = Inr (d1, Some b)" "0 \<le> ot_amount_coins topup" for i a d1 b row topup
    using D(2,6,7) that(2) unfolding session_activity_def list_all_iff credit_wallet_SomeD(4) [OF that(1)] by auto
  show ?thesis
    by (auto simp: cpo_create_topup_def Let_def refl ZERO_MONEY_def intro!: sold
        split: sum.split list.split option.split prod.split)
qed

text \<open>
  A race between a top-up and a payout. The transaction of the top-up starts, and waits for the
  tenant lock that a payout request holds. The row is then stamped with the start of its transaction,
  before the watermark the payout left: the top-up is sold out of the pool, and the pool is never
  reduced by it, so the next payout pays the same earnings again.
\<close>

lemma topup_stamp_race:
  assumes run: "cpo_create_topup cfg tx_started now w user email amount = (w', Inr topup)"
    and tenant: "us_tenant_id user = Some t" and late: "tx_started < tenant_settlement_watermark (w_db w) t"
  shows "0 < ot_amount_coins topup \<and> tenant_earnings_summary cfg later (w_db w') t = tenant_earnings_summary cfg later (w_db w) t"
proof -
  let ?d = "w_db w"
  have t: "operator_tenant user = Inr t"
    using run tenant by (cases "operator_tenant user") (auto simp: cpo_create_topup_def Let_def dest: operator_tenant_InrD)
  obtain row d1 i a b where c: "credit_wallet ?d i a = Inr (d1, Some b)" and topup: "ot_created_at topup = tx_started" "0 < ot_amount_coins topup"
    and w': "w_db w' = add_ledger row (d1\<lparr>offline_topups := offline_topups d1 @ [topup]\<rparr>)"
    using run t by (auto simp: cpo_create_topup_def Let_def ZERO_MONEY_def split: if_splits list.splits sum.splits option.splits)
  note d1 = credit_wallet_SomeD(4) [OF c]
  have mark: "tenant_settlement_watermark (w_db w') t = tenant_settlement_watermark ?d t"
    unfolding w' d1 by (simp add: tenant_settlement_watermark_def)
  have "sum_offline_topups (w_db w') t (Some (tenant_settlement_watermark ?d t)) (Some later)
      = sum_offline_topups ?d t (Some (tenant_settlement_watermark ?d t)) (Some later)"
    using late topup(1) unfolding w' d1 by (simp add: sum_offline_topups_def in_period_def)
  moreover have "charging_sessions (w_db w') = charging_sessions ?d" "disputes (w_db w') = disputes ?d" unfolding w' d1 by simp_all
  note rows = this sum_approved_refund_cong [OF this]
  ultimately show ?thesis
    using topup(2) unfolding tenant_earnings_summary_def sum_completed_session_coins_def sum_unsettled_session_coins_def mark rows by simp
qed

end
