(* ===== verification/Invoices.thy ===== *)
theory Invoices
  imports Pricing Texts
begin

text \<open>
  GST invoices (\<open>backend/services/invoices.py\<close>): the split of an inclusive total, the number of an
  invoice, issuing one and re-deriving one after a refund.

  The division of two decimals raises when the divisor is zero; the source lets that exception
  through, here it is \<open>DecimalError\<close>.  The insert fails on either unique column, the session or
  the invoice number.  \<open>insert_invoice\<close> is the part that runs under the lock of the tenant row, on
  the database as it is by then; \<open>issue_invoice_for_session\<close> puts the first look in front.
\<close>

subsection \<open>Definitions\<close>

definition gst_rate_pct :: "config \<Rightarrow> decimal" where
  "gst_rate_pct cfg = (case GST_RATE_PCT cfg of None \<Rightarrow> Finite 18 | Some rate \<Rightarrow> rate)"

definition split_gst_inclusive :: "money \<Rightarrow> decimal \<Rightarrow> (money \<times> money) response" where
  "split_gst_inclusive total0 rate_pct =
     (let total_amount = to_money_m total0;
          rate = to_money rate_pct;
          divisor = dctx (1 + dctx (money_dec rate / 100))
      in if divisor = 0 then Inl DecimalError
         else let taxable_value = to_money (Finite (dctx (money_dec total_amount / divisor)));
                  gst_amount = to_money_m (total_amount - taxable_value)
              in Inr (taxable_value, gst_amount))"

text \<open>Year and month of an instant in UTC (proleptic Gregorian calendar, years from March).\<close>

definition utc_year_month :: "timestamp \<Rightarrow> int \<times> int" where
  "utc_year_month instant =
     (let z = instant div 86400000000 + 719468;
          era = z div 146097;
          doe = z mod 146097;
          yoe = (doe - doe div 1460 + doe div 36524 - doe div 146096) div 365;
          doy = doe - (365 * yoe + yoe div 4 - yoe div 100);
          mp = (5 * doy + 2) div 153;
          month = (if mp < 10 then mp + 3 else mp - 9)
      in (yoe + era * 400 + (if month \<le> 2 then 1 else 0), month))"

definition financial_year_label :: "timestamp \<Rightarrow> string" where
  "financial_year_label instant =
     (let (year, month) = utc_year_month instant;
          start_year = (if 4 \<le> month then year else year - 1);
          next_year = show_int (start_year + 1)
      in show_int start_year @ ''-'' @ drop (length next_year - 2) next_year)"

definition invoice_number :: "string option \<Rightarrow> int \<Rightarrow> timestamp \<Rightarrow> int \<Rightarrow> string" where
  "invoice_number prefix tenant_id now sequence =
     (case prefix of None \<Rightarrow> ''INV'' @ show_int tenant_id
                   | Some p \<Rightarrow> if p = [] then ''INV'' @ show_int tenant_id else p)
     @ ''-'' @ financial_year_label now @ ''-'' @ show_padded 5 sequence"

definition get_invoice_by_session :: "db \<Rightarrow> int \<Rightarrow> invoice option" where
  "get_invoice_by_session d session_id = row_by iv_session_id session_id (invoices d)"

definition invoiceable :: "charging_session \<Rightarrow> bool" where
  "invoiceable s \<longleftrightarrow> cs_status s = COMPLETED \<or> cs_status s = PAID"

definition new_invoice ::
  "config \<Rightarrow> timestamp \<Rightarrow> db \<Rightarrow> charging_session \<Rightarrow> tenant \<Rightarrow> money \<Rightarrow> money \<times> money \<Rightarrow> invoice" where
  "new_invoice cfg now d session tenant total_amount split =
     \<lparr>iv_id = fresh_id iv_id (invoices d), iv_tenant_id = cs_tenant_id session,
      iv_session_id = cs_id session, iv_driver_user_id = cs_user_id session,
      iv_invoice_number = invoice_number (tn_invoice_prefix tenant) (cs_tenant_id session) now (tn_next_invoice_seq tenant),
      iv_issued_at = now, iv_amount_coins = total_amount, iv_taxable_value_inr = fst split,
      iv_gst_rate_pct = to_money (gst_rate_pct cfg), iv_gst_amount_inr = snd split, iv_total_inr = total_amount,
      iv_seller_legal_name = tn_legal_name tenant, iv_seller_gstin = tn_gstin tenant,
      iv_energy_kwh = cs_energy_kwh session,
      iv_rate_coins_per_kwh = (case cs_rate_coins_per_kwh session of Some r \<Rightarrow> to_money_m r | None \<Rightarrow> default_rate cfg)\<rparr>"

definition insert_invoice ::
  "config \<Rightarrow> timestamp \<Rightarrow> db \<Rightarrow> charging_session \<Rightarrow> money \<Rightarrow> money \<times> money \<Rightarrow> db \<times> invoice response" where
  "insert_invoice cfg now d session total_amount split =
     (case row_by tn_id (cs_tenant_id session) (tenants d) of
        None \<Rightarrow> (d, Inl (SessionNotInvoiceable ''Tenant not found.''))
      | Some tenant \<Rightarrow>
          let invoice = new_invoice cfg now d session tenant total_amount split
          in if exists_row (\<lambda>r. iv_session_id r = cs_id session \<or> iv_invoice_number r = iv_invoice_number invoice) (invoices d)
             then (case get_invoice_by_session d (cs_id session) of
                     Some winner \<Rightarrow> (d, Inr winner)
                   | None \<Rightarrow> (d, Inl IntegrityError))
             else (d\<lparr>invoices := invoices d @ [invoice],
                     tenants := update_where (\<lambda>t. tn_id t = cs_tenant_id session)
                       (\<lambda>t. t\<lparr>tn_next_invoice_seq := tn_next_invoice_seq t + 1\<rparr>) (tenants d)\<rparr>, Inr invoice))"

definition issue_invoice_for_session :: "config \<Rightarrow> timestamp \<Rightarrow> db \<Rightarrow> int \<Rightarrow> db \<times> invoice response" where
  "issue_invoice_for_session cfg now d session_id =
     (case get_invoice_by_session d session_id of
        Some existing \<Rightarrow> (d, Inr existing)
      | None \<Rightarrow>
          (case row_by cs_id session_id (charging_sessions d) of
             None \<Rightarrow> (d, Inl (SessionNotInvoiceable ''Session not found.''))
           | Some session \<Rightarrow>
               if \<not> invoiceable session then (d, Inl (SessionNotInvoiceable ''Session is not finished.''))
               else let total_amount = to_money_m (cs_coins_spent session)
                    in if total_amount \<le> ZERO_MONEY then (d, Inl (SessionNotInvoiceable ''Session billed nothing.''))
                       else (case split_gst_inclusive total_amount (gst_rate_pct cfg) of
                               Inl err \<Rightarrow> (d, Inl err)
                             | Inr split \<Rightarrow> insert_invoice cfg now d session total_amount split)))"

definition adjust_invoice_for_session_refund :: "db \<Rightarrow> int \<Rightarrow> money \<Rightarrow> money \<Rightarrow> db response" where
  "adjust_invoice_for_session_refund d session_id session_coins_spent cumulative_refund_coins =
     (case get_invoice_by_session d session_id of
        None \<Rightarrow> Inr d
      | Some invoice \<Rightarrow>
          let new_total = to_money_m (max (to_money_m session_coins_spent - to_money_m cumulative_refund_coins) ZERO_MONEY)
          in case split_gst_inclusive new_total (Finite (money_dec (iv_gst_rate_pct invoice))) of
               Inl err \<Rightarrow> Inl err
             | Inr (taxable_value, gst_amount) \<Rightarrow>
                 Inr (d\<lparr>invoices := update_where (\<lambda>r. iv_id r = iv_id invoice)
                   (\<lambda>r. r\<lparr>iv_amount_coins := new_total, iv_taxable_value_inr := taxable_value,
                          iv_gst_amount_inr := gst_amount, iv_total_inr := new_total\<rparr>) (invoices d)\<rparr>))"

text \<open>The books: one invoice per session, and every invoice's tax and value add up to its total_amount.\<close>

definition invoices_ok :: "db \<Rightarrow> bool" where
  "invoices_ok d \<longleftrightarrow> distinct (map iv_id (invoices d)) \<and> distinct (map iv_session_id (invoices d))
     \<and> distinct (map iv_invoice_number (invoices d))
     \<and> list_all (\<lambda>r. iv_taxable_value_inr r + iv_gst_amount_inr r = iv_total_inr r
                    \<and> iv_total_inr r = iv_amount_coins r \<and> 0 \<le> iv_total_inr r \<and> iv_total_inr r \<le> MAX_MONEY) (invoices d)"

definition sample_billed :: db where
  "sample_billed = sample_site\<lparr>charging_sessions :=
     [sample_session\<lparr>cs_status := COMPLETED, cs_coins_spent := 11800\<rparr>]\<rparr>"

subsection \<open>Lemmas\<close>

lemma dctx_tenthousandths:
  assumes "\<bar>n\<bar> \<le> 10 ^ 28"
  shows "dctx (of_int n / 10000) = of_int n / 10000"
proof -
  have "sig_repr 10 28 (- 1000026) (of_int n / 10000)"
    unfolding sig_repr_def
    by (rule exI [of _ n], rule exI [of _ "- 4"]) (use assms in \<open>simp add: power_int_minus field_simps\<close>)
  then show ?thesis by (simp add: dctx_def round_sig_exact)
qed

lemma gst_divisor:
  assumes "0 \<le> r" "r \<le> MAX_MONEY"
  shows "dctx (1 + dctx (money_dec r / 100)) = 1 + money_dec r / 100"
proof -
  have "dctx (of_int r / 10000) = of_int r / 10000" "dctx (of_int (10000 + r) / 10000) = of_int (10000 + r) / 10000"
    using assms by (intro dctx_tenthousandths; simp add: MAX_MONEY_def)+
  moreover have "money_dec r / 100 = of_int r / 10000" "of_int (10000 + r) / 10000 = 1 + of_int r / (10000 :: rat)"
    by (simp_all add: money_dec_def add_divide_distrib)
  ultimately show ?thesis by argo
qed

lemma dctx_money: "\<bar>n\<bar> \<le> 10 ^ 28 \<Longrightarrow> dctx (money_dec n) = money_dec n"
  by (simp add: money_dec_def dctx_hundredths)

lemma money_dec_mono [simp]: "money_dec a \<le> money_dec b \<longleftrightarrow> a \<le> b"
  by (simp add: money_dec_def divide_le_cancel)

text \<open>Rounding an amount between two neighbouring hundredths gives one of them.\<close>

lemma to_money_between:
  assumes "money_dec n \<le> v" "v \<le> money_dec m" "- MAX_MONEY \<le> n" "m \<le> MAX_MONEY"
  shows "n \<le> to_money (Finite v)" "to_money (Finite v) \<le> m"
proof -
  have "n \<le> m" using order_trans [OF assms(1,2)] by simp
  then have "to_money (Finite (money_dec n)) = n" "to_money (Finite (money_dec m)) = m"
    using to_money_m_id [of n] to_money_m_id [of m] assms(3,4) by (simp_all add: to_money_m_def)
  then show "n \<le> to_money (Finite v)" "to_money (Finite v) \<le> m"
    using to_money_mono [OF assms(1)] to_money_mono [OF assms(2)] by simp_all
qed

lemma taxable_bracket:
  assumes "0 \<le> total_amount" "total_amount \<le> MAX_MONEY" "1 \<le> divisor"
  defines "v \<equiv> money_dec total_amount / divisor"
  defines "t \<equiv> to_money (Finite (dctx v))"
  shows "0 \<le> t" "t \<le> total_amount" "\<bar>money_dec t - v\<bar> \<le> 1 / 100"
proof -
  have v: "0 \<le> v" "v \<le> money_dec total_amount"
    using assms(1,3) by (auto simp: v_def money_dec_def divide_le_eq mult_le_cancel_left1)
  define n where "n = \<lfloor>v * 100\<rfloor>"
  have "of_int n \<le> v * 100" "v * 100 \<le> of_int (n + 1)" unfolding n_def by linarith+
  then have n: "money_dec n \<le> v" "v \<le> money_dec (n + 1)" by (simp_all add: money_dec_def field_simps)
  have "v * 100 \<le> of_int total_amount" using v(2) by (simp add: money_dec_def)
  then have nb: "0 \<le> n" "n \<le> total_amount" using v(1) by (simp_all add: n_def floor_le_iff)
  have fixed: "dctx (money_dec k) = money_dec k" if "0 \<le> k" "k \<le> MAX_MONEY + 1" for k
    using that by (intro dctx_money) (simp add: MAX_MONEY_def)
  have "money_dec 0 \<le> dctx v" using v(1) dec28.rnd_nonneg by (simp add: money_dec_def)
  moreover have "dctx v \<le> money_dec total_amount"
    using v(2) fixed [of total_amount] assms(1,2) by (intro dec28.rnd_le_fixed) auto
  ultimately have "money_dec 0 \<le> dctx v" "dctx v \<le> money_dec total_amount" .
  from to_money_between [OF this] assms(1,2) show t: "0 \<le> t" "t \<le> total_amount" by (simp_all add: t_def)
  have "money_dec n \<le> dctx v" using n(1) fixed [of n] nb assms(2) by (intro dec28.rnd_ge_fixed) auto
  moreover have "dctx v \<le> money_dec (n + 1)" using n(2) fixed [of "n + 1"] nb assms(2) by (intro dec28.rnd_le_fixed) auto
  ultimately have "n \<le> t \<and> t \<le> n + 1"
  proof (cases "n + 1 \<le> MAX_MONEY")
    case True
    then show ?thesis using to_money_between [OF \<open>money_dec n \<le> dctx v\<close> \<open>dctx v \<le> money_dec (n + 1)\<close>] nb
      by (simp add: t_def MAX_MONEY_def)
  next
    case False
    then have "n = total_amount" using nb assms(2) by simp
    then show ?thesis using to_money_between [OF \<open>money_dec n \<le> dctx v\<close> \<open>dctx v \<le> money_dec total_amount\<close>] t(2) assms(1,2)
      by (simp add: t_def MAX_MONEY_def)
  qed
  then have "money_dec n \<le> money_dec t" "money_dec t \<le> money_dec (n + 1)" by simp_all
  moreover have "money_dec (n + 1) = money_dec n + 1 / 100" by (simp add: money_dec_def add_divide_distrib)
  ultimately show "\<bar>money_dec t - v\<bar> \<le> 1 / 100" using n by linarith
qed

lemma split_gst_foots:
  assumes "0 \<le> total_amount" "total_amount \<le> MAX_MONEY" "0 \<le> to_money rate"
  obtains t g where "split_gst_inclusive total_amount rate = Inr (t, g)" "t + g = total_amount" "0 \<le> t" "0 \<le> g"
    "\<bar>money_dec t - money_dec total_amount / (1 + money_dec (to_money rate) / 100)\<bar> \<le> 1 / 100"
proof -
  let ?div = "1 + money_dec (to_money rate) / 100"
  have d: "dctx (1 + dctx (money_dec (to_money rate) / 100)) = ?div" using assms(3) by (intro gst_divisor) simp_all
  have one: "1 \<le> ?div" using assms(3) by (simp add: money_dec_def)
  note br = taxable_bracket [OF assms(1,2) one]
  let ?t = "to_money (Finite (dctx (money_dec total_amount / ?div)))"
  have id: "to_money_m total_amount = total_amount" using assms(1,2) by (intro to_money_m_id) simp
  have gid: "to_money_m (total_amount - ?t) = total_amount - ?t" using br(1,2) assms(2) by (intro to_money_m_id) simp
  have "split_gst_inclusive total_amount rate = Inr (?t, total_amount - ?t)"
    unfolding split_gst_inclusive_def Let_def d id gid using one by simp
  then show thesis using that [of ?t "total_amount - ?t"] br by simp
qed

lemma insert_invoice_loses:
  "get_invoice_by_session d (cs_id session) = Some winner \<Longrightarrow> row_by tn_id (cs_tenant_id session) (tenants d) \<noteq> None \<Longrightarrow>
     insert_invoice cfg now d session amount split = (d, Inr winner)"
  using row_by_SomeD [of iv_session_id "cs_id session" "invoices d" winner]
  by (auto simp: insert_invoice_def get_invoice_by_session_def Let_def exists_row_iff)

lemma insert_invoice_cases:
  assumes "insert_invoice cfg now d session amount split = (d', res)"
  obtains (kept) "d' = d" "\<forall>r. res = Inr r \<longrightarrow> get_invoice_by_session d (cs_id session) = Some r"
  | (issued) tenant r where "row_by tn_id (cs_tenant_id session) (tenants d) = Some tenant" "res = Inr r"
      "r = new_invoice cfg now d session tenant amount split" "invoices d' = invoices d @ [r]"
      "\<forall>x \<in> set (invoices d). iv_session_id x \<noteq> cs_id session \<and> iv_invoice_number x \<noteq> iv_invoice_number r"
      "d' = d\<lparr>invoices := invoices d @ [r], tenants := update_where (\<lambda>t. tn_id t = cs_tenant_id session)
                (\<lambda>t. t\<lparr>tn_next_invoice_seq := tn_next_invoice_seq t + 1\<rparr>) (tenants d)\<rparr>"
proof (cases "row_by tn_id (cs_tenant_id session) (tenants d)")
  case None
  then show ?thesis using assms kept by (auto simp: insert_invoice_def)
next
  case (Some tenant)
  let ?r = "new_invoice cfg now d session tenant amount split"
  show ?thesis
  proof (cases "exists_row (\<lambda>r. iv_session_id r = cs_id session \<or> iv_invoice_number r = iv_invoice_number ?r) (invoices d)")
    case True
    then show ?thesis using assms Some kept by (auto simp: insert_invoice_def Let_def split: option.splits)
  next
    case False
    then show ?thesis using assms Some by (intro issued) (auto simp: insert_invoice_def Let_def exists_row_iff)
  qed
qed

lemma new_invoice_fields [simp]:
  "iv_id (new_invoice cfg now d s t a sp) = fresh_id iv_id (invoices d)"
  "iv_session_id (new_invoice cfg now d s t a sp) = cs_id s" "iv_total_inr (new_invoice cfg now d s t a sp) = a"
  "iv_amount_coins (new_invoice cfg now d s t a sp) = a" "iv_taxable_value_inr (new_invoice cfg now d s t a sp) = fst sp"
  "iv_gst_amount_inr (new_invoice cfg now d s t a sp) = snd sp"
  by (simp_all add: new_invoice_def)

lemma issue_invoice_cases:
  assumes "issue_invoice_for_session cfg now d i = (d', res)"
  obtains (existing) r where "get_invoice_by_session d i = Some r" "d' = d" "res = Inr r"
  | (refused) err where "d' = d" "res = Inl err"
  | (issued) s split where "row_by cs_id i (charging_sessions d) = Some s" "invoiceable s" "0 < to_money_m (cs_coins_spent s)"
      "split_gst_inclusive (to_money_m (cs_coins_spent s)) (gst_rate_pct cfg) = Inr split"
      "get_invoice_by_session d i = None" "insert_invoice cfg now d s (to_money_m (cs_coins_spent s)) split = (d', res)"
proof (cases "get_invoice_by_session d i")
  case (Some r)
  then have "(d', res) = (d, Inr r)" using assms by (simp add: issue_invoice_for_session_def)
  with Some show ?thesis by (intro existing [of r]) auto
next
  case None
  show ?thesis
  proof (cases "row_by cs_id i (charging_sessions d)")
    case None
    then have "\<exists>err. (d', res) = (d, Inl err)"
      using \<open>get_invoice_by_session d i = None\<close> assms by (auto simp: issue_invoice_for_session_def)
    then show ?thesis using refused by blast
  next
    case (Some s)
    show ?thesis
    proof (cases "invoiceable s \<and> 0 < to_money_m (cs_coins_spent s)")
      case True
      then have "issue_invoice_for_session cfg now d i =
          (case split_gst_inclusive (to_money_m (cs_coins_spent s)) (gst_rate_pct cfg) of
             Inl err \<Rightarrow> (d, Inl err) | Inr split \<Rightarrow> insert_invoice cfg now d s (to_money_m (cs_coins_spent s)) split)"
        using None Some by (simp add: issue_invoice_for_session_def Let_def ZERO_MONEY_def)
      then have run: "(case split_gst_inclusive (to_money_m (cs_coins_spent s)) (gst_rate_pct cfg) of
             Inl err \<Rightarrow> (d, Inl err) | Inr split \<Rightarrow> insert_invoice cfg now d s (to_money_m (cs_coins_spent s)) split) = (d', res)"
        using assms by simp
      show ?thesis
      proof (cases "split_gst_inclusive (to_money_m (cs_coins_spent s)) (gst_rate_pct cfg)")
        case (Inl err)
        with run have "(d', res) = (d, Inl err)" by simp
        then show ?thesis by (intro refused [of err]) auto
      next
        case (Inr split)
        with run show ?thesis using True None Some by (intro issued [of s split]) auto
      qed
    next
      case False
      then have "\<exists>err. issue_invoice_for_session cfg now d i = (d, Inl err)"
        using None Some by (simp add: issue_invoice_for_session_def Let_def ZERO_MONEY_def not_less)
      then have "\<exists>err. (d', res) = (d, Inl err)" using assms by auto
      then show ?thesis using refused by blast
    qed
  qed
qed

lemma invoices_ok_insert:
  assumes "invoices_ok d" "invoices d' = invoices d @ [r]" "iv_id r = fresh_id iv_id (invoices d)"
    "\<forall>x \<in> set (invoices d). iv_session_id x \<noteq> iv_session_id r \<and> iv_invoice_number x \<noteq> iv_invoice_number r"
    "iv_taxable_value_inr r + iv_gst_amount_inr r = iv_total_inr r" "iv_total_inr r = iv_amount_coins r"
    "0 \<le> iv_total_inr r" "iv_total_inr r \<le> MAX_MONEY"
  shows "invoices_ok d'"
proof -
  have "distinct (map iv_id (invoices d @ [r]))" using assms(1,3) by (intro distinct_insert_fresh) (simp_all add: invoices_ok_def)
  with assms show ?thesis by (auto simp: invoices_ok_def)
qed

subsection \<open>Properties\<close>

text \<open>
  C36. The split of an inclusive total foots: for every storable total and every non-negative rate
  taxable value and tax are non-negative and add up to the total exactly, and the taxable value
  is within a hundredth of the total divided by one plus the rate.
\<close>

theorem gst_split_correct:
  assumes "0 \<le> total_amount" "total_amount \<le> MAX_MONEY" "0 \<le> to_money rate"
  shows "\<exists>t g. split_gst_inclusive total_amount rate = Inr (t, g) \<and> t + g = total_amount \<and> 0 \<le> t \<and> 0 \<le> g
    \<and> \<bar>money_dec t - money_dec total_amount / (1 + money_dec (to_money rate) / 100)\<bar> \<le> 1 / 100"
  using split_gst_foots [OF assms] by metis

theorem gst_split_correct_witness:
  "\<exists>t g. split_gst_inclusive 11800 (Finite 18) = Inr (t, g) \<and> t + g = 11800 \<and> \<bar>money_dec t - 100\<bar> \<le> 1 / 100"
proof -
  have "to_money (Finite 18) = 1800" by code_simp
  then show ?thesis using gst_split_correct [of 11800 "Finite 18"] by (auto simp: MAX_MONEY_def money_dec_def)
qed

text \<open>
  C37. A session is invoiced at most once.  Issuing keeps the books in order; an invoice that is
  issued is on the books afterwards, issuing again returns the same one and changes nothing, and
  a concurrent first issue that arrives later is handed the winner's invoice.
\<close>

theorem invoice_issued_once:
  assumes "invoices_ok d" "distinct (map cs_id (charging_sessions d))" "0 \<le> to_money (gst_rate_pct cfg)"
    and run: "issue_invoice_for_session cfg now d i = (d', res)"
  shows "invoices_ok d' \<and> charging_sessions d' = charging_sessions d \<and> users d' = users d
    \<and> (\<forall>r. res = Inr r \<longrightarrow> r \<in> set (invoices d') \<and> iv_session_id r = i
          \<and> issue_invoice_for_session cfg' now' d' i = (d', Inr r)
          \<and> (\<forall>s split. cs_id s = i \<and> row_by tn_id (cs_tenant_id s) (tenants d') \<noteq> None \<longrightarrow>
                insert_invoice cfg' now' d' s (to_money_m (cs_coins_spent s)) split = (d', Inr r)))"
proof -
  have again: "r \<in> set (invoices d') \<and> iv_session_id r = i \<and> issue_invoice_for_session cfg' now' d' i = (d', Inr r)
      \<and> (\<forall>s split. cs_id s = i \<and> row_by tn_id (cs_tenant_id s) (tenants d') \<noteq> None \<longrightarrow>
                insert_invoice cfg' now' d' s (to_money_m (cs_coins_spent s)) split = (d', Inr r))"
    if "get_invoice_by_session d' i = Some r" for r
    using that insert_invoice_loses [of d' _ r]
    by (auto simp: issue_invoice_for_session_def get_invoice_by_session_def dest: row_by_SomeD)
  from run show ?thesis
  proof (cases rule: issue_invoice_cases)
    case (issued s split)
    have id: "cs_id s = i" using row_by_SomeD [OF issued(1)] by simp
    have none: "row_by iv_session_id i (invoices d) = None" using issued(5) by (simp add: get_invoice_by_session_def)
    obtain t g where tg: "split = (t, g)" "t + g = to_money_m (cs_coins_spent s)"
      using split_gst_foots [of "to_money_m (cs_coins_spent s)" "gst_rate_pct cfg"] issued(3,4) assms(3)
      by (metis less_imp_le sum.inject(2) to_money_bounds(2) to_money_m_def)
    from issued(6) show ?thesis
    proof (cases rule: insert_invoice_cases)
      case kept
      have "\<forall>r. res \<noteq> Inr r" using kept(2) issued(5) id by auto
      with kept(1) assms(1) show ?thesis by blast
    next
      case (issued tenant r)
      have "invoices_ok d'"
        using issued(3-5) tg \<open>0 < to_money_m (cs_coins_spent s)\<close> to_money_bounds(2)
        by (intro invoices_ok_insert [OF assms(1) issued(4)]) (auto simp: to_money_m_def)
      moreover have "get_invoice_by_session d' i = Some r"
        unfolding get_invoice_by_session_def issued(4) row_by_append none by (simp add: issued(3) row_by_Cons id)
      ultimately show ?thesis using again issued(2,6) by simp
    qed
  qed (use assms(1) again in auto)
qed

theorem invoice_issued_once_witness:
  "\<exists>d' r. issue_invoice_for_session default_config 1783036800000000 sample_billed 1 = (d', Inr r)
     \<and> issue_invoice_for_session default_config 1783036800000000 d' 1 = (d', Inr r)
     \<and> iv_invoice_number r = ''INV1-2026-27-00001'' \<and> iv_taxable_value_inr r = 10000"
proof -
  have ok: "invoices_ok sample_billed" "distinct (map cs_id (charging_sessions sample_billed))"
    "0 \<le> to_money (gst_rate_pct default_config)" by code_simp+
  obtain d' res where run: "issue_invoice_for_session default_config 1783036800000000 sample_billed 1 = (d', res)" by fastforce
  have "case snd (issue_invoice_for_session default_config 1783036800000000 sample_billed 1) of
      Inl _ \<Rightarrow> False | Inr r \<Rightarrow> iv_invoice_number r = ''INV1-2026-27-00001'' \<and> iv_taxable_value_inr r = 10000"
    by code_simp
  with run obtain r where "res = Inr r" "iv_invoice_number r = ''INV1-2026-27-00001''" "iv_taxable_value_inr r = 10000"
    by (auto split: sum.splits)
  with invoice_issued_once [OF ok run] run show ?thesis by blast
qed

text \<open>
  The sequence number can be read back from an invoice number, so two invoices of one prefix
  and one financial year have different numbers when their sequence numbers differ.
\<close>

theorem invoice_number_roundtrip:
  assumes "0 \<le> sq" "length (show_nat (nat sq)) \<le> 5"
  shows "int (read_nat (drop (length (invoice_number prefix tenant_id now sq) - 5) (invoice_number prefix tenant_id now sq))) = sq"
proof -
  have "length (show_padded 5 sq) = 5" using assms by (simp add: show_padded_def Let_def)
  then have "drop (length (invoice_number prefix tenant_id now sq) - 5) (invoice_number prefix tenant_id now sq) = show_padded 5 sq"
    by (simp add: invoice_number_def split: option.split)
  then show ?thesis using assms(1) by (simp add: read_show_padded)
qed

theorem invoice_number_roundtrip_witness:
  "int (read_nat (drop (length (invoice_number (Some ''ACME'') 3 0 42) - 5) (invoice_number (Some ''ACME'') 3 0 42))) = 42"
proof (rule invoice_number_roundtrip)
  show "length (show_nat (nat 42)) \<le> 5" by code_simp
qed simp

end
