(* ===== verification/Disputes.thy ===== *)
theory Disputes
  imports Payouts Invoices Sessions
begin

text \<open>
  Review of session disputes by the operator (\<open>backend/routers/cpo/_disputes.py\<close>) and the driver's
  view of them (\<open>backend/routers/sessions.py\<close>). Filing a dispute is \<open>dispute_session\<close> of the session
  endpoints. A handler that raises leaves the database as it was.
\<close>

subsection \<open>Definitions\<close>

fun dispute_status_of :: "string \<Rightarrow> dispute_status option" where
  "dispute_status_of s =
     (if s = ''open'' then Some DI_OPEN else if s = ''approved'' then Some DI_APPROVED
      else if s = ''rejected'' then Some DI_REJECTED else None)"

definition newest_disputes :: "(session_dispute \<Rightarrow> bool) \<Rightarrow> db \<Rightarrow> session_dispute list" where
  "newest_disputes P d = sort_key (\<lambda>r. (- sd_created_at r, - sd_id r)) (filter P (disputes d))"

definition cpo_list_disputes :: "db \<Rightarrow> user \<Rightarrow> string option \<Rightarrow> int \<Rightarrow> session_dispute list response" where
  "cpo_list_disputes d user status_filter limit =
     (case require_role [''cpo'', ''admin''] user of
        Inl err \<Rightarrow> Inl err
      | Inr _ \<Rightarrow>
          let own = (\<lambda>r. us_tenant_id user = Some (sd_tenant_id r)); n = max 1 (min limit 500)
          in if status_filter = None \<or> status_filter = Some '''' then Inr (page n 0 (newest_disputes own d))
             else case dispute_status_of (the status_filter) of
                    None \<Rightarrow> Inl (HTTPException 400 ''Invalid status_filter.'')
                  | Some status \<Rightarrow> Inr (page n 0 (newest_disputes (\<lambda>r. own r \<and> sd_status r = status) d)))"

definition get_my_disputes :: "db \<Rightarrow> int \<Rightarrow> int \<Rightarrow> int \<Rightarrow> session_dispute list" where
  "get_my_disputes d user_id limit offset =
     page (max 1 (min limit 1000)) (max 0 offset) (newest_disputes (\<lambda>r. sd_driver_user_id r = user_id) d)"

definition upd_dispute :: "int \<Rightarrow> (session_dispute \<Rightarrow> session_dispute) \<Rightarrow> db \<Rightarrow> db" where
  "upd_dispute i f d = d\<lparr>disputes := update_where (\<lambda>r. sd_id r = i) f (disputes d)\<rparr>"

definition approved_refunds :: "db \<Rightarrow> int \<Rightarrow> money" where
  "approved_refunds d session_id =
     sum_where refund_of (\<lambda>r. sd_session_id r = session_id \<and> sd_status r = DI_APPROVED) (disputes d)"

text \<open>The amount an approval asks for: what the request says, or the whole bill.\<close>

definition refund_requested :: "money \<Rightarrow> pyfloat option \<Rightarrow> money response" where
  "refund_requested cost refund_coins =
     (case refund_coins of
        Some x \<Rightarrow> Inr (to_money_f x)
      | None \<Rightarrow> if ZERO_MONEY < cost then Inr cost
                else Inl (HTTPException 400 ''This session cost 0 coins, so there is nothing to refund by default.''))"

definition approve_dispute ::
  "timestamp \<Rightarrow> db \<Rightarrow> session_dispute \<Rightarrow> pyfloat option \<Rightarrow> (session_dispute \<Rightarrow> session_dispute) \<Rightarrow> (db \<times> session_dispute) response" where
  "approve_dispute now d dispute refund_coins resolved =
     (case row_by cs_id (sd_session_id dispute) (charging_sessions d) of
        None \<Rightarrow> Inl (HTTPException 404 ''The disputed session no longer exists.'')
      | Some session \<Rightarrow>
          let cost = to_money_m (cs_coins_spent session)
          in case refund_requested cost refund_coins of
               Inl err \<Rightarrow> Inl err
             | Inr refund_amount \<Rightarrow>
                 if refund_amount \<le> ZERO_MONEY then Inl (HTTPException 400 ''refund_coins must be greater than 0.'')
                 else let already_refunded = to_money_m (approved_refunds d (sd_session_id dispute))
                      in if cost < already_refunded + refund_amount
                         then Inl (HTTPException 400 ''Refund would exceed the session cost.'')
                         else case credit_wallet d (sd_driver_user_id dispute) refund_amount of
                                Inl err \<Rightarrow> Inl err
                              | Inr credited \<Rightarrow> case snd credited of
                                None \<Rightarrow> Inl (HTTPException 404 ''The disputing driver account no longer exists.'')
                              | Some new_balance \<Rightarrow>
                                  let d1 = fst credited;
                                      d2 = add_ledger \<lparr>lt_id = 0, lt_user_id = sd_driver_user_id dispute,
                                             lt_session_id = Some (sd_session_id dispute), lt_amount = refund_amount,
                                             lt_transaction_type = REFUND, lt_razorpay_payment_id = None,
                                             lt_balance_after = new_balance, lt_created_at = now\<rparr> d1
                                  in case adjust_invoice_for_session_refund d2 (sd_session_id dispute) cost
                                            (already_refunded + refund_amount) of
                                       Inl err \<Rightarrow> Inl err
                                     | Inr d3 \<Rightarrow>
                                         let f = (\<lambda>r. (resolved r)\<lparr>sd_status := DI_APPROVED, sd_refund_coins := Some refund_amount\<rparr>)
                                         in Inr (upd_dispute (sd_id dispute) f d3, f dispute))"

definition cpo_resolve_dispute ::
  "timestamp \<Rightarrow> db \<Rightarrow> user \<Rightarrow> int \<Rightarrow> string \<Rightarrow> pyfloat option \<Rightarrow> string option \<Rightarrow> db \<times> session_dispute response" where
  "cpo_resolve_dispute now d user dispute_id action refund_coins note =
     (case require_role [''cpo'', ''admin''] user of
        Inl err \<Rightarrow> (d, Inl err)
      | Inr _ \<Rightarrow>
          if action \<noteq> ''approve'' \<and> action \<noteq> ''reject'' then (d, Inl (HTTPException 400 ''Invalid action.''))
          else case find (\<lambda>r. sd_id r = dispute_id \<and> us_tenant_id user = Some (sd_tenant_id r)) (disputes d) of
                 None \<Rightarrow> (d, Inl (HTTPException 404 ''Dispute not found or access denied.''))
               | Some dispute \<Rightarrow>
                   if sd_status dispute \<noteq> DI_OPEN then (d, Inl (HTTPException 409 ''This dispute was already resolved.''))
                   else let resolved = (\<lambda>r. r\<lparr>sd_resolution_note := note, sd_resolved_at := Some now,
                                             sd_resolved_by_user_id := Some (us_id user)\<rparr>)
                        in if action = ''reject''
                           then let f = (\<lambda>r. (resolved r)\<lparr>sd_status := DI_REJECTED\<rparr>)
                                in (upd_dispute (sd_id dispute) f d, Inr (f dispute))
                           else case approve_dispute now d dispute refund_coins resolved of
                                  Inl err \<Rightarrow> (d, Inl err)
                                | Inr done \<Rightarrow> (fst done, Inr (snd done)))"

subsection \<open>The refund books\<close>

text \<open>What was approved for a session never exceeds what the session was charged.\<close>

definition refunds_ok :: "db \<Rightarrow> bool" where
  "refunds_ok d \<longleftrightarrow> distinct (map sd_id (disputes d)) \<and> distinct (map cs_id (charging_sessions d))
     \<and> list_all (\<lambda>r. 0 \<le> refund_of r) (disputes d)
     \<and> list_all (\<lambda>s. 0 \<le> cs_coins_spent s \<and> cs_coins_spent s \<le> MAX_MONEY
                    \<and> approved_refunds d (cs_id s) \<le> cs_coins_spent s) (charging_sessions d)"

definition sample_disputed :: db where
  "sample_disputed = sample_ledger\<lparr>disputes := [\<lparr>sd_id = 1, sd_session_id = 1, sd_tenant_id = 1, sd_driver_user_id = 1,
     sd_reason = ''stopped early'', sd_status = DI_OPEN, sd_resolution_note = None, sd_refund_coins = None,
     sd_created_at = 120, sd_resolved_at = None, sd_resolved_by_user_id = None\<rparr>]\<rparr>"

subsection \<open>Lemmas\<close>

lemma adjust_invoiceD:
  assumes "adjust_invoice_for_session_refund d i spent refunded = Inr d'"
  obtains (none) "get_invoice_by_session d i = None" "d' = d"
  | (adjusted) invoice t g n where "get_invoice_by_session d i = Some invoice"
      "n = to_money_m (max (to_money_m spent - to_money_m refunded) ZERO_MONEY)"
      "split_gst_inclusive n (Finite (money_dec (iv_gst_rate_pct invoice))) = Inr (t, g)"
      "d' = d\<lparr>invoices := update_where (\<lambda>r. iv_id r = iv_id invoice)
                   (\<lambda>r. r\<lparr>iv_amount_coins := n, iv_taxable_value_inr := t, iv_gst_amount_inr := g, iv_total_inr := n\<rparr>) (invoices d)\<rparr>"
proof (cases "get_invoice_by_session d i")
  case None
  then have "d' = d" using assms by (simp add: adjust_invoice_for_session_refund_def)
  with None show ?thesis by (rule none)
next
  case (Some invoice)
  let ?n = "to_money_m (max (to_money_m spent - to_money_m refunded) ZERO_MONEY)"
  obtain x where x: "split_gst_inclusive ?n (Finite (money_dec (iv_gst_rate_pct invoice))) = Inr x"
    using assms Some by (cases "split_gst_inclusive ?n (Finite (money_dec (iv_gst_rate_pct invoice)))")
      (simp_all add: adjust_invoice_for_session_refund_def)
  obtain t g where "x = (t, g)" by (cases x)
  then have split: "split_gst_inclusive ?n (Finite (money_dec (iv_gst_rate_pct invoice))) = Inr (t, g)" using x by simp
  have "d' = d\<lparr>invoices := update_where (\<lambda>r. iv_id r = iv_id invoice)
      (\<lambda>r. r\<lparr>iv_amount_coins := ?n, iv_taxable_value_inr := t, iv_gst_amount_inr := g, iv_total_inr := ?n\<rparr>) (invoices d)\<rparr>"
    using assms unfolding adjust_invoice_for_session_refund_def Some Let_def option.case split sum.case prod.case by simp
  then show ?thesis by (rule adjusted [OF Some refl split])
qed

lemma adjust_invoice_frame:
  assumes "adjust_invoice_for_session_refund d i spent refunded = Inr d'"
  shows "users d' = users d" "ledger d' = ledger d" "charging_sessions d' = charging_sessions d" "disputes d' = disputes d"
    "payouts d' = payouts d" "offline_topups d' = offline_topups d"
  using assms by (cases rule: adjust_invoiceD; simp)+

text \<open>A successful approval, step by step.\<close>

lemma approve_disputeD:
  assumes "approve_dispute now d dispute refund_coins resolved = Inr (d', r)"
  obtains s amount d1 b d3 where "row_by cs_id (sd_session_id dispute) (charging_sessions d) = Some s"
    "refund_requested (to_money_m (cs_coins_spent s)) refund_coins = Inr amount" "0 < amount"
    "to_money_m (approved_refunds d (sd_session_id dispute)) + amount \<le> to_money_m (cs_coins_spent s)"
    "credit_wallet d (sd_driver_user_id dispute) amount = Inr (d1, Some b)"
    "adjust_invoice_for_session_refund (add_ledger \<lparr>lt_id = 0, lt_user_id = sd_driver_user_id dispute,
        lt_session_id = Some (sd_session_id dispute), lt_amount = amount, lt_transaction_type = REFUND,
        lt_razorpay_payment_id = None, lt_balance_after = b, lt_created_at = now\<rparr> d1) (sd_session_id dispute)
        (to_money_m (cs_coins_spent s)) (to_money_m (approved_refunds d (sd_session_id dispute)) + amount) = Inr d3"
    "d' = upd_dispute (sd_id dispute) (\<lambda>r. (resolved r)\<lparr>sd_status := DI_APPROVED, sd_refund_coins := Some amount\<rparr>) d3"
    "r = (resolved dispute)\<lparr>sd_status := DI_APPROVED, sd_refund_coins := Some amount\<rparr>"
proof -
  obtain s where s: "row_by cs_id (sd_session_id dispute) (charging_sessions d) = Some s"
    using assms by (cases "row_by cs_id (sd_session_id dispute) (charging_sessions d)") (auto simp: approve_dispute_def)
  obtain amount where a: "refund_requested (to_money_m (cs_coins_spent s)) refund_coins = Inr amount"
    using assms s by (cases "refund_requested (to_money_m (cs_coins_spent s)) refund_coins") (auto simp: approve_dispute_def Let_def)
  have guards: "0 < amount" "to_money_m (approved_refunds d (sd_session_id dispute)) + amount \<le> to_money_m (cs_coins_spent s)"
    using assms s a by (auto simp: approve_dispute_def Let_def ZERO_MONEY_def split: if_splits)
  obtain d1 b where c: "credit_wallet d (sd_driver_user_id dispute) amount = Inr (d1, Some b)"
  proof (cases "credit_wallet d (sd_driver_user_id dispute) amount")
    case (Inl err)
    then show ?thesis using assms s a guards by (simp add: approve_dispute_def ZERO_MONEY_def Let_def)
  next
    case (Inr x)
    then show ?thesis using that assms s a guards by (cases x; cases "snd x") (auto simp: approve_dispute_def ZERO_MONEY_def Let_def)
  qed
  show thesis
  proof (cases "adjust_invoice_for_session_refund (add_ledger \<lparr>lt_id = 0, lt_user_id = sd_driver_user_id dispute,
        lt_session_id = Some (sd_session_id dispute), lt_amount = amount, lt_transaction_type = REFUND,
        lt_razorpay_payment_id = None, lt_balance_after = b, lt_created_at = now\<rparr> d1) (sd_session_id dispute)
        (to_money_m (cs_coins_spent s)) (to_money_m (approved_refunds d (sd_session_id dispute)) + amount)")
    case (Inl err)
    then show ?thesis using assms s a guards c by (simp add: approve_dispute_def ZERO_MONEY_def Let_def)
  next
    case (Inr d3)
    then show ?thesis using assms s a guards c that [OF s a guards c Inr] by (simp add: approve_dispute_def ZERO_MONEY_def Let_def)
  qed
qed

lemma approved_refunds_resolve:
  assumes "distinct (map sd_id rows)" "r \<in> set rows" "sd_status r \<noteq> DI_APPROVED" "sd_session_id (f r) = sd_session_id r"
  shows "sum_where refund_of (\<lambda>r. sd_session_id r = i \<and> sd_status r = DI_APPROVED) (update_where (\<lambda>x. sd_id x = sd_id r) f rows)
       = sum_where refund_of (\<lambda>r. sd_session_id r = i \<and> sd_status r = DI_APPROVED) rows
         + (if sd_session_id r = i \<and> sd_status (f r) = DI_APPROVED then refund_of (f r) else 0)"
  using assms(1,2)
proof (induction rows)
  case (Cons x rows)
  have other: "sd_id y \<noteq> sd_id x" if "y \<in> set rows" for y using that Cons.prems(1) by (metis distinct.simps(2) imageI list.simps(9) set_map)
  show ?case
  proof (cases "x = r")
    case True
    then have "update_where (\<lambda>x. sd_id x = sd_id r) f rows = rows" using other by (intro update_where_id) blast
    then show ?thesis using True assms(3,4) by simp
  next
    case False
    with Cons.prems have r: "r \<in> set rows" by simp
    have "sd_id x \<noteq> sd_id r" using other [OF r] by (rule not_sym)
    then show ?thesis using Cons r by simp
  qed
qed simp

lemma find_own_disputeD:
  "find (\<lambda>r. sd_id r = i \<and> P r) rows = Some r \<Longrightarrow> r \<in> set rows \<and> sd_id r = i \<and> P r"
  by (auto simp: find_Some_iff)

lemma resolve_dispute_cases:
  assumes "cpo_resolve_dispute now d user i action refund_coins note = (d', Inr r)"
  obtains (rejected) dispute where "dispute \<in> set (disputes d)" "sd_id dispute = i" "us_tenant_id user = Some (sd_tenant_id dispute)"
      "sd_status dispute = DI_OPEN" "action = ''reject''"
      "d' = upd_dispute i (\<lambda>r. r\<lparr>sd_resolution_note := note, sd_resolved_at := Some now, sd_resolved_by_user_id := Some (us_id user),
               sd_status := DI_REJECTED\<rparr>) d" "r = dispute\<lparr>sd_resolution_note := note, sd_resolved_at := Some now,
               sd_resolved_by_user_id := Some (us_id user), sd_status := DI_REJECTED\<rparr>"
  | (approved) dispute where "dispute \<in> set (disputes d)" "sd_id dispute = i" "us_tenant_id user = Some (sd_tenant_id dispute)"
      "sd_status dispute = DI_OPEN" "action = ''approve''"
      "approve_dispute now d dispute refund_coins
         (\<lambda>r. r\<lparr>sd_resolution_note := note, sd_resolved_at := Some now, sd_resolved_by_user_id := Some (us_id user)\<rparr>) = Inr (d', r)"
proof -
  let ?find = "find (\<lambda>r. sd_id r = i \<and> us_tenant_id user = Some (sd_tenant_id r)) (disputes d)"
  have role: "require_role [''cpo'', ''admin''] user = Inr user"
    using assms by (auto simp: cpo_resolve_dispute_def require_role_def split: if_splits)
  then have act: "action = ''approve'' \<or> action = ''reject''"
    using assms by (auto simp: cpo_resolve_dispute_def split: if_splits)
  obtain x where find: "?find = Some x"
    using assms role act by (cases ?find) (simp_all add: cpo_resolve_dispute_def split: if_splits)
  then have x: "x \<in> set (disputes d)" "sd_id x = i" "us_tenant_id user = Some (sd_tenant_id x)"
    using find_own_disputeD [OF find] by blast+
  have status: "sd_status x = DI_OPEN" using assms role act find by (auto simp: cpo_resolve_dispute_def split: if_splits)
  show thesis
  proof (cases "action = ''reject''")
    case True
    then show ?thesis using assms role find x status
      by (intro rejected [OF x status True]) (simp_all add: cpo_resolve_dispute_def Let_def)
  next
    case False
    then have ok: "action = ''approve''" using act by blast
    show ?thesis
      by (rule approved [OF x status ok])
         (use assms role find status ok in \<open>auto simp: cpo_resolve_dispute_def Let_def prod_eq_iff split: sum.splits\<close>)
  qed
qed

lemma refunds_okD:
  assumes "refunds_ok d"
  shows "distinct (map sd_id (disputes d))" "distinct (map cs_id (charging_sessions d))" "x \<in> set (disputes d) \<Longrightarrow> 0 \<le> refund_of x"
    "s \<in> set (charging_sessions d) \<Longrightarrow> 0 \<le> cs_coins_spent s \<and> cs_coins_spent s \<le> MAX_MONEY \<and> approved_refunds d (cs_id s) \<le> cs_coins_spent s"
    "0 \<le> approved_refunds d i"
  using assms unfolding refunds_ok_def list_all_iff approved_refunds_def by (blast, blast, blast, blast, auto intro: sum_where_nonneg)

text \<open>Resolving one dispute changes the refund books by its refund only.\<close>

lemma refunds_ok_resolve:
  assumes ok: "refunds_ok d" and x: "x \<in> set (disputes d)" "sd_status x = DI_OPEN"
    and f: "\<And>r. sd_id (f r) = sd_id r" "sd_session_id (f x) = sd_session_id x" "0 \<le> refund_of (f x)"
    and d': "disputes d' = update_where (\<lambda>r. sd_id r = sd_id x) f (disputes d)" "charging_sessions d' = charging_sessions d"
    and cap: "\<And>s. s \<in> set (charging_sessions d) \<Longrightarrow> cs_id s = sd_session_id x \<Longrightarrow> sd_status (f x) = DI_APPROVED \<Longrightarrow>
        approved_refunds d (cs_id s) + refund_of (f x) \<le> cs_coins_spent s"
  shows "refunds_ok d'"
    and "approved_refunds d' i = approved_refunds d i + (if sd_session_id x = i \<and> sd_status (f x) = DI_APPROVED then refund_of (f x) else 0)"
proof -
  note D = refunds_okD [OF ok]
  show sum: "approved_refunds d' i = approved_refunds d i + (if sd_session_id x = i \<and> sd_status (f x) = DI_APPROVED then refund_of (f x) else 0)" for i
    unfolding approved_refunds_def d'(1) using D(1) x f(2) by (intro approved_refunds_resolve) simp_all
  have same: "y = x" if "y \<in> set (disputes d)" "sd_id y = sd_id x" for y
    using distinct_key_eq [OF D(1) that(1) x(1) that(2)] .
  have "distinct (map sd_id (disputes d'))" using D(1) f(1) by (simp add: d'(1) map_update_where)
  moreover have "0 \<le> refund_of y" if "y \<in> set (disputes d')" for y
    using that same D(3) f(3) unfolding d'(1) set_update_where by (elim imageE) (simp split: if_splits, metis)
  moreover have "approved_refunds d' (cs_id s) \<le> cs_coins_spent s" if "s \<in> set (charging_sessions d)" for s
    unfolding sum using D(4) [OF that] cap [OF that] by auto
  ultimately show "refunds_ok d'" using D(2,4) unfolding refunds_ok_def list_all_iff d'(2) by blast
qed

lemma resolved_stays_resolved:
  assumes "\<And>x. x \<in> set (disputes d) \<Longrightarrow> sd_id x = i \<Longrightarrow> sd_status x \<noteq> DI_OPEN"
  shows "fst (cpo_resolve_dispute now d user i action amount note) = d \<and> isl (snd (cpo_resolve_dispute now d user i action amount note))"
proof (cases "find (\<lambda>r. sd_id r = i \<and> us_tenant_id user = Some (sd_tenant_id r)) (disputes d)")
  case None
  then show ?thesis by (auto simp: cpo_resolve_dispute_def split: sum.split)
next
  case (Some x)
  then have "sd_status x \<noteq> DI_OPEN" using assms find_own_disputeD [OF Some] by blast
  with Some show ?thesis by (auto simp: cpo_resolve_dispute_def split: sum.split)
qed

lemma adjusted_invoice_total:
  assumes "adjust_invoice_for_session_refund d i spent refunded = Inr d'" "get_invoice_by_session d' i = Some iv"
    "0 \<le> refunded" "refunded \<le> spent" "spent \<le> MAX_MONEY"
  shows "iv_total_inr iv = spent - refunded"
  using assms(1)
proof (cases rule: adjust_invoiceD)
  case none
  then show ?thesis using assms(2) by simp
next
  case (adjusted invoice t g n)
  have "n = spent - refunded" unfolding adjusted(2) using assms(3-5) by (simp add: to_money_m_clamp clamp_money_id ZERO_MONEY_def)
  then show ?thesis using assms(2) adjusted(1) unfolding adjusted(4) by (auto simp: get_invoice_by_session_def row_by_update_where)
qed

text \<open>The three sides of an approval: the refund books, the wallets, the invoice.\<close>

lemma approve_books:
  assumes ok: "refunds_ok d" and x: "x \<in> set (disputes d)" "sd_status x = DI_OPEN"
    and keep: "\<And>r. sd_id (resolved r) = sd_id r \<and> sd_session_id (resolved r) = sd_session_id r"
    and run: "approve_dispute now d x refund_coins resolved = Inr (d', r)"
  shows "refunds_ok d'" "charging_sessions d' = charging_sessions d"
    "approved_refunds d' i = approved_refunds d i + (if sd_session_id x = i then refund_of r else 0)"
    "0 < refund_of r" "sd_status r = DI_APPROVED" "disputes d' = update_where (\<lambda>y. sd_id y = sd_id x)
       (\<lambda>y. (resolved y)\<lparr>sd_status := DI_APPROVED, sd_refund_coins := Some (refund_of r)\<rparr>) (disputes d)"
  using run
proof (atomize (full), elim approve_disputeD, goal_cases)
  case (1 s a d1 b d3)
  let ?f = "\<lambda>y. (resolved y)\<lparr>sd_status := DI_APPROVED, sd_refund_coins := Some a\<rparr>"
  note D = refunds_okD [OF ok] and fr = adjust_invoice_frame [OF 1(6)] and W = credit_wallet_SomeD [OF 1(5)]
  have r: "refund_of r = a" "sd_status r = DI_APPROVED" by (simp_all add: 1(8) refund_of_def)
  have sm: "s \<in> set (charging_sessions d)" "cs_id s = sd_session_id x" using row_by_SomeD [OF 1(1)] by simp_all
  have dd: "disputes d' = update_where (\<lambda>y. sd_id y = sd_id x) ?f (disputes d)" "charging_sessions d' = charging_sessions d"
    by (simp_all add: 1(7) upd_dispute_def fr W(4))
  have fa: "\<And>y. sd_id (?f y) = sd_id y" "sd_session_id (?f x) = sd_session_id x" "0 \<le> refund_of (?f x)" "refund_of (?f x) = a"
    "sd_status (?f x) = DI_APPROVED" using keep 1(3) by (simp_all add: refund_of_def)
  have id: "to_money_m (cs_coins_spent s) = cs_coins_spent s" "to_money_m (approved_refunds d (sd_session_id x)) = approved_refunds d (sd_session_id x)"
    using D(4) [OF sm(1), unfolded sm(2)] D(5) [of "sd_session_id x"] by (simp_all add: to_money_m_clamp clamp_money_id)
  have cap: "approved_refunds d (cs_id s') + refund_of (?f x) \<le> cs_coins_spent s'"
    if "s' \<in> set (charging_sessions d)" "cs_id s' = sd_session_id x" for s'
    using distinct_key_eq [OF D(2) that(1) sm(1)] that(2) sm(2) 1(4) fa(4) unfolding id by simp
  have "refunds_ok d'" by (rule refunds_ok_resolve(1) [OF ok x fa(1-3) dd]) (rule cap)
  moreover have "approved_refunds d' i = approved_refunds d i + (if sd_session_id x = i \<and> sd_status (?f x) = DI_APPROVED then refund_of (?f x) else 0)"
    by (rule refunds_ok_resolve(2) [OF ok x fa(1-3) dd]) (rule cap)
  ultimately show ?case using dd 1(3) unfolding r fa(4,5) by simp
qed

lemma approve_money:
  assumes "approve_dispute now d x refund_coins resolved = Inr (d', r)"
  shows "drift d' = drift d"
    "balance_of d' u = (if u = sd_driver_user_id x then map_option (\<lambda>b. b + refund_of r) (balance_of d u) else balance_of d u)"
  using assms
proof (atomize (full), elim approve_disputeD, goal_cases)
  case (1 s a d1 b d3)
  note fr = adjust_invoice_frame [OF 1(6)] and W = credit_wallet_SomeD [OF 1(5)]
  have r: "refund_of r = a" by (simp add: 1(8) refund_of_def)
  have "drift d' = drift (add_ledger \<lparr>lt_id = 0, lt_user_id = sd_driver_user_id x,
      lt_session_id = Some (sd_session_id x), lt_amount = a, lt_transaction_type = REFUND,
      lt_razorpay_payment_id = None, lt_balance_after = b, lt_created_at = now\<rparr> d1)"
    by (rule drift_cong) (simp_all add: 1(7) upd_dispute_def fr)
  also have "\<dots> = drift d" by (rule ext, rule drift_credit_post [OF 1(5)]) simp_all
  finally have drift: "drift d' = drift d" .
  have "balance_of d' u = balance_of d1 u" by (simp add: balance_of_def 1(7) upd_dispute_def fr)
  also have "\<dots> = (if u = sd_driver_user_id x then map_option (\<lambda>b. b + a) (balance_of d u) else balance_of d u)"
    unfolding W(4) balance_of_store using W(1) by simp
  finally show ?case using drift unfolding r by blast
qed

lemma approve_invoice:
  assumes ok: "refunds_ok d" and run: "approve_dispute now d x refund_coins resolved = Inr (d', r)"
    and s: "row_by cs_id (sd_session_id x) (charging_sessions d) = Some s"
    and iv: "get_invoice_by_session d' (sd_session_id x) = Some iv"
  shows "iv_total_inr iv = cs_coins_spent s - (approved_refunds d (sd_session_id x) + refund_of r)"
  using run
proof (elim approve_disputeD, goal_cases)
  case (1 s' a d1 b d3)
  have s': "s' = s" using 1(1) s by simp
  have sm: "s \<in> set (charging_sessions d)" "cs_id s = sd_session_id x" using row_by_SomeD [OF s] by simp_all
  note S = refunds_okD(4) [OF ok sm(1), unfolded sm(2)] refunds_okD(5) [OF ok, of "sd_session_id x"]
  have id: "to_money_m (cs_coins_spent s) = cs_coins_spent s" "to_money_m (approved_refunds d (sd_session_id x)) = approved_refunds d (sd_session_id x)"
    using S by (simp_all add: to_money_m_clamp clamp_money_id)
  have "get_invoice_by_session d3 (sd_session_id x) = Some iv" using iv by (simp add: 1(7) upd_dispute_def get_invoice_by_session_def)
  then have "iv_total_inr iv = cs_coins_spent s - (approved_refunds d (sd_session_id x) + a)"
    using adjusted_invoice_total [OF 1(6) [unfolded s' id]] 1(3,4) S unfolding s' id by simp
  then show ?case by (simp add: 1(8) refund_of_def)
qed

lemma update_where_status:
  assumes "y \<in> set (update_where (\<lambda>r. key r = k) f rows)" "key y = k" "\<And>r. P (f r)"
  shows "P y"
  using assms unfolding set_update_where by (elim imageE) (metis (full_types))

subsection \<open>Properties\<close>

text \<open>
  C13. Resolving a dispute is safe. When the operator's decision is accepted, the approved refunds of
  every session still stay within what the session was charged, no session row changes, balance
  minus ledger is unchanged for every user, the driver's wallet goes up by exactly the approved
  amount and no other wallet changes, the session's invoice, if there is one, shows the charge less
  all approved refunds with tax and value adding up, and the dispute can never be resolved again.
\<close>

theorem dispute_resolution_sound:
  assumes ok: "refunds_ok d" and run: "cpo_resolve_dispute now d user i action refund_coins note = (d', Inr r)"
  shows "refunds_ok d' \<and> charging_sessions d' = charging_sessions d \<and> drift d' = drift d
     \<and> (\<forall>u. balance_of d' u = (if u = sd_driver_user_id r \<and> sd_status r = DI_APPROVED
            then map_option (\<lambda>b. b + refund_of r) (balance_of d u) else balance_of d u))
     \<and> (\<forall>s iv. sd_status r = DI_APPROVED \<longrightarrow> row_by cs_id (sd_session_id r) (charging_sessions d) = Some s \<longrightarrow>
            get_invoice_by_session d' (sd_session_id r) = Some iv \<longrightarrow>
            iv_total_inr iv = cs_coins_spent s - approved_refunds d' (sd_session_id r))
     \<and> (\<forall>later someone action' amount' note'. fst (cpo_resolve_dispute later d' someone i action' amount' note') = d'
            \<and> isl (snd (cpo_resolve_dispute later d' someone i action' amount' note')))"
proof -
  note D = refunds_okD [OF ok]
  have all: "(\<forall>x \<in> set (disputes d'). sd_id x = i \<longrightarrow> sd_status x \<noteq> DI_OPEN)
     \<and> refunds_ok d' \<and> charging_sessions d' = charging_sessions d \<and> drift d' = drift d
     \<and> (\<forall>u. balance_of d' u = (if u = sd_driver_user_id r \<and> sd_status r = DI_APPROVED
            then map_option (\<lambda>b. b + refund_of r) (balance_of d u) else balance_of d u))
     \<and> (\<forall>s iv. sd_status r = DI_APPROVED \<longrightarrow> row_by cs_id (sd_session_id r) (charging_sessions d) = Some s \<longrightarrow>
            get_invoice_by_session d' (sd_session_id r) = Some iv \<longrightarrow>
            iv_total_inr iv = cs_coins_spent s - approved_refunds d' (sd_session_id r))" (is ?all)
    using run
  proof (cases rule: resolve_dispute_cases)
    case (rejected x)
    let ?f = "\<lambda>r. r\<lparr>sd_resolution_note := note, sd_resolved_at := Some now, sd_resolved_by_user_id := Some (us_id user), sd_status := DI_REJECTED\<rparr>"
    have d': "disputes d' = update_where (\<lambda>r. sd_id r = sd_id x) ?f (disputes d)" "charging_sessions d' = charging_sessions d"
      "users d' = users d" "ledger d' = ledger d" by (simp_all add: rejected(2,6) upd_dispute_def)
    have "refunds_ok d'"
      by (rule refunds_ok_resolve(1) [OF ok rejected(1,4) _ _ _ d'(1,2)]) (use D(3) [OF rejected(1)] in \<open>simp_all add: refund_of_def\<close>)
    moreover have "drift d' = drift d" using d'(3,4) by (rule drift_cong)
    moreover have "balance_of d' u = balance_of d u" for u by (simp add: balance_of_def d'(3))
    ultimately show ?all using d'(1,2) rejected(2,7) by (auto simp: set_update_where)
  next
    case (approved x)
    let ?g = "\<lambda>r. r\<lparr>sd_resolution_note := note, sd_resolved_at := Some now, sd_resolved_by_user_id := Some (us_id user)\<rparr>"
    have keep: "sd_id (?g r) = sd_id r \<and> sd_session_id (?g r) = sd_session_id r" for r by simp
    note B = approve_books [OF ok approved(1,4) keep approved(6)] and M = approve_money [OF approved(6)]
    have r: "sd_driver_user_id r = sd_driver_user_id x" "sd_session_id r = sd_session_id x"
      using approved(6) by (elim approve_disputeD, simp)+
    have closed: "sd_status y \<noteq> DI_OPEN" if "y \<in> set (disputes d')" "sd_id y = i" for y
      using update_where_status [of y sd_id "sd_id x", OF that(1) [unfolded B(6)], where P = "\<lambda>y. sd_status y \<noteq> DI_OPEN"] that(2) approved(2) by simp
    have "iv_total_inr iv = cs_coins_spent s - approved_refunds d' (sd_session_id x)"
      if "row_by cs_id (sd_session_id x) (charging_sessions d) = Some s" "get_invoice_by_session d' (sd_session_id x) = Some iv" for s iv
      using approve_invoice [OF ok approved(6) that] unfolding B(3) by simp
    then show ?all using B(1,2) M closed unfolding r B(5) by simp
  qed
  show ?thesis using all resolved_stays_resolved [of d' i] by blast
qed

lemma dispute_resolution_sound_witness:
  "\<exists>d' r. cpo_resolve_dispute 150 sample_disputed sample_operator 1 ''approve'' (Some 40) None = (d', Inr r)
     \<and> refund_of r = 4000 \<and> refunds_ok d' \<and> drift d' = drift sample_disputed"
proof -
  have "case cpo_resolve_dispute 150 sample_disputed sample_operator 1 ''approve'' (Some 40) None of
          (_, Inl _) \<Rightarrow> False | (_, Inr r) \<Rightarrow> refund_of r = 4000" by code_simp
  then obtain d' r where run: "cpo_resolve_dispute 150 sample_disputed sample_operator 1 ''approve'' (Some 40) None = (d', Inr r)"
    "refund_of r = 4000" by (rule response_caseE)
  have "refunds_ok sample_disputed" by code_simp
  from dispute_resolution_sound [OF this run(1)] run show ?thesis by blast
qed

end
