(* ===== verification/Tariffs.thy ===== *)
theory Tariffs
  imports Platform Access
begin

text \<open>
  The operator's price list (\<open>backend/routers/cpo/_tariffs.py\<close>): tariffs, their time-of-day slots and
  the assignment of tariffs to plugs, groups and the tenant.  Names are presentation.  The schemas
  admit a positive price of at most 1000 and minutes and weekday masks in range.  A comparison
  with the caller's tenant is the comparison of nullable columns: an operator without a tenant
  matches gateways without one.
\<close>

subsection \<open>Tariffs\<close>

definition own_tariff :: "db \<Rightarrow> int \<Rightarrow> user \<Rightarrow> tariff response" where
  "own_tariff d tariff_id user =
     (case us_tenant_id user of
        None \<Rightarrow> Inl (HTTPException 404 ''Tariff not found or does not belong to your organization.'')
      | Some tenant_id \<Rightarrow> load_tenant_tariff d tariff_id tenant_id)"

definition reprice_tenant :: "config \<Rightarrow> timestamp \<Rightarrow> user \<Rightarrow> db \<Rightarrow> db" where
  "reprice_tenant cfg now user d =
     (case us_tenant_id user of None \<Rightarrow> d | Some tenant_id \<Rightarrow> mark_tenant_sessions_for_reprice cfg d tenant_id now)"

definition upd_tariff :: "int \<Rightarrow> (tariff \<Rightarrow> tariff) \<Rightarrow> db \<Rightarrow> db" where
  "upd_tariff i f d = d\<lparr>tariffs := update_where (\<lambda>t. tf_id t = i) f (tariffs d)\<rparr>"

definition cpo_create_tariff :: "db \<Rightarrow> user \<Rightarrow> pyfloat \<Rightarrow> db \<times> tariff response" where
  "cpo_create_tariff d user price_per_kwh =
     (case operator_tenant user of
        Inl err \<Rightarrow> (d, Inl err)
      | Inr tenant_id \<Rightarrow>
          let tariff = \<lparr>tf_id = fresh_id tf_id (tariffs d), tf_tenant_id = tenant_id, tf_price_per_kwh = to_money_f price_per_kwh\<rparr>
          in (d\<lparr>tariffs := tariffs d @ [tariff]\<rparr>, Inr tariff))"

definition cpo_update_tariff :: "config \<Rightarrow> timestamp \<Rightarrow> db \<Rightarrow> user \<Rightarrow> int \<Rightarrow> pyfloat option \<Rightarrow> db \<times> tariff response" where
  "cpo_update_tariff cfg now d user tariff_id price_per_kwh =
     (case require_role [''cpo'', ''admin''] user of
        Inl err \<Rightarrow> (d, Inl err)
      | Inr _ \<Rightarrow>
          (case own_tariff d tariff_id user of
             Inl err \<Rightarrow> (d, Inl err)
           | Inr tariff \<Rightarrow>
               (case price_per_kwh of
                  None \<Rightarrow> (d, Inr tariff)
                | Some price \<Rightarrow>
                    let tariff1 = tariff\<lparr>tf_price_per_kwh := to_money_f price\<rparr>
                    in (reprice_tenant cfg now user (upd_tariff tariff_id (\<lambda>t. t\<lparr>tf_price_per_kwh := to_money_f price\<rparr>) d), Inr tariff1))))"

text \<open>The foreign keys to a tariff: slots are deleted with it, every other reference is set to null.\<close>

definition drop_tariff :: "int \<Rightarrow> db \<Rightarrow> db" where
  "drop_tariff tariff_id d =
     d\<lparr>tariffs := filter (\<lambda>t. tf_id t \<noteq> tariff_id) (tariffs d),
       tariff_slots := filter (\<lambda>s. ts_tariff_id s \<noteq> tariff_id) (tariff_slots d),
       plugs := update_where (\<lambda>p. pl_tariff_id p = Some tariff_id) (\<lambda>p. p\<lparr>pl_tariff_id := None\<rparr>) (plugs d),
       charger_groups := update_where (\<lambda>g. cg_tariff_id g = Some tariff_id) (\<lambda>g. g\<lparr>cg_tariff_id := None\<rparr>) (charger_groups d),
       tenants := update_where (\<lambda>t. tn_default_tariff_id t = Some tariff_id) (\<lambda>t. t\<lparr>tn_default_tariff_id := None\<rparr>) (tenants d)\<rparr>"

definition cpo_delete_tariff :: "config \<Rightarrow> timestamp \<Rightarrow> db \<Rightarrow> user \<Rightarrow> int \<Rightarrow> db \<times> int response" where
  "cpo_delete_tariff cfg now d user tariff_id =
     (case require_role [''cpo'', ''admin''] user of
        Inl err \<Rightarrow> (d, Inl err)
      | Inr _ \<Rightarrow>
          (case own_tariff d tariff_id user of
             Inl err \<Rightarrow> (d, Inl err)
           | Inr _ \<Rightarrow> (reprice_tenant cfg now user (drop_tariff tariff_id d), Inr tariff_id)))"

subsection \<open>Time-of-day slots\<close>

definition load_tenant_slot :: "db \<Rightarrow> int \<Rightarrow> int \<Rightarrow> tariff_slot response" where
  "load_tenant_slot d tariff_id slot_id =
     (case find (\<lambda>s. ts_id s = slot_id \<and> ts_tariff_id s = tariff_id) (tariff_slots d) of
        None \<Rightarrow> Inl (HTTPException 404 ''Slot not found on this tariff.'')
      | Some slot \<Rightarrow> Inr slot)"

definition validate_slot_window :: "db \<Rightarrow> int \<Rightarrow> int \<Rightarrow> int \<Rightarrow> int \<Rightarrow> int option \<Rightarrow> unit response" where
  "validate_slot_window d tariff_id start_min end_min days_mask exclude_id =
     (if end_min \<le> start_min then Inl (HTTPException 400 ''Slot start must be before its end.'')
      else if exists_row (\<lambda>s. ts_tariff_id s = tariff_id \<and> exclude_id \<noteq> Some (ts_id s)
                \<and> slot_overlaps start_min end_min days_mask (ts_start_min s) (ts_end_min s) (ts_days_mask s)) (tariff_slots d)
      then Inl (HTTPException 409 ''That window overlaps an existing slot.'')
      else Inr ())"

definition cpo_list_tariff_slots :: "db \<Rightarrow> user \<Rightarrow> int \<Rightarrow> tariff_slot list response" where
  "cpo_list_tariff_slots d user tariff_id =
     (case require_role [''cpo'', ''admin''] user of
        Inl err \<Rightarrow> Inl err
      | Inr _ \<Rightarrow>
          (case own_tariff d tariff_id user of
             Inl err \<Rightarrow> Inl err
           | Inr _ \<Rightarrow> Inr (sort_key ts_start_min (filter (\<lambda>s. ts_tariff_id s = tariff_id) (tariff_slots d)))))"

definition add_slot :: "db \<Rightarrow> int \<Rightarrow> int \<Rightarrow> int \<Rightarrow> pyfloat \<Rightarrow> int \<Rightarrow> db \<times> tariff_slot" where
  "add_slot d tariff_id start_min end_min price_per_kwh days_mask =
     (let slot = \<lparr>ts_id = fresh_id ts_id (tariff_slots d), ts_tariff_id = tariff_id, ts_start_min = start_min, ts_end_min = end_min,
                  ts_price_per_kwh = to_money_f price_per_kwh, ts_days_mask = days_mask\<rparr>
      in (d\<lparr>tariff_slots := tariff_slots d @ [slot]\<rparr>, slot))"

definition cpo_create_tariff_slot ::
  "config \<Rightarrow> timestamp \<Rightarrow> db \<Rightarrow> user \<Rightarrow> int \<Rightarrow> int \<Rightarrow> int \<Rightarrow> pyfloat \<Rightarrow> int \<Rightarrow> db \<times> tariff_slot response" where
  "cpo_create_tariff_slot cfg now d user tariff_id start_min end_min price_per_kwh days_mask =
     (case require_role [''cpo'', ''admin''] user of
        Inl err \<Rightarrow> (d, Inl err)
      | Inr _ \<Rightarrow>
          (case own_tariff d tariff_id user of
             Inl err \<Rightarrow> (d, Inl err)
           | Inr _ \<Rightarrow>
               (case validate_slot_window d tariff_id start_min end_min days_mask None of
                  Inl err \<Rightarrow> (d, Inl err)
                | Inr _ \<Rightarrow>
                    let added = add_slot d tariff_id start_min end_min price_per_kwh days_mask
                    in (reprice_tenant cfg now user (fst added), Inr (snd added)))))"

definition upd_slot :: "int \<Rightarrow> (tariff_slot \<Rightarrow> tariff_slot) \<Rightarrow> db \<Rightarrow> db" where
  "upd_slot i f d = d\<lparr>tariff_slots := update_where (\<lambda>s. ts_id s = i) f (tariff_slots d)\<rparr>"

definition or_keep :: "'a option \<Rightarrow> 'a \<Rightarrow> 'a" where
  "or_keep new old = (case new of Some v \<Rightarrow> v | None \<Rightarrow> old)"

definition cpo_update_tariff_slot ::
  "config \<Rightarrow> timestamp \<Rightarrow> db \<Rightarrow> user \<Rightarrow> int \<Rightarrow> int \<Rightarrow> int option \<Rightarrow> int option \<Rightarrow> pyfloat option \<Rightarrow> int option
     \<Rightarrow> db \<times> tariff_slot response" where
  "cpo_update_tariff_slot cfg now d user tariff_id slot_id start_min end_min price_per_kwh days_mask =
     (case require_role [''cpo'', ''admin''] user of
        Inl err \<Rightarrow> (d, Inl err)
      | Inr _ \<Rightarrow>
          (case own_tariff d tariff_id user of
             Inl err \<Rightarrow> (d, Inl err)
           | Inr _ \<Rightarrow>
               (case load_tenant_slot d tariff_id slot_id of
                  Inl err \<Rightarrow> (d, Inl err)
                | Inr slot \<Rightarrow>
                    let new_start = or_keep start_min (ts_start_min slot);
                        new_end = or_keep end_min (ts_end_min slot);
                        new_days = or_keep days_mask (ts_days_mask slot)
                    in (case validate_slot_window d tariff_id new_start new_end new_days (Some slot_id) of
                          Inl err \<Rightarrow> (d, Inl err)
                        | Inr _ \<Rightarrow>
                            let slot1 = slot\<lparr>ts_start_min := new_start, ts_end_min := new_end, ts_days_mask := new_days,
                                           ts_price_per_kwh := (case price_per_kwh of Some p \<Rightarrow> to_money_f p | None \<Rightarrow> ts_price_per_kwh slot)\<rparr>
                            in (reprice_tenant cfg now user (upd_slot slot_id (\<lambda>_. slot1) d), Inr slot1)))))"

definition cpo_delete_tariff_slot :: "config \<Rightarrow> timestamp \<Rightarrow> db \<Rightarrow> user \<Rightarrow> int \<Rightarrow> int \<Rightarrow> db \<times> int response" where
  "cpo_delete_tariff_slot cfg now d user tariff_id slot_id =
     (case require_role [''cpo'', ''admin''] user of
        Inl err \<Rightarrow> (d, Inl err)
      | Inr _ \<Rightarrow>
          (case own_tariff d tariff_id user of
             Inl err \<Rightarrow> (d, Inl err)
           | Inr _ \<Rightarrow>
               (case load_tenant_slot d tariff_id slot_id of
                  Inl err \<Rightarrow> (d, Inl err)
                | Inr _ \<Rightarrow>
                    (reprice_tenant cfg now user (d\<lparr>tariff_slots := filter (\<lambda>s. ts_id s \<noteq> slot_id) (tariff_slots d)\<rparr>), Inr slot_id))))"

subsection \<open>Assignment\<close>

text \<open>The tariff an assignment names, if any, must be the caller's own.\<close>

definition assignable :: "db \<Rightarrow> user \<Rightarrow> int option \<Rightarrow> unit response" where
  "assignable d user tariff_id =
     (case tariff_id of
        None \<Rightarrow> Inr ()
      | Some i \<Rightarrow> (case own_tariff d i user of Inl err \<Rightarrow> Inl err | Inr _ \<Rightarrow> Inr ()))"

definition tenant_plug :: "db \<Rightarrow> user \<Rightarrow> int \<Rightarrow> plug option" where
  "tenant_plug d user plug_id =
     find (\<lambda>p. pl_id p = plug_id
       \<and> exists_row (\<lambda>g. gw_id g = pl_gateway_id p \<and> gw_tenant_id g = us_tenant_id user) (gateways d)) (plugs d)"

definition tenant_group :: "db \<Rightarrow> user \<Rightarrow> int \<Rightarrow> charger_group option" where
  "tenant_group d user group_id =
     find (\<lambda>g. cg_id g = group_id \<and> us_tenant_id user = Some (cg_tenant_id g)) (charger_groups d)"

definition cpo_assign_plug_tariff :: "db \<Rightarrow> user \<Rightarrow> int \<Rightarrow> int option \<Rightarrow> db \<times> unit response" where
  "cpo_assign_plug_tariff d user plug_id tariff_id =
     (case require_role [''cpo'', ''admin''] user of
        Inl err \<Rightarrow> (d, Inl err)
      | Inr _ \<Rightarrow>
          (case tenant_plug d user plug_id of
             None \<Rightarrow> (d, Inl (HTTPException 404 ''Plug not found or access denied.''))
           | Some _ \<Rightarrow>
               (case assignable d user tariff_id of
                  Inl err \<Rightarrow> (d, Inl err)
                | Inr _ \<Rightarrow> (upd_plug plug_id (\<lambda>p. p\<lparr>pl_tariff_id := tariff_id\<rparr>) d, Inr ()))))"

definition upd_group :: "int \<Rightarrow> (charger_group \<Rightarrow> charger_group) \<Rightarrow> db \<Rightarrow> db" where
  "upd_group i f d = d\<lparr>charger_groups := update_where (\<lambda>g. cg_id g = i) f (charger_groups d)\<rparr>"

definition cpo_assign_group_tariff :: "db \<Rightarrow> user \<Rightarrow> int \<Rightarrow> int option \<Rightarrow> db \<times> unit response" where
  "cpo_assign_group_tariff d user group_id tariff_id =
     (case require_role [''cpo'', ''admin''] user of
        Inl err \<Rightarrow> (d, Inl err)
      | Inr _ \<Rightarrow>
          (case tenant_group d user group_id of
             None \<Rightarrow> (d, Inl (HTTPException 404 ''Group not found or access denied.''))
           | Some _ \<Rightarrow>
               (case assignable d user tariff_id of
                  Inl err \<Rightarrow> (d, Inl err)
                | Inr _ \<Rightarrow> (upd_group group_id (\<lambda>g. g\<lparr>cg_tariff_id := tariff_id\<rparr>) d, Inr ()))))"

definition cpo_assign_tenant_default_tariff :: "db \<Rightarrow> user \<Rightarrow> int option \<Rightarrow> db \<times> unit response" where
  "cpo_assign_tenant_default_tariff d user tariff_id =
     (case require_role [''cpo'', ''admin''] user of
        Inl err \<Rightarrow> (d, Inl err)
      | Inr _ \<Rightarrow>
          (case find (\<lambda>t. us_tenant_id user = Some (tn_id t)) (tenants d) of
             None \<Rightarrow> (d, Inl (HTTPException 404 ''Tenant not found.''))
           | Some tenant \<Rightarrow>
               (case assignable d user tariff_id of
                  Inl err \<Rightarrow> (d, Inl err)
                | Inr _ \<Rightarrow>
                    (d\<lparr>tenants := update_where (\<lambda>t. tn_id t = tn_id tenant) (\<lambda>t. t\<lparr>tn_default_tariff_id := tariff_id\<rparr>) (tenants d)\<rparr>,
                     Inr ()))))"

subsection \<open>The price list\<close>

definition price_admitted :: "pyfloat \<Rightarrow> bool" where
  "price_admitted x \<longleftrightarrow> is_float x \<and> 0 < x \<and> x \<le> 1000"

definition slot_ok :: "tariff_slot \<Rightarrow> bool" where
  "slot_ok s \<longleftrightarrow> 0 \<le> ts_start_min s \<and> ts_start_min s < ts_end_min s \<and> ts_end_min s \<le> 1440
     \<and> 1 \<le> ts_days_mask s \<and> ts_days_mask s \<le> 127 \<and> 0 \<le> ts_price_per_kwh s"

definition clash :: "tariff_slot \<Rightarrow> tariff_slot \<Rightarrow> bool" where
  "clash a b \<longleftrightarrow> ts_id a \<noteq> ts_id b \<and> ts_tariff_id a = ts_tariff_id b
     \<and> slot_overlaps (ts_start_min a) (ts_end_min a) (ts_days_mask a) (ts_start_min b) (ts_end_min b) (ts_days_mask b)"

definition slots_sound :: "db \<Rightarrow> bool" where
  "slots_sound d \<longleftrightarrow> distinct (map ts_id (tariff_slots d))
     \<and> list_all (\<lambda>t. 0 \<le> tf_price_per_kwh t) (tariffs d)
     \<and> list_all (\<lambda>a. slot_ok a \<and> list_all (\<lambda>b. \<not> clash a b) (tariff_slots d)) (tariff_slots d)"

text \<open>Who owns a tariff, and that every assignment stays with the owner.\<close>

definition tariff_owner :: "db \<Rightarrow> int \<Rightarrow> int option" where
  "tariff_owner d i = map_option tf_tenant_id (row_by tf_id i (tariffs d))"

definition may_use :: "db \<Rightarrow> int option \<Rightarrow> int option \<Rightarrow> bool" where
  "may_use d tariff_id tenant_id \<longleftrightarrow>
     (case tariff_id of None \<Rightarrow> True | Some i \<Rightarrow> tenant_id \<noteq> None \<and> tariff_owner d i = tenant_id)"

definition gateway_tenant :: "db \<Rightarrow> plug \<Rightarrow> int option" where
  "gateway_tenant d p = (case row_by gw_id (pl_gateway_id p) (gateways d) of None \<Rightarrow> None | Some g \<Rightarrow> gw_tenant_id g)"

definition assigned_ok :: "db \<Rightarrow> bool" where
  "assigned_ok d \<longleftrightarrow> distinct (map gw_id (gateways d)) \<and> distinct (map pl_id (plugs d))
     \<and> distinct (map cg_id (charger_groups d)) \<and> distinct (map tf_id (tariffs d))
     \<and> list_all (\<lambda>p. may_use d (pl_tariff_id p) (gateway_tenant d p)
          \<and> list_all (\<lambda>g. pl_group_id p = Some (cg_id g) \<longrightarrow> gateway_tenant d p = Some (cg_tenant_id g)) (charger_groups d)) (plugs d)
     \<and> list_all (\<lambda>g. may_use d (cg_tariff_id g) (Some (cg_tenant_id g))) (charger_groups d)
     \<and> list_all (\<lambda>t. may_use d (tn_default_tariff_id t) (Some (tn_id t))) (tenants d)"

definition price_list_ok :: "db \<Rightarrow> bool" where
  "price_list_ok d \<longleftrightarrow> slots_sound d \<and> assigned_ok d"

text \<open>
  Everything an operator can do to the price list, with what the schemas admit.  A request is one
  step: its checks and its writes run with no other request on that tariff in between, which the
  code itself does not enforce (no row is locked).
\<close>

inductive tariff_step :: "config \<Rightarrow> db \<Rightarrow> db \<Rightarrow> bool" for cfg where
  create_tariff: "price_admitted p \<Longrightarrow> tariff_step cfg d (fst (cpo_create_tariff d user p))"
| update_tariff: "pred_option price_admitted p \<Longrightarrow> tariff_step cfg d (fst (cpo_update_tariff cfg now d user i p))"
| delete_tariff: "tariff_step cfg d (fst (cpo_delete_tariff cfg now d user i))"
| create_slot: "price_admitted p \<Longrightarrow> 0 \<le> a \<Longrightarrow> b \<le> 1440 \<Longrightarrow> 1 \<le> m \<Longrightarrow> m \<le> 127 \<Longrightarrow>
    tariff_step cfg d (fst (cpo_create_tariff_slot cfg now d user i a b p m))"
| update_slot: "pred_option price_admitted p \<Longrightarrow> pred_option (\<lambda>x. 0 \<le> x) a \<Longrightarrow> pred_option (\<lambda>x. x \<le> 1440) b \<Longrightarrow>
    pred_option (\<lambda>x. 1 \<le> x \<and> x \<le> 127) m \<Longrightarrow> tariff_step cfg d (fst (cpo_update_tariff_slot cfg now d user i j a b p m))"
| delete_slot: "tariff_step cfg d (fst (cpo_delete_tariff_slot cfg now d user i j))"
| assign_plug: "tariff_step cfg d (fst (cpo_assign_plug_tariff d user p i))"
| assign_group: "tariff_step cfg d (fst (cpo_assign_group_tariff d user g i))"
| assign_default: "tariff_step cfg d (fst (cpo_assign_tenant_default_tariff d user i))"

definition sample_manager :: user where
  "sample_manager = sample_user\<lparr>us_role := CPO, us_tenant_id := Some 1\<rparr>"

subsection \<open>Lemmas\<close>

lemma reprice_tenant_simps [simp]:
  "tariffs (reprice_tenant cfg now u d) = tariffs d" "tariff_slots (reprice_tenant cfg now u d) = tariff_slots d"
  "plugs (reprice_tenant cfg now u d) = plugs d" "charger_groups (reprice_tenant cfg now u d) = charger_groups d"
  "tenants (reprice_tenant cfg now u d) = tenants d" "gateways (reprice_tenant cfg now u d) = gateways d"
  "users (reprice_tenant cfg now u d) = users d" "ledger (reprice_tenant cfg now u d) = ledger d"
  "queued_charges (reprice_tenant cfg now u d) = queued_charges d" "reservations (reprice_tenant cfg now u d) = reservations d"
  by (simp_all add: reprice_tenant_def mark_tenant_sessions_for_reprice_def split: option.split)

lemma slots_sound_cong: "tariffs d' = tariffs d \<Longrightarrow> tariff_slots d' = tariff_slots d \<Longrightarrow> slots_sound d' = slots_sound d"
  by (simp add: slots_sound_def)

lemma tariff_owner_cong: "tariffs d' = tariffs d \<Longrightarrow> tariff_owner d' = tariff_owner d"
  by (simp add: tariff_owner_def fun_eq_iff)

lemma may_use_cong: "tariff_owner d' = tariff_owner d \<Longrightarrow> may_use d' = may_use d"
  by (simp add: may_use_def fun_eq_iff split: option.split)

lemma gateway_tenant_cong: "gateways d' = gateways d \<Longrightarrow> gateway_tenant d' = gateway_tenant d"
  by (simp add: gateway_tenant_def fun_eq_iff)

lemma assigned_ok_cong:
  assumes "tariffs d' = tariffs d" "plugs d' = plugs d" "charger_groups d' = charger_groups d" "tenants d' = tenants d"
    "gateways d' = gateways d"
  shows "assigned_ok d' = assigned_ok d"
  using may_use_cong [OF tariff_owner_cong [OF assms(1)]] gateway_tenant_cong [OF assms(5)] assms by (simp add: assigned_ok_def)

lemma price_list_ok_reprice [simp]: "price_list_ok (reprice_tenant cfg now u d) = price_list_ok d"
  using slots_sound_cong [of "reprice_tenant cfg now u d" d] assigned_ok_cong [of "reprice_tenant cfg now u d" d]
  by (simp add: price_list_ok_def)

lemma own_tariff_InrD:
  assumes "own_tariff d i user = Inr t"
  shows "t \<in> set (tariffs d) \<and> tf_id t = i \<and> us_tenant_id user = Some (tf_tenant_id t)"
  using assms by (auto simp: own_tariff_def load_tenant_tariff_def find_Some_iff split: option.splits)

lemma own_tariff_owner:
  assumes "own_tariff d i user = Inr t" "assigned_ok d"
  shows "tariff_owner d i = us_tenant_id user"
  using own_tariff_InrD [OF assms(1)] row_by_in_set [of tf_id "tariffs d" t] assms(2) by (auto simp: assigned_ok_def tariff_owner_def)

lemma admitted_nonneg: "price_admitted x \<Longrightarrow> 0 \<le> to_money_f x"
  by (simp add: price_admitted_def to_money_f_nonneg)

lemma clash_sym: "clash a b \<Longrightarrow> clash b a"
  by (auto simp: clash_def slot_overlaps_def and.commute split: if_splits)

lemma slots_sound_iff:
  "slots_sound d \<longleftrightarrow> distinct (map ts_id (tariff_slots d)) \<and> (\<forall>t \<in> set (tariffs d). 0 \<le> tf_price_per_kwh t)
     \<and> (\<forall>a \<in> set (tariff_slots d). slot_ok a \<and> (\<forall>b \<in> set (tariff_slots d). \<not> clash a b))"
  by (simp add: slots_sound_def list_all_iff)

lemma slots_sound_sub:
  assumes "slots_sound d" "tariff_slots d' = filter P (tariff_slots d)" "set (tariffs d') \<subseteq> set (tariffs d)"
  shows "slots_sound d'"
  using assms by (auto simp: slots_sound_iff distinct_map_filter)

lemma slots_sound_add:
  assumes "slots_sound d" "slot_ok s" "ts_id s = fresh_id ts_id (tariff_slots d)" "\<forall>b \<in> set (tariff_slots d). \<not> clash s b"
    "tariff_slots d' = tariff_slots d @ [s]" "tariffs d' = tariffs d"
  shows "slots_sound d'"
proof -
  have "\<not> clash b s" if "b \<in> set (tariff_slots d)" for b using that assms(4) clash_sym by blast
  moreover have "\<not> clash s s" by (simp add: clash_def)
  moreover have "ts_id s \<notin> ts_id ` set (tariff_slots d)" by (simp add: assms(3))
  ultimately show ?thesis using assms(1,2,4-6) by (auto simp: slots_sound_iff)
qed

lemma slots_sound_update:
  assumes ok: "slots_sound d" and s: "slot_ok s" "\<forall>b \<in> set (tariff_slots d). \<not> clash s b"
    and d': "tariff_slots d' = update_where (\<lambda>x. ts_id x = ts_id s) (\<lambda>_. s) (tariff_slots d)" "tariffs d' = tariffs d"
  shows "slots_sound d'"
proof -
  have ids: "map ts_id (tariff_slots d') = map ts_id (tariff_slots d)" by (simp add: d'(1) update_where_def)
  have rows: "a = s \<or> a \<in> set (tariff_slots d)" if "a \<in> set (tariff_slots d')" for a
    using that by (auto simp: d'(1) set_update_where split: if_splits)
  have clean: "\<not> clash a b" if "a = s \<or> a \<in> set (tariff_slots d)" "b = s \<or> b \<in> set (tariff_slots d)" for a b
    using that ok s(2) clash_sym by (auto simp: slots_sound_iff clash_def [of s s])
  show ?thesis unfolding slots_sound_iff ids d'(2) using ok s(1) rows clean unfolding slots_sound_iff by blast
qed

lemma assigned_ok_iff:
  "assigned_ok d \<longleftrightarrow> distinct (map gw_id (gateways d)) \<and> distinct (map pl_id (plugs d))
     \<and> distinct (map cg_id (charger_groups d)) \<and> distinct (map tf_id (tariffs d))
     \<and> (\<forall>p \<in> set (plugs d). may_use d (pl_tariff_id p) (gateway_tenant d p)
          \<and> (\<forall>g \<in> set (charger_groups d). pl_group_id p = Some (cg_id g) \<longrightarrow> gateway_tenant d p = Some (cg_tenant_id g)))
     \<and> (\<forall>g \<in> set (charger_groups d). may_use d (cg_tariff_id g) (Some (cg_tenant_id g)))
     \<and> (\<forall>t \<in> set (tenants d). may_use d (tn_default_tariff_id t) (Some (tn_id t)))"
  by (simp add: assigned_ok_def list_all_iff)

lemma ball_update_where:
  "(\<forall>x \<in> set (update_where P f rows). Q x) \<longleftrightarrow> (\<forall>x \<in> set rows. if P x then Q (f x) else Q x)"
  by (auto simp: set_update_where)

lemma drop_tariff_simps [simp]:
  "tariffs (drop_tariff i d) = filter (\<lambda>t. tf_id t \<noteq> i) (tariffs d)"
  "tariff_slots (drop_tariff i d) = filter (\<lambda>s. ts_tariff_id s \<noteq> i) (tariff_slots d)"
  "plugs (drop_tariff i d) = update_where (\<lambda>p. pl_tariff_id p = Some i) (\<lambda>p. p\<lparr>pl_tariff_id := None\<rparr>) (plugs d)"
  "charger_groups (drop_tariff i d) = update_where (\<lambda>g. cg_tariff_id g = Some i) (\<lambda>g. g\<lparr>cg_tariff_id := None\<rparr>) (charger_groups d)"
  "tenants (drop_tariff i d) = update_where (\<lambda>t. tn_default_tariff_id t = Some i) (\<lambda>t. t\<lparr>tn_default_tariff_id := None\<rparr>) (tenants d)"
  "gateways (drop_tariff i d) = gateways d" "users (drop_tariff i d) = users d" "ledger (drop_tariff i d) = ledger d"
  "charging_sessions (drop_tariff i d) = charging_sessions d" "queued_charges (drop_tariff i d) = queued_charges d"
  "reservations (drop_tariff i d) = reservations d"
  by (simp_all add: drop_tariff_def)

lemma may_use_mono:
  "(\<And>i t. tariff_owner d i = Some t \<Longrightarrow> tariff_owner d' i = Some t) \<Longrightarrow> may_use d a b \<Longrightarrow> may_use d' a b"
  by (auto simp: may_use_def split: option.splits)

lemma assigned_ok_tariffs:
  assumes "assigned_ok d" "\<And>i t. tariff_owner d i = Some t \<Longrightarrow> tariff_owner d' i = Some t" "distinct (map tf_id (tariffs d'))"
    "plugs d' = plugs d" "charger_groups d' = charger_groups d" "tenants d' = tenants d" "gateways d' = gateways d"
  shows "assigned_ok d'"
  using assms(1,3) may_use_mono [OF assms(2)] unfolding assigned_ok_iff assms(4-7) gateway_tenant_cong [OF assms(7)] by blast

lemma assigned_ok_drop:
  assumes ok: "assigned_ok d"
  shows "assigned_ok (drop_tariff i d)"
proof -
  have row: "row_by tf_id j (filter (\<lambda>t. tf_id t \<noteq> i) rows) = (if j = i then None else row_by tf_id j rows)" for j rows
    by (induction rows) (auto simp: row_by_Cons)
  have use: "may_use (drop_tariff i d) a b" if "may_use d a b" "a \<noteq> Some i" for a b
    using that by (auto simp: may_use_def tariff_owner_def row split: option.splits)
  have none: "may_use (drop_tariff i d) None b" for b by (simp add: may_use_def)
  have gt: "gateway_tenant (drop_tariff i d) p = gateway_tenant d p" "gateway_tenant d (p\<lparr>pl_tariff_id := None\<rparr>) = gateway_tenant d p" for p
    by (simp_all add: gateway_tenant_def)
  show ?thesis
    using ok use none unfolding assigned_ok_iff gt drop_tariff_simps ball_update_where
    by (simp add: map_update_where distinct_map_filter gt(2))
qed

lemma assignable_use:
  assumes "assignable d user i = Inr ()" "assigned_ok d"
  shows "may_use d i (us_tenant_id user)"
  using assms own_tariff_owner own_tariff_InrD
  by (fastforce simp: assignable_def may_use_def split: option.splits sum.splits)

lemma assigned_ok_plug:
  assumes ok: "assigned_ok d" and p: "tenant_plug d user p = Some row" and use: "may_use d i (us_tenant_id user)"
  shows "assigned_ok (upd_plug p (\<lambda>r. r\<lparr>pl_tariff_id := i\<rparr>) d)"
proof -
  let ?d = "upd_plug p (\<lambda>r. r\<lparr>pl_tariff_id := i\<rparr>) d"
  have row: "row \<in> set (plugs d)" "pl_id row = p" "\<exists>g \<in> set (gateways d). gw_id g = pl_gateway_id row \<and> gw_tenant_id g = us_tenant_id user"
    using p by (auto simp: tenant_plug_def find_Some_iff exists_row_iff)
  have tenant: "gateway_tenant d r = us_tenant_id user" if "r \<in> set (plugs d)" "pl_id r = p" for r
  proof -
    have "r = row" using distinct_key_eq [of pl_id "plugs d" r row] that row ok by (simp add: assigned_ok_iff)
    obtain g where g: "g \<in> set (gateways d)" "gw_id g = pl_gateway_id row" "gw_tenant_id g = us_tenant_id user" using row(3) by blast
    have "row_by gw_id (pl_gateway_id row) (gateways d) = Some g"
      using row_by_in_set [of gw_id "gateways d" g] g ok by (simp add: assigned_ok_iff)
    then show ?thesis using g(3) \<open>r = row\<close> by (simp add: gateway_tenant_def)
  qed
  have gt: "gateway_tenant ?d = gateway_tenant d" "gateway_tenant d (r\<lparr>pl_tariff_id := i\<rparr>) = gateway_tenant d r" for r
    by (simp_all add: gateway_tenant_def fun_eq_iff upd_plug_def)
  have mu: "may_use ?d = may_use d" by (rule may_use_cong, rule tariff_owner_cong) (simp add: upd_plug_def)
  show ?thesis
    using ok use tenant unfolding assigned_ok_iff gt mu
    by (simp add: upd_plug_def map_update_where ball_update_where gt(2))
qed

lemma assigned_ok_group:
  assumes ok: "assigned_ok d" and g: "tenant_group d user g = Some row" and use: "may_use d i (us_tenant_id user)"
  shows "assigned_ok (upd_group g (\<lambda>r. r\<lparr>cg_tariff_id := i\<rparr>) d)"
proof -
  let ?d = "upd_group g (\<lambda>r. r\<lparr>cg_tariff_id := i\<rparr>) d"
  have row: "row \<in> set (charger_groups d)" "cg_id row = g" "us_tenant_id user = Some (cg_tenant_id row)"
    using g by (auto simp: tenant_group_def find_Some_iff)
  have tenant: "may_use d i (Some (cg_tenant_id r))" if "r \<in> set (charger_groups d)" "cg_id r = g" for r
    using distinct_key_eq [of cg_id "charger_groups d" r row] that row ok use by (simp add: assigned_ok_iff)
  have gt: "gateway_tenant ?d = gateway_tenant d" by (rule gateway_tenant_cong) (simp add: upd_group_def)
  have mu: "may_use ?d = may_use d" by (rule may_use_cong, rule tariff_owner_cong) (simp add: upd_group_def)
  show ?thesis
    using ok use tenant unfolding assigned_ok_iff gt mu
    by (simp add: upd_group_def map_update_where ball_update_where)
qed

lemma assigned_ok_default:
  assumes ok: "assigned_ok d" and t: "us_tenant_id user = Some t" and use: "may_use d i (us_tenant_id user)"
  shows "assigned_ok (d\<lparr>tenants := update_where (\<lambda>r. tn_id r = t) (\<lambda>r. r\<lparr>tn_default_tariff_id := i\<rparr>) (tenants d)\<rparr>)" (is "assigned_ok ?d")
proof -
  have gt: "gateway_tenant ?d = gateway_tenant d" by (rule gateway_tenant_cong) simp
  have mu: "may_use ?d = may_use d" by (rule may_use_cong, rule tariff_owner_cong) simp
  show ?thesis using ok use t unfolding assigned_ok_iff gt mu by (simp add: ball_update_where)
qed

text \<open>The three assignment handlers share the shape of their guards.\<close>

lemma price_list_ok_assign:
  assumes ok: "price_list_ok d" and i: "assignable d user i = Inr ()"
  shows "tenant_plug d user p = Some row \<Longrightarrow> price_list_ok (upd_plug p (\<lambda>r. r\<lparr>pl_tariff_id := i\<rparr>) d)"
    "tenant_group d user g = Some grp \<Longrightarrow> price_list_ok (upd_group g (\<lambda>r. r\<lparr>cg_tariff_id := i\<rparr>) d)"
    "us_tenant_id user = Some t \<Longrightarrow>
       price_list_ok (d\<lparr>tenants := update_where (\<lambda>r. tn_id r = t) (\<lambda>r. r\<lparr>tn_default_tariff_id := i\<rparr>) (tenants d)\<rparr>)"
proof -
  have parts: "slots_sound d" "assigned_ok d" using ok by (simp_all add: price_list_ok_def)
  note use = assignable_use [OF i parts(2)]
  show "price_list_ok (upd_plug p (\<lambda>r. r\<lparr>pl_tariff_id := i\<rparr>) d)" if "tenant_plug d user p = Some row"
    using assigned_ok_plug [OF parts(2) that use] parts(1) slots_sound_cong [of "upd_plug p (\<lambda>r. r\<lparr>pl_tariff_id := i\<rparr>) d" d]
    by (simp add: price_list_ok_def upd_plug_def)
  show "price_list_ok (upd_group g (\<lambda>r. r\<lparr>cg_tariff_id := i\<rparr>) d)" if "tenant_group d user g = Some grp"
    using assigned_ok_group [OF parts(2) that use] parts(1) slots_sound_cong [of "upd_group g (\<lambda>r. r\<lparr>cg_tariff_id := i\<rparr>) d" d]
    by (simp add: price_list_ok_def upd_group_def)
  show "price_list_ok (d\<lparr>tenants := update_where (\<lambda>r. tn_id r = t) (\<lambda>r. r\<lparr>tn_default_tariff_id := i\<rparr>) (tenants d)\<rparr>)"
    if "us_tenant_id user = Some t"
    using assigned_ok_default [OF parts(2) that use] parts(1)
    by (simp add: price_list_ok_def slots_sound_def)
qed

lemma price_list_ok_slots:
  assumes "price_list_ok d" "slots_sound d'" "tariffs d' = tariffs d" "plugs d' = plugs d" "charger_groups d' = charger_groups d"
    "tenants d' = tenants d" "gateways d' = gateways d"
  shows "price_list_ok d'"
  using assms assigned_ok_cong [of d' d] by (simp add: price_list_ok_def)

lemma validated_no_clash:
  assumes "validate_slot_window d i a b m ex = Inr ()" "ts_tariff_id s = i" "ts_start_min s = a" "ts_end_min s = b" "ts_days_mask s = m"
    "ex = None \<or> ex = Some (ts_id s)"
  shows "a < b" "\<forall>x \<in> set (tariff_slots d). \<not> clash s x"
  using assms by (auto simp: validate_slot_window_def exists_row_iff clash_def split: if_splits)

lemma load_tenant_slot_InrD:
  "load_tenant_slot d i j = Inr s \<Longrightarrow> s \<in> set (tariff_slots d) \<and> ts_id s = j \<and> ts_tariff_id s = i"
  by (auto simp: load_tenant_slot_def find_Some_iff split: option.splits)

lemma create_tariff_ok:
  assumes ok: "price_list_ok d" and p: "price_admitted p"
  shows "price_list_ok (fst (cpo_create_tariff d user p))"
proof (cases "operator_tenant user")
  case (Inr tenant)
  let ?t = "\<lparr>tf_id = fresh_id tf_id (tariffs d), tf_tenant_id = tenant, tf_price_per_kwh = to_money_f p\<rparr>"
  let ?d = "d\<lparr>tariffs := tariffs d @ [?t]\<rparr>"
  have parts: "slots_sound d" "assigned_ok d" using ok by (simp_all add: price_list_ok_def)
  have "slots_sound ?d" using parts(1) admitted_nonneg [OF p] by (simp add: slots_sound_iff)
  moreover have "assigned_ok ?d"
    by (rule assigned_ok_tariffs [OF parts(2)])
      (use parts(2) in \<open>auto simp: tariff_owner_def row_by_append assigned_ok_iff split: option.splits\<close>)
  ultimately show ?thesis using Inr by (simp add: cpo_create_tariff_def Let_def price_list_ok_def)
qed (use ok in \<open>simp add: cpo_create_tariff_def\<close>)

lemma update_tariff_ok:
  assumes ok: "price_list_ok d" and p: "pred_option price_admitted p"
  shows "price_list_ok (fst (cpo_update_tariff cfg now d user i p))"
proof -
  have "price_list_ok (upd_tariff i (\<lambda>t. t\<lparr>tf_price_per_kwh := to_money_f x\<rparr>) d)" if "price_admitted x" for x
  proof -
    let ?d = "upd_tariff i (\<lambda>t. t\<lparr>tf_price_per_kwh := to_money_f x\<rparr>) d"
    have parts: "slots_sound d" "assigned_ok d" using ok by (simp_all add: price_list_ok_def)
    have "slots_sound ?d" using parts(1) admitted_nonneg [OF that] by (simp add: slots_sound_iff upd_tariff_def ball_update_where)
    moreover have "tariff_owner ?d = tariff_owner d"
      by (auto simp: tariff_owner_def upd_tariff_def row_by_update_where option.map_comp o_def fun_eq_iff intro!: option.map_cong)
    then have "assigned_ok ?d"
      by (intro assigned_ok_tariffs [OF parts(2)])
        (use parts(2) in \<open>simp_all add: upd_tariff_def assigned_ok_iff map_update_where\<close>)
    ultimately show ?thesis by (simp add: price_list_ok_def)
  qed
  then show ?thesis using ok p by (auto simp: cpo_update_tariff_def Let_def split: sum.split option.split)
qed

lemma delete_tariff_ok:
  assumes ok: "price_list_ok d"
  shows "price_list_ok (fst (cpo_delete_tariff cfg now d user i))"
proof -
  have parts: "slots_sound d" "assigned_ok d" using ok by (simp_all add: price_list_ok_def)
  have "slots_sound (drop_tariff i d)"
    by (rule slots_sound_sub [OF parts(1), where P = "\<lambda>s. ts_tariff_id s \<noteq> i"]) auto
  then have "price_list_ok (drop_tariff i d)" using assigned_ok_drop [OF parts(2)] by (simp add: price_list_ok_def)
  then show ?thesis using ok by (simp add: cpo_delete_tariff_def split: sum.split)
qed

lemma create_slot_ok:
  assumes ok: "price_list_ok d" and req: "price_admitted p" "0 \<le> a" "b \<le> 1440" "1 \<le> m" "m \<le> 127"
  shows "price_list_ok (fst (cpo_create_tariff_slot cfg now d user i a b p m))"
proof -
  have "price_list_ok (fst (add_slot d i a b p m))" if v: "validate_slot_window d i a b m None = Inr ()"
  proof (rule price_list_ok_slots [OF ok])
    let ?s = "snd (add_slot d i a b p m)"
    have s: "ts_id ?s = fresh_id ts_id (tariff_slots d)" "ts_tariff_id ?s = i" "ts_start_min ?s = a" "ts_end_min ?s = b"
      "ts_days_mask ?s = m" "ts_price_per_kwh ?s = to_money_f p" by (simp_all add: add_slot_def Let_def)
    note clean = validated_no_clash [OF v s(2-5)]
    have "slot_ok ?s" using clean(1) req s admitted_nonneg [OF req(1)] by (simp add: slot_ok_def)
    then show "slots_sound (fst (add_slot d i a b p m))"
      by (rule slots_sound_add [rotated, OF _ s(1)]) (use ok clean(2) in \<open>simp_all add: price_list_ok_def add_slot_def Let_def\<close>)
  qed (simp_all add: add_slot_def Let_def)
  then show ?thesis using ok by (auto simp: cpo_create_tariff_slot_def Let_def split: sum.split)
qed

lemma update_slot_ok:
  assumes ok: "price_list_ok d" and req: "pred_option price_admitted p" "pred_option (\<lambda>x. 0 \<le> x) a" "pred_option (\<lambda>x. x \<le> 1440) b"
    "pred_option (\<lambda>x. 1 \<le> x \<and> x \<le> 127) m"
  shows "price_list_ok (fst (cpo_update_tariff_slot cfg now d user i j a b p m))"
proof -
  let ?a = "\<lambda>s. or_keep a (ts_start_min s)" and ?b = "\<lambda>s. or_keep b (ts_end_min s)" and ?m = "\<lambda>s. or_keep m (ts_days_mask s)"
  let ?s = "\<lambda>s. s\<lparr>ts_start_min := ?a s, ts_end_min := ?b s, ts_days_mask := ?m s,
      ts_price_per_kwh := (case p of Some p \<Rightarrow> to_money_f p | None \<Rightarrow> ts_price_per_kwh s)\<rparr>"
  have "price_list_ok (upd_slot j (\<lambda>_. ?s s) d)"
    if s: "load_tenant_slot d i j = Inr s" and v: "validate_slot_window d i (?a s) (?b s) (?m s) (Some j) = Inr ()" for s
  proof (rule price_list_ok_slots [OF ok])
    note mem = load_tenant_slot_InrD [OF s]
    have clean: "?a s < ?b s" "\<forall>x \<in> set (tariff_slots d). \<not> clash (?s s) x"
      using validated_no_clash [OF v, of "?s s"] mem by simp_all
    have "slot_ok s" using ok mem by (auto simp: price_list_ok_def slots_sound_iff)
    then have "0 \<le> ?a s" "?b s \<le> 1440" "1 \<le> ?m s \<and> ?m s \<le> 127" "0 \<le> ts_price_per_kwh (?s s)"
      using req admitted_nonneg by (cases a; cases b; cases m; cases p; simp add: slot_ok_def or_keep_def)+
    then have ok1: "slot_ok (?s s)" using clean(1) by (simp add: slot_ok_def)
    have rows: "tariff_slots (upd_slot j (\<lambda>_. ?s s) d) = update_where (\<lambda>x. ts_id x = ts_id (?s s)) (\<lambda>_. ?s s) (tariff_slots d)"
      using mem by (simp add: upd_slot_def)
    have "slots_sound d" using ok by (simp add: price_list_ok_def)
    then show "slots_sound (upd_slot j (\<lambda>_. ?s s) d)"
      by (rule slots_sound_update [OF _ ok1 clean(2) rows]) (simp add: upd_slot_def)
  qed (simp_all add: upd_slot_def)
  then show ?thesis using ok by (simp add: cpo_update_tariff_slot_def Let_def split: sum.split)
qed

lemma delete_slot_ok:
  assumes ok: "price_list_ok d"
  shows "price_list_ok (fst (cpo_delete_tariff_slot cfg now d user i j))"
proof -
  have "slots_sound (d\<lparr>tariff_slots := filter (\<lambda>s. ts_id s \<noteq> j) (tariff_slots d)\<rparr>)"
    by (rule slots_sound_sub [of d _ "\<lambda>s. ts_id s \<noteq> j"]) (use ok in \<open>simp_all add: price_list_ok_def\<close>)
  then have "price_list_ok (d\<lparr>tariff_slots := filter (\<lambda>s. ts_id s \<noteq> j) (tariff_slots d)\<rparr>)"
    by (rule price_list_ok_slots [OF ok]) simp_all
  then show ?thesis using ok by (simp add: cpo_delete_tariff_slot_def split: sum.split)
qed

lemma assign_ok:
  assumes "price_list_ok d"
  shows "price_list_ok (fst (cpo_assign_plug_tariff d user p i))" "price_list_ok (fst (cpo_assign_group_tariff d user g i))"
    "price_list_ok (fst (cpo_assign_tenant_default_tariff d user i))"
  using assms price_list_ok_assign [OF assms]
  by (auto simp: cpo_assign_plug_tariff_def cpo_assign_group_tariff_def cpo_assign_tenant_default_tariff_def find_Some_iff
      split: sum.split option.split)

interpretation price_list: transition_invariant price_list_ok "tariff_step cfg" price_list_ok for cfg
  by unfold_locales
    (auto elim!: tariff_step.cases intro: create_tariff_ok update_tariff_ok delete_tariff_ok create_slot_ok update_slot_ok delete_slot_ok
      assign_ok)

lemma slots_unambiguous:
  assumes ok: "slots_sound d" and s: "a \<in> set (slots_of d t)" "b \<in> set (slots_of d t)"
    and at_once: "wd < 7" "active_on a wd" "active_on b wd" "covers m a" "covers m b"
  shows "a = b"
proof (rule ccontr)
  assume ne: "a \<noteq> b"
  have mem: "a \<in> set (tariff_slots d)" "b \<in> set (tariff_slots d)" "ts_tariff_id a = ts_tariff_id b" using s by (auto simp: slots_of_def)
  have "ts_id a \<noteq> ts_id b" using distinct_key_eq [of ts_id "tariff_slots d" a b] ok mem ne by (auto simp: slots_sound_iff)
  moreover have "slot_ok a" "slot_ok b" "\<not> clash a b" using ok mem by (auto simp: slots_sound_iff)
  ultimately show False
    using slot_overlaps_iff [of a b] at_once mem(3) by (auto simp: slot_ok_def clash_def)
qed

lemma tariff_from_own_tenant:
  assumes ok: "assigned_ok d" and p: "p \<in> set (plugs d)" and t: "fst (resolve_tariff_and_tz d p) = Some t"
  shows "gateway_tenant d p = Some (tf_tenant_id t)"
proof -
  have used: "tn = Some (tf_tenant_id t)" if "may_use d i tn" "find_tariff d i = Some t" for i tn
    using that by (auto simp: may_use_def find_tariff_def tariff_owner_def split: option.splits)
  consider "find_tariff d (pl_tariff_id p) = Some t" | "group_tariff d p = Some t"
    | tn where "plug_tenant d p = Some tn" "find_tariff d (tn_default_tariff_id tn) = Some t"
    using t by (auto simp: resolve_tariff_and_tz_def Let_def split: if_splits option.splits)
  then show ?thesis
  proof cases
    case 1
    with used p ok show ?thesis by (auto simp: assigned_ok_iff)
  next
    case 2
    then obtain g where g: "pl_group_id p = Some (cg_id g)" "g \<in> set (charger_groups d)" "find_tariff d (cg_tariff_id g) = Some t"
      by (auto simp: group_tariff_def dest!: row_by_SomeD split: option.splits)
    have "gateway_tenant d p = Some (cg_tenant_id g)" "may_use d (cg_tariff_id g) (Some (cg_tenant_id g))"
      using ok p g(1,2) by (auto simp: assigned_ok_iff)
    with used g(3) show ?thesis by metis
  next
    case (3 tn)
    then have tn: "tn \<in> set (tenants d)" "gateway_tenant d p = Some (tn_id tn)"
      by (auto simp: plug_tenant_def gateway_tenant_def dest!: row_by_SomeD split: option.splits)
    with used 3(2) ok show ?thesis unfolding assigned_ok_iff by metis
  qed
qed

subsection \<open>The platform invariant\<close>

lemma reprice_tenant_keeps: "keeps cfg d (reprice_tenant cfg' now u d)"
proof -
  let ?f = "\<lambda>s. s\<lparr>cs_rate_valid_until := Some now\<rparr>"
  have "keeps cfg d (d\<lparr>charging_sessions := update_where P ?f (charging_sessions d)\<rparr>)" (is "keeps cfg d ?d") for P
    unfolding keeps_def
  proof
    assume ok: "platform_ok cfg d"
    have "money_ok ?d" by (rule money_ok_deactivate [OF platform_okD(2) [OF ok], where P = P and f = ?f]) simp_all
    then show "platform_ok cfg ?d \<and> drift ?d = drift d"
      by (intro conjI platform_ok_rows [OF ok, of P ?f]) (simp_all add: session_sane_def current_rate_def settled_of_def)
  qed
  then show ?thesis
    by (auto simp: reprice_tenant_def mark_tenant_sessions_for_reprice_def split: option.split)
qed

lemma assign_keeps:
  "keeps cfg d (upd_plug p (\<lambda>r. r\<lparr>pl_tariff_id := i\<rparr>) d)" "keeps cfg d (upd_group g (\<lambda>r. r\<lparr>cg_tariff_id := i\<rparr>) d)"
  "keeps cfg d (d\<lparr>tenants := ts\<rparr>)"
  unfolding upd_plug_def upd_group_def
  by (rule plug_rows_keeps; simp add: cap_row_def)
    (rule catalogue_keeps; simp add: map_update_where prices_ok_def rates_ok_def)+

lemma drop_tariff_keeps: "keeps cfg d (drop_tariff i d)"
proof -
  let ?d = "d\<lparr>plugs := update_where (\<lambda>p. pl_tariff_id p = Some i) (\<lambda>p. p\<lparr>pl_tariff_id := None\<rparr>) (plugs d)\<rparr>"
  have "keeps cfg d ?d" by (rule plug_rows_keeps) (simp_all add: cap_row_def)
  moreover have "keeps cfg ?d (drop_tariff i d)"
    by (rule catalogue_keeps) (auto simp: map_update_where prices_ok_def rates_ok_def list_all_iff)
  ultimately show ?thesis by (rule keeps_trans)
qed

lemma catalogue_steps:
  "price_admitted p \<Longrightarrow> keeps cfg d (upd_tariff i (\<lambda>t. t\<lparr>tf_price_per_kwh := to_money_f p\<rparr>) d)"
  "0 \<le> tf_price_per_kwh t \<Longrightarrow> keeps cfg d (d\<lparr>tariffs := tariffs d @ [t]\<rparr>)"
  "price_admitted p \<Longrightarrow> keeps cfg d (fst (add_slot d i a b p m))"
  "keeps cfg d (d\<lparr>tariff_slots := filter Q (tariff_slots d)\<rparr>)"
  using admitted_nonneg [of p]
  by (auto intro!: catalogue_keeps simp: upd_tariff_def add_slot_def Let_def prices_ok_def rates_ok_def list_all_iff ball_update_where)

lemma slot_row_keeps:
  assumes "prices_ok cfg d \<Longrightarrow> 0 \<le> ts_price_per_kwh s"
  shows "keeps cfg d (upd_slot j (\<lambda>_. s) d)"
  by (rule catalogue_keeps) (use assms in \<open>auto simp: upd_slot_def prices_ok_def rates_ok_def list_all_iff ball_update_where\<close>)

lemma tariff_step_keeps:
  assumes "tariff_step cfg' d d'"
  shows "keeps cfg d d'"
  using assms
proof cases
  case (create_tariff p user)
  then show ?thesis using admitted_nonneg catalogue_steps(2) by (auto simp: cpo_create_tariff_def Let_def split: sum.split)
next
  case (update_tariff p now user i)
  then show ?thesis
    using keeps_trans [OF catalogue_steps(1) reprice_tenant_keeps] by (auto simp: cpo_update_tariff_def Let_def split: sum.split option.split)
next
  case (delete_tariff now user i)
  then show ?thesis using keeps_trans [OF drop_tariff_keeps reprice_tenant_keeps] by (auto simp: cpo_delete_tariff_def split: sum.split)
next
  case (create_slot p a b m now user i)
  then show ?thesis
    using keeps_trans [OF catalogue_steps(3) reprice_tenant_keeps] by (auto simp: cpo_create_tariff_slot_def Let_def split: sum.split)
next
  case (update_slot p a b m now user i j)
  have "keeps cfg d (upd_slot j (\<lambda>_. s\<lparr>ts_start_min := x, ts_end_min := y, ts_days_mask := z,
      ts_price_per_kwh := (case p of Some p \<Rightarrow> to_money_f p | None \<Rightarrow> ts_price_per_kwh s)\<rparr>) d)"
    if "load_tenant_slot d i j = Inr s" for s x y z
    using load_tenant_slot_InrD [OF that] admitted_nonneg update_slot(2)
    by (intro slot_row_keeps) (auto simp: prices_ok_def list_all_iff split: option.split)
  then show ?thesis
    unfolding update_slot(1) cpo_update_tariff_slot_def Let_def
    by (auto split: sum.split intro: keeps_trans [OF _ reprice_tenant_keeps])
next
  case (delete_slot now user i j)
  then show ?thesis
    using keeps_trans [OF catalogue_steps(4) reprice_tenant_keeps] by (auto simp: cpo_delete_tariff_slot_def split: sum.split)
qed (auto simp: cpo_assign_plug_tariff_def cpo_assign_group_tariff_def cpo_assign_tenant_default_tariff_def assign_keeps
      split: sum.split option.split)

text \<open>
  The window is checked and the slot inserted without a lock on the tariff: two requests that both
  checked before either inserted leave two slots that overlap.
\<close>

lemma slot_insert_race:
  "price_list_ok sample_site
     \<and> validate_slot_window sample_site 7 600 700 127 None = Inr () \<and> validate_slot_window sample_site 7 650 750 127 None = Inr ()
     \<and> \<not> slots_sound (fst (add_slot (fst (add_slot sample_site 7 600 700 5 127)) 7 650 750 6 127))"
  by code_simp

subsection \<open>Properties\<close>

text \<open>
  C11. The price of a charge is never ambiguous and never another operator's, as long as requests on
  one tariff do not overlap in time.  Whatever tariffs, slots and assignments operators create,
  change and delete, one request after the other, no two slots of a tariff ever cover the same
  minute of the same weekday, prices stay non-negative and windows within the day, and the tariff
  a plug resolves to, its own, its group's or its tenant's default, always belongs to the tenant
  of the plug's gateway.  The condition is needed: the code checks a window and inserts the slot
  without a lock, and \<open>slot_insert_race\<close> shows two overlapping slots after two requests whose checks
  both ran first.
\<close>

theorem price_list_unambiguous:
  assumes run: "reachable price_list_ok (tariff_step cfg) d"
  shows "price_list_ok d
    \<and> (\<forall>t \<in> set (tariffs d). \<forall>wd < 7. \<forall>m. \<forall>a \<in> set (slots_of d t). \<forall>b \<in> set (slots_of d t).
         active_on a wd \<and> active_on b wd \<and> covers m a \<and> covers m b \<longrightarrow> a = b)
    \<and> (\<forall>p \<in> set (plugs d). \<forall>t. fst (resolve_tariff_and_tz d p) = Some t \<longrightarrow> gateway_tenant d p = Some (tf_tenant_id t))"
proof -
  have ok: "price_list_ok d" using run by (rule price_list.inv_reachable)
  then have parts: "slots_sound d" "assigned_ok d" by (simp_all add: price_list_ok_def)
  with ok show ?thesis using slots_unambiguous [OF parts(1)] tariff_from_own_tenant [OF parts(2)] by blast
qed

theorem price_list_unambiguous_witness:
  "price_list_ok (fst (cpo_create_tariff_slot default_config 0 sample_site sample_manager 7 600 700 4 31))
     \<and> map ts_id (tariff_slots (fst (cpo_create_tariff_slot default_config 0 sample_site sample_manager 7 600 700 4 31))) = [1, 2, 3]"
proof -
  let ?d = "fst (cpo_create_tariff_slot default_config 0 sample_site sample_manager 7 600 700 4 31)"
  have init: "reachable price_list_ok (tariff_step default_config) sample_site" using slot_insert_race by (intro reachable.start) blast
  have "price_admitted 4" using is_float_of_int [of 4] by (simp add: price_admitted_def)
  then have "tariff_step default_config sample_site ?d" by (intro tariff_step.create_slot) simp_all
  with init have "reachable price_list_ok (tariff_step default_config) ?d" by (rule reachable.extend)
  from price_list_unambiguous [OF this] have "price_list_ok ?d" by blast
  moreover have "map ts_id (tariff_slots ?d) = [1, 2, 3]" by code_simp
  ultimately show ?thesis by blast
qed

end
