(* ===== verification/Sites.thy ===== *)
theory Sites
  imports Tariffs
begin

text \<open>
  Groups, plugs and gateways of an operator (\<open>backend/routers/cpo/_groups.py\<close>, \<open>_plugs.py\<close>,
  \<open>_gateways.py\<close>), the membership of drivers (\<open>backend/routers/groups.py\<close>) and the discovery of plugs
  by a gateway agent (\<open>backend/services/mqtt/discovery.py\<close>).  Names, addresses, coordinates and
  advertised specifications are presentation; audit rows and log lines are left out.  Random codes
  are drawn from a list, and a handler that has used it up without finding a free code is still
  looping, which is \<open>None\<close>.
\<close>

subsection \<open>Groups\<close>

fun generate_unique_access_code :: "db \<Rightarrow> string list \<Rightarrow> (string \<times> string list) option" where
  "generate_unique_access_code d [] = None"
| "generate_unique_access_code d (code # draws) =
     (if exists_row (\<lambda>g. cg_access_code g = Some code) (charger_groups d) then generate_unique_access_code d draws
      else Some (code, draws))"

definition cpo_create_group :: "db \<Rightarrow> user \<Rightarrow> bool \<Rightarrow> string list \<Rightarrow> (db \<times> charger_group response) option" where
  "cpo_create_group d user is_public draws =
     (case operator_tenant user of
        Inl err \<Rightarrow> Some (d, Inl err)
      | Inr tenant_id \<Rightarrow>
          (case (if is_public then Some None else map_option (\<lambda>r. Some (fst r)) (generate_unique_access_code d draws)) of
             None \<Rightarrow> None
           | Some access_code \<Rightarrow>
               let grp = \<lparr>cg_id = fresh_id cg_id (charger_groups d), cg_tenant_id = tenant_id, cg_is_public = is_public,
                          cg_access_code = access_code, cg_tariff_id = None, cg_max_current_a = None\<rparr>
               in Some (d\<lparr>charger_groups := charger_groups d @ [grp]\<rparr>, Inr grp)))"

text \<open>The row after an edit, with the draws left; a code that the edit just set counts as used.\<close>

definition set_visibility :: "db \<Rightarrow> charger_group \<Rightarrow> bool option \<Rightarrow> string list \<Rightarrow> (charger_group \<times> string list) option" where
  "set_visibility d grp is_public draws =
     (case is_public of
        None \<Rightarrow> Some (grp, draws)
      | Some True \<Rightarrow> Some (grp\<lparr>cg_is_public := True, cg_access_code := None\<rparr>, draws)
      | Some False \<Rightarrow>
          let grp1 = grp\<lparr>cg_is_public := False\<rparr>
          in if cg_access_code grp \<noteq> None \<and> cg_access_code grp \<noteq> Some [] then Some (grp1, draws)
             else map_option (\<lambda>r. (grp1\<lparr>cg_access_code := Some (fst r)\<rparr>, snd r)) (generate_unique_access_code d draws))"

definition regenerate_code :: "db \<Rightarrow> charger_group \<Rightarrow> bool \<Rightarrow> string list \<Rightarrow> charger_group option" where
  "regenerate_code d grp regenerate draws =
     (if regenerate \<and> \<not> cg_is_public grp
      then map_option (\<lambda>r. grp\<lparr>cg_access_code := Some (fst r)\<rparr>)
             (generate_unique_access_code (upd_group (cg_id grp) (\<lambda>_. grp) d) draws)
      else Some grp)"

definition cpo_update_group ::
  "config \<Rightarrow> world \<Rightarrow> user \<Rightarrow> int \<Rightarrow> bool option \<Rightarrow> bool \<Rightarrow> pyfloat option \<Rightarrow> string list \<Rightarrow> (world \<times> charger_group response) option" where
  "cpo_update_group cfg w user group_id is_public regenerate max_current_a draws =
     (case require_role [''cpo'', ''admin''] user of
        Inl err \<Rightarrow> Some (w, Inl err)
      | Inr _ \<Rightarrow>
          (case tenant_group (w_db w) user group_id of
             None \<Rightarrow> Some (w, Inl (HTTPException 404 ''Group not found or access denied.''))
           | Some grp \<Rightarrow>
               (case set_visibility (w_db w) grp is_public draws of
                  None \<Rightarrow> None
                | Some (grp1, rest) \<Rightarrow>
                    (case regenerate_code (w_db w) grp1 regenerate rest of
                       None \<Rightarrow> None
                     | Some grp2 \<Rightarrow>
                         let grp3 = (case max_current_a of
                                       None \<Rightarrow> grp2 | Some a \<Rightarrow> grp2\<lparr>cg_max_current_a := (if a = 0 then None else Some a)\<rparr>);
                             w1 = w\<lparr>w_db := upd_group group_id (\<lambda>_. grp3) (w_db w)\<rparr>
                         in Some (if max_current_a = None then w1 else fst (notify_capacity_available cfg w1 (Some group_id) None), Inr grp3)))))"

definition cpo_delete_group :: "db \<Rightarrow> user \<Rightarrow> int \<Rightarrow> db \<times> int response" where
  "cpo_delete_group d user group_id =
     (case require_role [''cpo'', ''admin''] user of
        Inl err \<Rightarrow> (d, Inl err)
      | Inr _ \<Rightarrow>
          (case tenant_group d user group_id of
             None \<Rightarrow> (d, Inl (HTTPException 404 ''Group not found or access denied.''))
           | Some _ \<Rightarrow>
               (d\<lparr>plugs := update_where (\<lambda>p. pl_group_id p = Some group_id) (\<lambda>p. p\<lparr>pl_group_id := None\<rparr>) (plugs d),
                  memberships := filter (\<lambda>m. gm_group_id m \<noteq> group_id) (memberships d),
                  capacity_requests := filter (\<lambda>r. cr_group_id r \<noteq> group_id) (capacity_requests d),
                  charger_groups := filter (\<lambda>g. cg_id g \<noteq> group_id) (charger_groups d)\<rparr>, Inr group_id)))"

subsection \<open>Membership\<close>

definition is_member :: "int \<Rightarrow> int \<Rightarrow> group_membership \<Rightarrow> bool" where
  "is_member user_id group_id m \<longleftrightarrow> gm_user_id m = user_id \<and> gm_group_id m = group_id"

text \<open>\<open>scalar_one_or_none\<close> on the memberships of a driver in a group, which no constraint keeps unique.\<close>

definition membership_of :: "db \<Rightarrow> int \<Rightarrow> int \<Rightarrow> group_membership option response" where
  "membership_of d user_id group_id =
     (case filter (is_member user_id group_id) (memberships d) of
        [] \<Rightarrow> Inr None | [m] \<Rightarrow> Inr (Some m) | _ \<Rightarrow> Inl MultipleResultsFound)"

definition join_group :: "db \<Rightarrow> int \<Rightarrow> string \<Rightarrow> db \<times> int response" where
  "join_group d user_id access_code =
     (case find (\<lambda>g. cg_access_code g = Some access_code) (charger_groups d) of
        None \<Rightarrow> (d, Inl (HTTPException 404 ''Invalid access code. No group found.''))
      | Some grp \<Rightarrow>
          if cg_is_public grp then (d, Inl (HTTPException 400 ''This group is public. No access code needed.''))
          else (case membership_of d user_id (cg_id grp) of
                  Inl err \<Rightarrow> (d, Inl err)
                | Inr (Some _) \<Rightarrow> (d, Inl (HTTPException 400 ''You are already a member of this group.''))
                | Inr None \<Rightarrow>
                    (d\<lparr>memberships := memberships d @ [\<lparr>gm_user_id = user_id, gm_group_id = cg_id grp\<rparr>]\<rparr>, Inr (cg_id grp))))"

definition leave_group :: "db \<Rightarrow> int \<Rightarrow> int \<Rightarrow> db \<times> int response" where
  "leave_group d user_id group_id =
     (case membership_of d user_id group_id of
        Inl err \<Rightarrow> (d, Inl err)
      | Inr None \<Rightarrow> (d, Inl (HTTPException 404 ''You are not a member of this group.''))
      | Inr (Some _) \<Rightarrow> (d\<lparr>memberships := filter (\<lambda>m. \<not> is_member user_id group_id m) (memberships d)\<rparr>, Inr group_id))"

definition cpo_remove_group_member :: "db \<Rightarrow> user \<Rightarrow> int \<Rightarrow> int \<Rightarrow> db \<times> int response" where
  "cpo_remove_group_member d user group_id user_id =
     (case require_role [''cpo'', ''admin''] user of
        Inl err \<Rightarrow> (d, Inl err)
      | Inr _ \<Rightarrow>
          (case tenant_group d user group_id of
             None \<Rightarrow> (d, Inl (HTTPException 404 ''Group not found or access denied.''))
           | Some _ \<Rightarrow>
               (case membership_of d user_id group_id of
                  Inl err \<Rightarrow> (d, Inl err)
                | Inr None \<Rightarrow> (d, Inl (HTTPException 404 ''That user is not a member of this group.''))
                | Inr (Some _) \<Rightarrow>
                    (d\<lparr>memberships := filter (\<lambda>m. \<not> is_member user_id group_id m) (memberships d)\<rparr>, Inr user_id))))"

subsection \<open>Plugs\<close>

definition new_plug :: "timestamp \<Rightarrow> db \<Rightarrow> string \<Rightarrow> int option \<Rightarrow> string option \<Rightarrow> plug" where
  "new_plug now d gateway_id group_id unique_id =
     \<lparr>pl_id = fresh_id pl_id (plugs d), pl_gateway_id = gateway_id, pl_status = OFFLINE, pl_current_power_w = 0, pl_last_seen_at = now,
      pl_last_telemetry_at = None, pl_powered_since = None, pl_group_id = group_id, pl_tariff_id = None, pl_max_current_a = None,
      pl_queued_charging_enabled = None, pl_auto_start_delay_min = None, pl_last_today_energy_kwh = None,
      pl_last_month_energy_kwh = None, pl_unique_id = unique_id\<rparr>"

definition publish_gateway_roster :: "string \<Rightarrow> world \<Rightarrow> world" where
  "publish_gateway_roster gateway_id w = (if w_mqtt_client w then emit [Publish_Roster gateway_id] w else w)"

text \<open>A group id of zero skips the ownership check and breaks the foreign key.\<close>

definition cpo_create_plug :: "timestamp \<Rightarrow> world \<Rightarrow> user \<Rightarrow> string \<Rightarrow> int option \<Rightarrow> world \<times> plug response" where
  "cpo_create_plug now w user gateway_id group_id =
     (case require_role [''cpo'', ''admin''] user of
        Inl err \<Rightarrow> (w, Inl err)
      | Inr _ \<Rightarrow>
          if \<not> exists_row (\<lambda>g. gw_id g = gateway_id \<and> gw_tenant_id g = us_tenant_id user) (gateways (w_db w))
          then (w, Inl (HTTPException 404 ''Gateway not found or does not belong to your organization.''))
          else if group_id = Some 0 then (w, Inl IntegrityError)
          else if (case group_id of None \<Rightarrow> False | Some i \<Rightarrow> tenant_group (w_db w) user i = None)
          then (w, Inl (HTTPException 404 ''Group not found or does not belong to your organization.''))
          else let plug = new_plug now (w_db w) gateway_id group_id None
               in (publish_gateway_roster gateway_id (w\<lparr>w_db := (w_db w)\<lparr>plugs := plugs (w_db w) @ [plug]\<rparr>\<rparr>), Inr plug))"

fun plug_status_of :: "string \<Rightarrow> plug_status option" where
  "plug_status_of s =
     (if s = ''available'' then Some AVAILABLE else if s = ''occupied'' then Some OCCUPIED
      else if s = ''offline'' then Some OFFLINE else if s = ''maintenance'' then Some MAINTENANCE else None)"

record plug_update =
  pu_group_id :: "int option"
  pu_status :: "string option"
  pu_max_current_a :: "pyfloat option"
  pu_queued_charging_enabled :: "bool option"
  pu_auto_start_delay_min :: "int option"

definition edit_group :: "db \<Rightarrow> user \<Rightarrow> int option \<Rightarrow> plug \<Rightarrow> plug response" where
  "edit_group d user group_id plug =
     (case group_id of
        None \<Rightarrow> Inr plug
      | Some i \<Rightarrow>
          if i = 0 then Inr (plug\<lparr>pl_group_id := None\<rparr>)
          else if tenant_group d user i = None then Inl (HTTPException 404 ''Group not found or access denied.'')
          else Inr (plug\<lparr>pl_group_id := Some i\<rparr>))"

definition edit_status :: "string option \<Rightarrow> plug \<Rightarrow> plug response" where
  "edit_status status plug =
     (case status of
        None \<Rightarrow> Inr plug
      | Some s \<Rightarrow> (case plug_status_of s of
                     None \<Rightarrow> Inl (HTTPException 400 ''Invalid status.'')
                   | Some st \<Rightarrow> Inr (plug\<lparr>pl_status := st\<rparr>)))"

definition edit_settings :: "plug_update \<Rightarrow> plug \<Rightarrow> plug" where
  "edit_settings req plug =
     plug\<lparr>pl_max_current_a := (case pu_max_current_a req of
            None \<Rightarrow> pl_max_current_a plug | Some a \<Rightarrow> if a = 0 then None else Some a),
          pl_queued_charging_enabled := (case pu_queued_charging_enabled req of
            None \<Rightarrow> pl_queued_charging_enabled plug | Some b \<Rightarrow> Some b),
          pl_auto_start_delay_min := (case pu_auto_start_delay_min req of
            None \<Rightarrow> pl_auto_start_delay_min plug | Some n \<Rightarrow> if n = 0 then None else Some n)\<rparr>"

definition cpo_update_plug :: "world \<Rightarrow> user \<Rightarrow> int \<Rightarrow> plug_update \<Rightarrow> world \<times> plug response" where
  "cpo_update_plug w user plug_id req =
     (case require_role [''cpo'', ''admin''] user of
        Inl err \<Rightarrow> (w, Inl err)
      | Inr _ \<Rightarrow>
          (case tenant_plug (w_db w) user plug_id of
             None \<Rightarrow> (w, Inl (HTTPException 404 ''Plug not found or access denied.''))
           | Some plug \<Rightarrow>
               (case edit_group (w_db w) user (pu_group_id req) plug of
                  Inl err \<Rightarrow> (w, Inl err)
                | Inr plug1 \<Rightarrow>
                    (case edit_status (pu_status req) plug1 of
                       Inl err \<Rightarrow> (w, Inl err)
                     | Inr plug2 \<Rightarrow>
                         let plug3 = edit_settings req plug2
                         in (publish_gateway_roster (pl_gateway_id plug3)
                               (w\<lparr>w_db := upd_plug plug_id (\<lambda>_. plug3) (w_db w)\<rparr>), Inr plug3)))))"

definition cpo_plug_maintenance :: "world \<Rightarrow> user \<Rightarrow> int \<Rightarrow> string \<Rightarrow> world \<times> plug_status response" where
  "cpo_plug_maintenance w user plug_id action =
     (case require_role [''cpo'', ''admin''] user of
        Inl err \<Rightarrow> (w, Inl err)
      | Inr _ \<Rightarrow>
          let act = map lower_char (strip action)
          in if act \<noteq> ''enter'' \<and> act \<noteq> ''clear'' then (w, Inl (HTTPException 400 ''Invalid action.''))
             else case tenant_plug (w_db w) user plug_id of
                    None \<Rightarrow> (w, Inl (HTTPException 404 ''Plug not found or access denied.''))
                  | Some plug \<Rightarrow>
                      if act = ''clear'' \<and> exists_row (\<lambda>s. cs_plug_id s = plug_id \<and> cs_status s = ACTIVE) (charging_sessions (w_db w))
                      then (w, Inl (HTTPException 409 ''Cannot clear maintenance: this plug has an active charging session.''))
                      else let status = (if act = ''enter'' then MAINTENANCE else AVAILABLE);
                               plug1 = plug\<lparr>pl_status := status\<rparr>;
                               w1 = w\<lparr>w_db := upd_plug plug_id (\<lambda>p. p\<lparr>pl_status := status\<rparr>) (w_db w)\<rparr>
                           in (if status = pl_status plug then w1
                               else let w2 = emit [Emit_Plug_Status plug_id status] w1
                                    in if status = AVAILABLE then fst (notify_watchers_plug_available w2 plug1 None) else w2,
                               Inr status))"

subsection \<open>Gateways\<close>

text \<open>The overlay address, unique and unused by direct gateways, is only told to be taken or not.\<close>

definition cpo_create_gateway :: "timestamp \<Rightarrow> db \<Rightarrow> user \<Rightarrow> string \<Rightarrow> bool \<Rightarrow> db \<times> gateway response" where
  "cpo_create_gateway now d user gateway_id vpn_ip_taken =
     (case operator_tenant user of
        Inl err \<Rightarrow> (d, Inl err)
      | Inr tenant_id \<Rightarrow>
          if exists_row (\<lambda>g. gw_id g = gateway_id) (gateways d) then (d, Inl (HTTPException 400 ''Gateway already exists.''))
          else if vpn_ip_taken then (d, Inl IntegrityError)
          else let gw = \<lparr>gw_id = gateway_id, gw_tenant_id = Some tenant_id, gw_status = GW_OFFLINE, gw_last_seen_at = now,
                         gw_firmware_version = None, gw_claim_code = None, gw_claimed_at = None\<rparr>
               in (d\<lparr>gateways := gateways d @ [gw]\<rparr>, Inr gw))"

text \<open>\<open>str.upper\<close> on Latin-1; the two letters whose capital is outside it stay, as no code contains them.\<close>

definition upper_char :: "char \<Rightarrow> string" where
  "upper_char c =
     (let n = code_of c
      in if 97 \<le> n \<and> n \<le> 122 \<or> 224 \<le> n \<and> n \<le> 254 \<and> n \<noteq> 247 then [char_of (n - 32)]
         else if n = 223 then ''SS'' else [c])"

definition normalize_claim_code :: "string \<Rightarrow> string" where
  "normalize_claim_code raw = filter (\<lambda>c. c \<noteq> CHR ''-'' \<and> c \<noteq> CHR '' '') (concat (map upper_char (strip raw)))"

definition CLAIM_NOT_FOUND :: failure where
  "CLAIM_NOT_FOUND = HTTPException 404 ''Claim code not found or already used.''"

definition cpo_claim_gateway :: "timestamp \<Rightarrow> db \<Rightarrow> user \<Rightarrow> string \<Rightarrow> db \<times> string response" where
  "cpo_claim_gateway now d user claim_code =
     (case operator_tenant user of
        Inl err \<Rightarrow> (d, Inl err)
      | Inr tenant_id \<Rightarrow>
          (case row_by gw_claim_code (Some (normalize_claim_code claim_code)) (gateways d) of
             None \<Rightarrow> (d, Inl CLAIM_NOT_FOUND)
           | Some gw \<Rightarrow>
               if gw_claimed_at gw \<noteq> None then (d, Inl CLAIM_NOT_FOUND)
               else (d\<lparr>gateways := update_where (\<lambda>g. gw_id g = gw_id gw)
                         (\<lambda>g. g\<lparr>gw_tenant_id := Some tenant_id, gw_claimed_at := Some now\<rparr>) (gateways d)\<rparr>, Inr (gw_id gw))))"

subsection \<open>Discovery\<close>

definition gateway_plugs :: "db \<Rightarrow> string \<Rightarrow> plug list" where
  "gateway_plugs d gateway_id = filter (\<lambda>p. pl_gateway_id p = gateway_id) (plugs d)"

definition assignments :: "db \<Rightarrow> string \<Rightarrow> (string \<times> int) list" where
  "assignments d gateway_id =
     List.map_filter (\<lambda>p. map_option (\<lambda>u. (u, pl_id p)) (pl_unique_id p)) (gateway_plugs d gateway_id)"

text \<open>
  The upsert and what it publishes; several rows for one identity roll back.  The code schedules every
  announcement as a coroutine of its own that awaits the database between the look-up, the count
  and the insert, holds no lock and has no unique constraint behind it.  \<open>persist_plug_discovery\<close>
  is one announcement handled without another one of the gateway in between;
  \<open>discovery_checks\<close> and \<open>discovery_insert\<close> are its two halves.
\<close>

definition persist_plug_discovery :: "config \<Rightarrow> timestamp \<Rightarrow> world \<Rightarrow> string \<Rightarrow> string \<Rightarrow> world" where
  "persist_plug_discovery cfg now w gateway_id raw_unique_id =
     (let unique_id = take 128 raw_unique_id;
          announce = (\<lambda>w. publish_gateway_roster gateway_id (emit [Publish_Assignments gateway_id (assignments (w_db w) gateway_id)] w))
      in if row_by gw_id gateway_id (gateways (w_db w)) = None then w
         else case filter (\<lambda>p. pl_unique_id p = Some unique_id) (gateway_plugs (w_db w) gateway_id) of
                [] \<Rightarrow>
                  if MAX_PLUGS_PER_GATEWAY cfg \<le> int (length (gateway_plugs (w_db w) gateway_id)) then w
                  else announce (w\<lparr>w_db := (w_db w)\<lparr>plugs := plugs (w_db w) @ [new_plug now (w_db w) gateway_id None (Some unique_id)]\<rparr>\<rparr>)
              | [_] \<Rightarrow> announce w
              | _ \<Rightarrow> w)"

definition discovery_checks :: "config \<Rightarrow> db \<Rightarrow> string \<Rightarrow> string \<Rightarrow> bool" where
  "discovery_checks cfg d gateway_id unique_id \<longleftrightarrow>
     row_by gw_id gateway_id (gateways d) \<noteq> None
   \<and> filter (\<lambda>p. pl_unique_id p = Some unique_id) (gateway_plugs d gateway_id) = []
   \<and> int (length (gateway_plugs d gateway_id)) < MAX_PLUGS_PER_GATEWAY cfg"

definition discovery_insert :: "timestamp \<Rightarrow> string \<Rightarrow> string \<Rightarrow> db \<Rightarrow> db" where
  "discovery_insert now gateway_id unique_id d = d\<lparr>plugs := plugs d @ [new_plug now d gateway_id None (Some unique_id)]\<rparr>"

definition handle_gateway_plug_discovery :: "config \<Rightarrow> timestamp \<Rightarrow> world \<Rightarrow> string \<Rightarrow> string option \<Rightarrow> world" where
  "handle_gateway_plug_discovery cfg now w gateway_id unique_id =
     (case unique_id of
        None \<Rightarrow> w
      | Some u \<Rightarrow> if u = [] then w else persist_plug_discovery cfg now w gateway_id u)"

inductive discovery_step :: "config \<Rightarrow> string \<Rightarrow> world \<Rightarrow> world \<Rightarrow> bool" for cfg g where
  announced: "discovery_step cfg g w (handle_gateway_plug_discovery cfg now w g unique_id)"

text \<open>The identities a gateway announced are unique among its plugs.\<close>

definition identities_ok :: "db \<Rightarrow> string \<Rightarrow> bool" where
  "identities_ok d g \<longleftrightarrow> distinct (map fst (assignments d g))"

text \<open>What one announcement promises, and with it any number of them.\<close>

definition grows :: "config \<Rightarrow> string \<Rightarrow> db \<Rightarrow> db \<Rightarrow> bool" where
  "grows cfg g d d' \<longleftrightarrow>
     (\<exists>new. assignments d' g = assignments d g @ new)
   \<and> (identities_ok d g \<longrightarrow> identities_ok d' g)
   \<and> int (length (gateway_plugs d' g)) \<le> max (int (length (gateway_plugs d g))) (MAX_PLUGS_PER_GATEWAY cfg)
   \<and> (\<forall>h. h \<noteq> g \<longrightarrow> gateway_plugs d' h = gateway_plugs d h)
   \<and> (0 \<le> DEFAULT_PLUG_CAP_A cfg \<longrightarrow> keeps cfg d d')"

text \<open>Access codes in use, and that no two groups share one.\<close>

definition used_codes :: "db \<Rightarrow> string list" where
  "used_codes d = List.map_filter cg_access_code (charger_groups d)"

definition staffed_world :: world where
  "staffed_world = sample_world\<lparr>w_db := (w_db sample_world)\<lparr>gateways := [sample_gateway]\<rparr>\<rparr>"

definition sample_grounds :: db where
  "sample_grounds = sample_site\<lparr>
     charger_groups := [\<lparr>cg_id = 5, cg_tenant_id = 1, cg_is_public = False, cg_access_code = Some ''ABCD1234'', cg_tariff_id = None,
       cg_max_current_a = None\<rparr>],
     gateways := gateways sample_site @ [\<lparr>gw_id = ''spare'', gw_tenant_id = None, gw_status = GW_OFFLINE, gw_last_seen_at = 0,
       gw_firmware_version = None, gw_claim_code = Some ''K7QX'', gw_claimed_at = None\<rparr>]\<rparr>"

subsection \<open>Access codes\<close>

lemma used_codes_set: "code \<in> set (used_codes d) \<longleftrightarrow> exists_row (\<lambda>g. cg_access_code g = Some code) (charger_groups d)"
  by (force simp: used_codes_def List.map_filter_def exists_row_iff)

lemma used_codes_length: "length (used_codes d) \<le> length (charger_groups d)"
  by (simp add: used_codes_def List.map_filter_def)

lemma access_code_fresh:
  "generate_unique_access_code d draws = Some (code, rest) \<Longrightarrow> code \<notin> set (used_codes d) \<and> code \<in> set draws"
  by (induction draws) (auto simp: used_codes_set split: if_splits)

lemma access_code_None: "generate_unique_access_code d draws = None \<Longrightarrow> set draws \<subseteq> set (used_codes d)"
  by (induction draws) (auto simp: used_codes_set split: if_splits)

lemma access_code_exists:
  assumes "distinct draws" "length (charger_groups d) < length draws"
  obtains code rest where "generate_unique_access_code d draws = Some (code, rest)"
proof (cases "generate_unique_access_code d draws")
  case None
  then have "card (set draws) \<le> card (set (used_codes d))" by (intro card_mono access_code_None) simp_all
  also have "\<dots> \<le> length (charger_groups d)" using card_length [of "used_codes d"] used_codes_length [of d] by linarith
  finally show ?thesis using assms by (simp add: distinct_card)
qed (use that in auto)

subsection \<open>New plugs\<close>

lemma new_plug_simps [simp]:
  "pl_id (new_plug now d g i u) = fresh_id pl_id (plugs d)" "pl_gateway_id (new_plug now d g i u) = g"
  "pl_status (new_plug now d g i u) = OFFLINE" "pl_unique_id (new_plug now d g i u) = u"
  "pl_max_current_a (new_plug now d g i u) = None" "pl_group_id (new_plug now d g i u) = i"
  by (simp_all add: new_plug_def)

lemma publish_roster_db [simp]: "w_db (publish_gateway_roster g w) = w_db w"
  by (simp add: publish_gateway_roster_def)

lemma appended_row:
  assumes "money_ok d" "s \<in> set (charging_sessions d)" "cs_status s = ACTIVE"
  shows "row_by pl_id (cs_plug_id s) (plugs d @ [p]) = row_by pl_id (cs_plug_id s) (plugs d)"
proof -
  have "row_by pl_id (cs_plug_id s) (plugs d) \<noteq> None" using assms by (simp add: money_ok_def holds_ok_def list_all_iff)
  then show ?thesis by (auto simp: row_by_append split: option.split)
qed

lemma add_plug_keeps:
  assumes cap: "0 \<le> DEFAULT_PLUG_CAP_A cfg" and p: "pl_id p = fresh_id pl_id (plugs d)" "pl_status p \<noteq> AVAILABLE" "pl_max_current_a p = None"
  shows "keeps cfg d (d\<lparr>plugs := plugs d @ [p]\<rparr>)" (is "keeps cfg d ?d")
  unfolding keeps_def
proof
  assume ok: "platform_ok cfg d"
  note parts = platform_okD [OF ok]
  note rows = appended_row [OF parts(2)]
  have act: "active_group_plugs ?d g e = active_group_plugs d g e" for g e
    unfolding active_group_plugs_def by (simp, rule map_filter_cong) (simp add: rows)
  have load: "circuit_load_a cfg ?d g None = circuit_load_a cfg d g None" and gcap: "group_cap ?d g = group_cap d g" for g
    by (simp_all add: circuit_load_a_def act group_cap_def)
  have circuit: "circuit_ok cfg ?d" using parts(1) unfolding system_ok_def circuit_ok_def load gcap by simp
  have "occupancy_ok d" using parts(1) by (simp add: system_ok_def)
  moreover have sets: "set (plugs ?d) = insert p (set (plugs d))" "charging_sessions ?d = charging_sessions d" by auto
  ultimately have "occupancy_ok ?d" using p(2) unfolding occupancy_ok_iff sets by blast
  moreover have "caps_sane cfg ?d" using parts(1) p(3) cap by (simp add: system_ok_def caps_sane_def effective_plug_cap_def)
  moreover have "money_ok ?d"
  proof -
    have bal: "balance_of ?d u = balance_of d u" and held: "held_coins ?d u = held_coins d u" for u
      by (simp_all add: balance_of_def held_coins_def)
    have "keys_ok ?d" using parts(2) distinct_insert_fresh [OF _ p(1)] by (simp add: money_ok_def keys_ok_def)
    moreover have "balances_ok ?d" using parts(2) by (simp add: money_ok_def balances_ok_def)
    moreover have "holds_ok ?d" using parts(2) rows unfolding money_ok_def holds_ok_def list_all_iff bal held by simp
    ultimately show ?thesis by (simp add: money_ok_def)
  qed
  moreover have "drift ?d = drift d" by (rule drift_cong) simp_all
  moreover have "calendar_ok ?d" "sessions_sane cfg ?d" "prices_ok cfg ?d" "queue_ok ?d"
    using parts by (simp_all add: calendar_ok_def sessions_sane_def prices_ok_def rates_ok_def queue_ok_def)
  ultimately show "platform_ok cfg ?d \<and> drift ?d = drift d"
    using parts circuit by (simp add: platform_ok_def system_ok_def)
qed

subsection \<open>Membership\<close>

lemma join_groupD:
  assumes "join_group d u code = (d', Inr g)"
  obtains grp where "grp \<in> set (charger_groups d)" "cg_id grp = g" "cg_access_code grp = Some code" "\<not> cg_is_public grp"
    "filter (is_member u g) (memberships d) = []"
    "d' = d\<lparr>memberships := memberships d @ [\<lparr>gm_user_id = u, gm_group_id = g\<rparr>]\<rparr>"
proof -
  from assms obtain grp where grp: "find (\<lambda>g. cg_access_code g = Some code) (charger_groups d) = Some grp"
    by (auto simp: join_group_def split: option.splits)
  moreover from assms have pub: "\<not> cg_is_public grp" unfolding join_group_def grp by (auto split: if_splits)
  moreover from assms have mem: "membership_of d u (cg_id grp) = Inr None"
    unfolding join_group_def grp using pub by (auto split: sum.splits option.splits)
  moreover from assms have "g = cg_id grp" "d' = d\<lparr>memberships := memberships d @ [\<lparr>gm_user_id = u, gm_group_id = cg_id grp\<rparr>]\<rparr>"
    unfolding join_group_def grp using pub mem by auto
  moreover from mem have "filter (is_member u (cg_id grp)) (memberships d) = []"
    by (auto simp: membership_of_def split: list.splits)
  ultimately show thesis using that find_SomeD [OF grp] by blast
qed

text \<open>Nothing keeps a membership unique; once a driver has two rows, leaving, removing and joining again all fail.\<close>

lemma duplicate_membership_stuck:
  assumes "2 \<le> length (filter (is_member u g) (memberships d))"
  shows "leave_group d u g = (d, Inl MultipleResultsFound)" "\<nexists>d'. cpo_remove_group_member d user g u = (d', Inr u)"
    "\<nexists>d'. join_group d u code = (d', Inr g)"
proof -
  from assms obtain a b xs where "filter (is_member u g) (memberships d) = a # b # xs"
    by (metis One_nat_def Suc_1 Suc_le_length_iff)
  then have "membership_of d u g = Inl MultipleResultsFound" by (simp add: membership_of_def)
  then show "leave_group d u g = (d, Inl MultipleResultsFound)" "\<nexists>d'. cpo_remove_group_member d user g u = (d', Inr u)"
    "\<nexists>d'. join_group d u code = (d', Inr g)"
    by (auto simp: leave_group_def cpo_remove_group_member_def join_group_def split: sum.split option.split)
qed

lemma join_access:
  assumes ids: "distinct (map cg_id (charger_groups d))" and g: "grp \<in> set (charger_groups d)" "\<not> cg_is_public grp"
    and none: "filter (is_member u (cg_id grp)) (memberships d) = []"
    and d'_def: "d' = d\<lparr>memberships := memberships d @ [\<lparr>gm_user_id = u, gm_group_id = cg_id grp\<rparr>]\<rparr>"
  shows "user_can_access_plug d' v p = (if v = u \<and> pl_group_id p = Some (cg_id grp) then Inr True else user_can_access_plug d v p)"
    "pl_group_id p = Some (cg_id grp) \<Longrightarrow> user_can_access_plug d u p = Inr False"
proof -
  have row: "row_by cg_id (cg_id grp) (charger_groups d) = Some grp" using ids g(1) by (rule row_by_in_set)
  have mem: "filter (\<lambda>m. gm_user_id m = u \<and> gm_group_id m = cg_id grp) (memberships d) = []"
    using none by (auto simp: is_member_def filter_empty_conv)
  show "user_can_access_plug d u p = Inr False" if "pl_group_id p = Some (cg_id grp)"
    using that g(2) row mem by (simp add: user_can_access_plug_def)
  show "user_can_access_plug d' v p = (if v = u \<and> pl_group_id p = Some (cg_id grp) then Inr True else user_can_access_plug d v p)"
  proof (cases "v = u \<and> pl_group_id p = Some (cg_id grp)")
    case True
    then show ?thesis using g(2) row mem by (simp add: user_can_access_plug_def d'_def)
  next
    case False
    then have "\<not> (u = v \<and> cg_id grp = cg_id x)" if "pl_group_id p = Some i" "row_by cg_id i (charger_groups d) = Some x" for i x
      using that row_by_SomeD [of cg_id i "charger_groups d" x] by auto
    then show ?thesis using False by (auto simp: user_can_access_plug_def d'_def split: option.split)
  qed
qed

subsection \<open>Discovery\<close>

lemma persist_discovery_cases:
  obtains (same) "w_db (handle_gateway_plug_discovery cfg now w g u) = w_db w"
  | (added) uid where "u = Some uid" "filter (\<lambda>p. pl_unique_id p = Some (take 128 uid)) (gateway_plugs (w_db w) g) = []"
      "int (length (gateway_plugs (w_db w) g)) < MAX_PLUGS_PER_GATEWAY cfg"
      "w_db (handle_gateway_plug_discovery cfg now w g u) =
         (w_db w)\<lparr>plugs := plugs (w_db w) @ [new_plug now (w_db w) g None (Some (take 128 uid))]\<rparr>"
proof (cases u)
  case None
  then show ?thesis using same by (simp add: handle_gateway_plug_discovery_def)
next
  case (Some uid)
  let ?rows = "filter (\<lambda>p. pl_unique_id p = Some (take 128 uid)) (gateway_plugs (w_db w) g)"
  show ?thesis
  proof (cases "uid = [] \<or> row_by gw_id g (gateways (w_db w)) = None \<or> ?rows \<noteq> []
      \<or> MAX_PLUGS_PER_GATEWAY cfg \<le> int (length (gateway_plugs (w_db w) g))")
    case True
    then have "w_db (handle_gateway_plug_discovery cfg now w g u) = w_db w"
      by (auto simp: handle_gateway_plug_discovery_def persist_plug_discovery_def Let_def Some split: list.split)
    then show ?thesis by (rule same)
  next
    case False
    then show ?thesis
      by (intro added [of uid]) (auto simp: handle_gateway_plug_discovery_def persist_plug_discovery_def Let_def Some)
  qed
qed

lemma persist_split:
  assumes "u \<noteq> []"
  shows "w_db (handle_gateway_plug_discovery cfg now w g (Some u)) =
    (if discovery_checks cfg (w_db w) g (take 128 u) then discovery_insert now g (take 128 u) (w_db w) else w_db w)"
  using assms
  by (auto simp: handle_gateway_plug_discovery_def persist_plug_discovery_def discovery_checks_def discovery_insert_def Let_def
      split: list.split)

text \<open>
  Two announcements of one new identity whose checks both run before either insert: the gateway has
  two plugs of that identity and more plugs than the cap, and from then on every announcement of
  the identity fails.
\<close>

lemma discovery_insert_race:
  "let cfg = default_config\<lparr>MAX_PLUGS_PER_GATEWAY := 2\<rparr>; d = w_db staffed_world;
       d2 = discovery_insert 8 ''gw'' ''kasa:AA'' (discovery_insert 7 ''gw'' ''kasa:AA'' d)
   in discovery_checks cfg d ''gw'' ''kasa:AA'' \<and> identities_ok d ''gw'' \<and> \<not> identities_ok d2 ''gw''
     \<and> MAX_PLUGS_PER_GATEWAY cfg < int (length (gateway_plugs d2 ''gw''))
     \<and> w_effects (persist_plug_discovery cfg 9 (staffed_world\<lparr>w_db := d2\<rparr>) ''gw'' ''kasa:AA'') = w_effects staffed_world"
  by code_simp

lemma assignments_append:
  "assignments (d\<lparr>plugs := plugs d @ [p]\<rparr>) g =
     assignments d g @ (if pl_gateway_id p = g then (case pl_unique_id p of None \<Rightarrow> [] | Some u \<Rightarrow> [(u, pl_id p)]) else [])"
  by (simp add: assignments_def gateway_plugs_def List.map_filter_simps List.map_filter_def split: option.split)

lemma assigned_identities: "u \<in> fst ` set (assignments d g) \<longleftrightarrow> (\<exists>p \<in> set (gateway_plugs d g). pl_unique_id p = Some u)"
  by (auto simp: assignments_def List.map_filter_def image_iff)

lemma grows_refl: "grows cfg g d d"
  by (simp add: grows_def)

lemma grows_trans: "grows cfg g d1 d2 \<Longrightarrow> grows cfg g d2 d3 \<Longrightarrow> grows cfg g d1 d3"
  unfolding grows_def by (auto intro: keeps_trans)

lemma discovery_grows: "grows cfg g (w_db w) (w_db (handle_gateway_plug_discovery cfg now w g u))"
proof (cases rule: persist_discovery_cases [of cfg now w g u])
  case (added uid)
  let ?p = "new_plug now (w_db w) g None (Some (take 128 uid))"
  have "take 128 uid \<notin> fst ` set (assignments (w_db w) g)"
    using added(2) by (auto simp: assigned_identities filter_empty_conv)
  then have "identities_ok (w_db w) g \<Longrightarrow> identities_ok ((w_db w)\<lparr>plugs := plugs (w_db w) @ [?p]\<rparr>) g"
    by (auto simp: identities_ok_def assignments_append)
  moreover have "0 \<le> DEFAULT_PLUG_CAP_A cfg \<Longrightarrow> keeps cfg (w_db w) ((w_db w)\<lparr>plugs := plugs (w_db w) @ [?p]\<rparr>)"
    by (rule add_plug_keeps) simp_all
  ultimately show ?thesis
    using added(3) unfolding added(4) by (simp add: grows_def assignments_append gateway_plugs_def)
qed (simp add: grows_refl)

interpretation discovery: transition_invariant "\<lambda>w. w = w0" "discovery_step cfg g" "\<lambda>w. grows cfg g (w_db w0) (w_db w)"
  for w0 cfg g
  by unfold_locales (auto elim!: discovery_step.cases intro: grows_refl grows_trans discovery_grows)

subsection \<open>Maintenance\<close>

lemma maintenance_cases:
  assumes "cpo_plug_maintenance w user p action = (w', r)"
  obtains (refused) err where "r = Inl err" "w' = w"
  | (set) plug st where "r = Inr st" "tenant_plug (w_db w) user p = Some plug"
      "st = AVAILABLE \<Longrightarrow> \<not> exists_row (\<lambda>s. cs_plug_id s = p \<and> cs_status s = ACTIVE) (charging_sessions (w_db w))"
      "st = AVAILABLE \<or> st = MAINTENANCE"
      "\<exists>w1. w_db w1 = upd_plug p (\<lambda>p. p\<lparr>pl_status := st\<rparr>) (w_db w)
        \<and> (w_db w' = w_db w1 \<or> w_db w' = w_db (fst (notify_watchers_plug_available w1 (plug\<lparr>pl_status := st\<rparr>) None)))"
proof (cases "r")
  case (Inl err)
  with assms have "w' = w"
    by (auto simp: cpo_plug_maintenance_def Let_def split: sum.splits if_splits option.splits)
  with Inl show ?thesis by (rule refused)
next
  case (Inr st)
  with assms obtain plug where plug: "tenant_plug (w_db w) user p = Some plug"
    by (auto simp: cpo_plug_maintenance_def Let_def split: sum.splits if_splits option.splits)
  show ?thesis
  proof (rule set [OF Inr plug])
    show "st = AVAILABLE \<Longrightarrow> \<not> exists_row (\<lambda>s. cs_plug_id s = p \<and> cs_status s = ACTIVE) (charging_sessions (w_db w))"
      "st = AVAILABLE \<or> st = MAINTENANCE"
      using assms Inr plug by (auto simp: cpo_plug_maintenance_def Let_def split: sum.splits if_splits)
    show "\<exists>w1. w_db w1 = upd_plug p (\<lambda>p. p\<lparr>pl_status := st\<rparr>) (w_db w)
        \<and> (w_db w' = w_db w1 \<or> w_db w' = w_db (fst (notify_watchers_plug_available w1 (plug\<lparr>pl_status := st\<rparr>) None)))"
      using assms Inr plug
      by (intro exI [of _ "emit [Emit_Plug_Status p st] (w\<lparr>w_db := upd_plug p (\<lambda>p. p\<lparr>pl_status := st\<rparr>) (w_db w)\<rparr>)"])
        (auto simp: cpo_plug_maintenance_def Let_def split: sum.splits if_splits)
  qed
qed

lemma maintenance_keeps:
  assumes "cpo_plug_maintenance w user p action = (w', r)"
  shows "keeps cfg (w_db w) (w_db w')" "charging_sessions (w_db w') = charging_sessions (w_db w)"
    "q \<noteq> p \<Longrightarrow> row_by pl_id q (plugs (w_db w')) = row_by pl_id q (plugs (w_db w))"
proof -
  have "keeps cfg (w_db w) (w_db w') \<and> charging_sessions (w_db w') = charging_sessions (w_db w)
    \<and> (q \<noteq> p \<longrightarrow> row_by pl_id q (plugs (w_db w')) = row_by pl_id q (plugs (w_db w)))"
    using assms
  proof (cases rule: maintenance_cases)
    case (set plug st)
    from set(5) obtain w1 where w1: "w_db w1 = upd_plug p (\<lambda>p. p\<lparr>pl_status := st\<rparr>) (w_db w)"
      "w_db w' = w_db w1 \<or> w_db w' = w_db (fst (notify_watchers_plug_available w1 (plug\<lparr>pl_status := st\<rparr>) None))" by blast
    have "keeps cfg (w_db w) (w_db w1)"
      unfolding w1(1) upd_plug_def
      by (rule plug_rows_keeps) (use set(3) in \<open>auto simp: cap_row_def exists_row_iff\<close>)
    moreover have "keeps cfg (w_db w1) (w_db w')"
      using w1(2) by (auto intro!: keeps_frame simp: queue_ok_def calendar_ok_def dest: platform_okD(5,8))
    moreover have "plugs (w_db w') = plugs (w_db w1)" "charging_sessions (w_db w') = charging_sessions (w_db w1)"
      using w1(2) by auto
    moreover have "row_by pl_id q (plugs (w_db w1)) = row_by pl_id q (plugs (w_db w))" if "q \<noteq> p"
      using that by (cases "row_by pl_id q (plugs (w_db w))") (auto simp: w1(1) row_by_update_where dest: row_by_SomeD)
    ultimately show ?thesis using w1(1) by (auto intro: keeps_trans)
  qed simp
  then show "keeps cfg (w_db w) (w_db w')" "charging_sessions (w_db w') = charging_sessions (w_db w)"
    "q \<noteq> p \<Longrightarrow> row_by pl_id q (plugs (w_db w')) = row_by pl_id q (plugs (w_db w))" by blast+
qed

lemma maintenance_result:
  assumes "cpo_plug_maintenance w user p action = (w', r)"
  shows "case r of Inl _ \<Rightarrow> w' = w
    | Inr st \<Rightarrow> (\<exists>plug. row_by pl_id p (plugs (w_db w')) = Some plug \<and> pl_status plug = st)
        \<and> (st = AVAILABLE \<longrightarrow> (\<forall>s \<in> set (charging_sessions (w_db w')). cs_plug_id s = p \<longrightarrow> cs_status s \<noteq> ACTIVE))"
  using assms
proof (cases rule: maintenance_cases)
  case (set plug st)
  have "plug \<in> set (plugs (w_db w)) \<and> pl_id plug = p" using set(2) by (auto simp: tenant_plug_def dest: find_SomeD)
  then have "row_by pl_id p (plugs (w_db w)) \<noteq> None" by (auto simp: row_by_None_iff)
  then obtain row where row: "row_by pl_id p (plugs (w_db w)) = Some row" by blast
  have "plugs (w_db w') = update_where (\<lambda>r. pl_id r = p) (\<lambda>p. p\<lparr>pl_status := st\<rparr>) (plugs (w_db w))"
    using set(5) by auto
  then have "row_by pl_id p (plugs (w_db w')) = Some (row\<lparr>pl_status := st\<rparr>)"
    using row row_by_SomeD [OF row] by (simp add: row_by_update_where)
  then show ?thesis using set(1,3) maintenance_keeps(2) [OF assms] by (auto simp: exists_row_iff)
qed simp

subsection \<open>Claims\<close>

lemma claim_InrD:
  assumes "cpo_claim_gateway now d user code = (d', Inr g)"
  obtains gw where "operator_tenant user = Inr (the (us_tenant_id user))" "us_tenant_id user \<noteq> None"
    "row_by gw_claim_code (Some (normalize_claim_code code)) (gateways d) = Some gw" "gw_id gw = g"
    "d' = d\<lparr>gateways := update_where (\<lambda>x. gw_id x = g)
       (\<lambda>x. x\<lparr>gw_tenant_id := us_tenant_id user, gw_claimed_at := Some now\<rparr>) (gateways d)\<rparr>"
  using assms
  by (auto simp: cpo_claim_gateway_def split: sum.splits option.splits if_splits dest!: operator_tenant_InrD)

lemma claim_used:
  assumes "cpo_claim_gateway now d user code = (d', Inr g)" "normalize_claim_code code' = normalize_claim_code code"
    "operator_tenant user' = Inr t"
  shows "cpo_claim_gateway now' d' user' code' = (d', Inl CLAIM_NOT_FOUND)"
  using assms(1)
  by (rule claim_InrD) (simp add: cpo_claim_gateway_def assms(2,3) row_by_update_where)

lemma claim_unknown:
  "operator_tenant user = Inr t \<Longrightarrow> Some (normalize_claim_code code) \<notin> gw_claim_code ` set (gateways d) \<Longrightarrow>
     cpo_claim_gateway now d user code = (d, Inl CLAIM_NOT_FOUND)"
  by (simp add: cpo_claim_gateway_def row_by_None_iff [THEN iffD2])

lemma claim_unknown_after:
  "cpo_claim_gateway now d user code = (d', Inr g) \<Longrightarrow> gw_claim_code ` set (gateways d') = gw_claim_code ` set (gateways d)"
  by (erule claim_InrD) (simp add: map_update_where flip: set_map)

lemma claim_binds:
  assumes "cpo_claim_gateway now d user code = (d', Inr g)"
  shows "\<exists>gw. row_by gw_id g (gateways d') = Some gw \<and> gw_tenant_id gw = us_tenant_id user \<and> gw_claimed_at gw = Some now"
    "\<forall>h. h \<noteq> g \<longrightarrow> row_by gw_id h (gateways d') = row_by gw_id h (gateways d)"
proof -
  from assms obtain gw where gw: "row_by gw_claim_code (Some (normalize_claim_code code)) (gateways d) = Some gw" "gw_id gw = g"
    "d' = d\<lparr>gateways := update_where (\<lambda>x. gw_id x = g)
       (\<lambda>x. x\<lparr>gw_tenant_id := us_tenant_id user, gw_claimed_at := Some now\<rparr>) (gateways d)\<rparr>" by (rule claim_InrD)
  have "row_by gw_id g (gateways d) \<noteq> None" using row_by_SomeD [OF gw(1)] gw(2) by (auto simp: row_by_None_iff)
  then obtain row where row: "row_by gw_id g (gateways d) = Some row" by blast
  then show "\<exists>gw. row_by gw_id g (gateways d') = Some gw \<and> gw_tenant_id gw = us_tenant_id user \<and> gw_claimed_at gw = Some now"
    using row_by_SomeD [OF row] by (simp add: gw(3) row_by_update_where)
  show "\<forall>h. h \<noteq> g \<longrightarrow> row_by gw_id h (gateways d') = row_by gw_id h (gateways d)"
  proof (intro allI impI)
    fix h assume "h \<noteq> g"
    then show "row_by gw_id h (gateways d') = row_by gw_id h (gateways d)"
      by (cases "row_by gw_id h (gateways d)") (auto simp: gw(3) row_by_update_where dest: row_by_SomeD)
  qed
qed

text \<open>
  The general status setter has no such guard: handing an occupied plug back as available leaves a
  running session on a free plug.
\<close>

lemma status_override_frees_occupied_plug:
  "occupancy_ok (w_db staffed_world)
     \<and> \<not> occupancy_ok (w_db (fst (cpo_update_plug staffed_world sample_manager 1
         \<lparr>pu_group_id = None, pu_status = Some ''available'', pu_max_current_a = None, pu_queued_charging_enabled = None,
          pu_auto_start_delay_min = None\<rparr>)))"
  by code_simp

subsection \<open>Properties\<close>

text \<open>
  C39. The search for an access code ends.  Once it has drawn more distinct codes than there are groups,
  the loop has found an unused one: an operator's new private group is created with a code nobody
  else's group has, and codes stay unique.
\<close>

theorem access_code_search_ends:
  assumes draws: "distinct draws" "length (charger_groups d) < length draws"
    and user: "operator_tenant user = Inr tenant" and codes: "distinct (used_codes d)"
  shows "\<exists>d' grp code. cpo_create_group d user False draws = Some (d', Inr grp)
    \<and> cg_access_code grp = Some code \<and> code \<in> set draws \<and> code \<notin> set (used_codes d)
    \<and> used_codes d' = used_codes d @ [code] \<and> distinct (used_codes d')
    \<and> charger_groups d' = charger_groups d @ [grp] \<and> cg_tenant_id grp = tenant"
proof -
  from draws obtain code rest where code: "generate_unique_access_code d draws = Some (code, rest)" by (rule access_code_exists)
  have "used_codes (d\<lparr>charger_groups := charger_groups d @ [grp]\<rparr>) = used_codes d @ [code]" if "cg_access_code grp = Some code" for grp
    using that by (simp add: used_codes_def List.map_filter_def)
  with access_code_fresh [OF code] codes code show ?thesis by (simp add: cpo_create_group_def user Let_def)
qed

theorem access_code_search_ends_witness:
  "\<exists>d' grp. cpo_create_group sample_grounds sample_manager False [''ABCD1234'', ''WXYZ5678''] = Some (d', Inr grp)
     \<and> distinct (used_codes d')"
proof -
  have pre: "distinct [''ABCD1234'', ''WXYZ5678'']" "length (charger_groups sample_grounds) < length [''ABCD1234'', ''WXYZ5678'']"
    "operator_tenant sample_manager = Inr 1" "distinct (used_codes sample_grounds)" by code_simp+
  from access_code_search_ends [OF pre] show ?thesis by blast
qed

text \<open>
  C40. Joining is undone by leaving.  A join with an access code opens the plugs of that group to that
  driver, who had no access to them before, and changes nobody else's access and no other plug's;
  leaving the group afterwards restores the database exactly.
\<close>

theorem join_then_leave:
  assumes ids: "distinct (map cg_id (charger_groups d))" and join: "join_group d u code = (d', Inr g)"
  shows "leave_group d' u g = (d, Inr g)
    \<and> (\<forall>v p. user_can_access_plug d' v p = (if v = u \<and> pl_group_id p = Some g then Inr True else user_can_access_plug d v p))
    \<and> (\<forall>p. pl_group_id p = Some g \<longrightarrow> user_can_access_plug d u p = Inr False)"
proof -
  from join obtain grp where grp: "grp \<in> set (charger_groups d)" "cg_id grp = g" "\<not> cg_is_public grp"
    "filter (is_member u g) (memberships d) = []" "d' = d\<lparr>memberships := memberships d @ [\<lparr>gm_user_id = u, gm_group_id = g\<rparr>]\<rparr>"
    by (rule join_groupD)
  have "filter (\<lambda>m. \<not> is_member u g m) (memberships d) = memberships d" using grp(4) by (auto simp: filter_empty_conv filter_id_conv)
  then have "leave_group d' u g = (d, Inr g)"
    using grp(4) by (simp add: leave_group_def membership_of_def grp(5) is_member_def)
  moreover note access = join_access [OF ids grp(1,3), unfolded grp(2), OF grp(4,5)]
  ultimately show ?thesis using access by blast
qed

theorem join_then_leave_witness:
  "leave_group (fst (join_group sample_grounds 1 ''ABCD1234'')) 1 5 = (sample_grounds, Inr 5)
     \<and> fst (join_group sample_grounds 1 ''ABCD1234'') \<noteq> sample_grounds"
proof -
  have "distinct (map cg_id (charger_groups sample_grounds))" by code_simp
  moreover have "join_group sample_grounds 1 ''ABCD1234'' = (fst (join_group sample_grounds 1 ''ABCD1234''), Inr 5)"
    by (simp add: join_group_def membership_of_def sample_grounds_def sample_site_def empty_db_def)
  ultimately have "leave_group (fst (join_group sample_grounds 1 ''ABCD1234'')) 1 5 = (sample_grounds, Inr 5)"
    using join_then_leave by blast
  moreover have "memberships (fst (join_group sample_grounds 1 ''ABCD1234'')) \<noteq> memberships sample_grounds" by code_simp
  ultimately show ?thesis by metis
qed

text \<open>
  C21. Clearing maintenance never frees a plug in use.  The maintenance action of an operator keeps the
  platform invariant and every session, changes no other plug, and does nothing at all when it is
  refused; a plug becomes available only when no active session is on it.
\<close>

theorem maintenance_keeps_platform:
  assumes "platform_ok cfg (w_db w)" "cpo_plug_maintenance w user p action = (w', r)"
  shows "platform_ok cfg (w_db w') \<and> drift (w_db w') = drift (w_db w)
    \<and> charging_sessions (w_db w') = charging_sessions (w_db w)
    \<and> (\<forall>q. q \<noteq> p \<longrightarrow> row_by pl_id q (plugs (w_db w')) = row_by pl_id q (plugs (w_db w)))
    \<and> (case r of Inl _ \<Rightarrow> w' = w
       | Inr st \<Rightarrow> (\<exists>plug. row_by pl_id p (plugs (w_db w')) = Some plug \<and> pl_status plug = st)
           \<and> (st = AVAILABLE \<longrightarrow> (\<forall>s \<in> set (charging_sessions (w_db w')). cs_plug_id s = p \<longrightarrow> cs_status s \<noteq> ACTIVE)))"
  using maintenance_keeps(1) [OF assms(2), of cfg] maintenance_keeps(2,3) [OF assms(2)] maintenance_result [OF assms(2)] assms(1)
  by (auto simp: keeps_def)

theorem maintenance_keeps_platform_witness:
  "cpo_plug_maintenance staffed_world sample_manager 1 '' Clear'' =
     (staffed_world, Inl (HTTPException 409 ''Cannot clear maintenance: this plug has an active charging session.''))
   \<and> platform_ok default_config (w_db (fst (cpo_plug_maintenance staffed_world sample_manager 1 ''enter'')))"
proof -
  have ok: "platform_ok default_config (w_db staffed_world)" by code_simp
  have "snd (cpo_plug_maintenance staffed_world sample_manager 1 '' Clear'') =
      Inl (HTTPException 409 ''Cannot clear maintenance: this plug has an active charging session.'')" by code_simp
  then have "cpo_plug_maintenance staffed_world sample_manager 1 '' Clear'' = (fst (cpo_plug_maintenance staffed_world sample_manager 1 '' Clear''),
      Inl (HTTPException 409 ''Cannot clear maintenance: this plug has an active charging session.''))" by (metis prod.collapse)
  with maintenance_keeps_platform [OF ok this] maintenance_keeps_platform
    [OF ok, of sample_manager 1 "''enter''" "fst (cpo_plug_maintenance staffed_world sample_manager 1 ''enter'')"
       "snd (cpo_plug_maintenance staffed_world sample_manager 1 ''enter'')"]
  show ?thesis by simp
qed

text \<open>
  C22. A claim code is good for one claim.  A successful claim binds the gateway to the caller's tenant;
  from then on every operator who presents the code, however spaced or cased, gets the answer
  that an unknown code gets, and no gateway changes.
\<close>

theorem claim_code_used_once:
  assumes first_claim: "cpo_claim_gateway now d user code = (d', Inr g)"
    and again: "normalize_claim_code code' = normalize_claim_code code" and op: "operator_tenant user' = Inr t"
    and unknown: "Some (normalize_claim_code wrong) \<notin> gw_claim_code ` set (gateways d)"
  shows "cpo_claim_gateway now' d' user' code' = (d', Inl CLAIM_NOT_FOUND)
    \<and> cpo_claim_gateway now' d' user' wrong = (d', Inl CLAIM_NOT_FOUND)
    \<and> (\<exists>gw. row_by gw_id g (gateways d') = Some gw \<and> gw_tenant_id gw = us_tenant_id user \<and> gw_claimed_at gw = Some now)
    \<and> (\<forall>h. h \<noteq> g \<longrightarrow> row_by gw_id h (gateways d') = row_by gw_id h (gateways d))"
  using claim_used [OF first_claim again op] claim_unknown [OF op, where code = wrong and d = d' and now = now'] claim_unknown_after [OF first_claim] unknown
    claim_binds [OF first_claim] by simp

theorem claim_code_used_once_witness:
  "cpo_claim_gateway 9 (fst (cpo_claim_gateway 8 sample_grounds sample_manager ''k7-qx'')) sample_manager '' K7 QX ''
     = (fst (cpo_claim_gateway 8 sample_grounds sample_manager ''k7-qx''), Inl CLAIM_NOT_FOUND)"
proof -
  have "snd (cpo_claim_gateway 8 sample_grounds sample_manager ''k7-qx'') = Inr ''spare''" by code_simp
  then have c: "cpo_claim_gateway 8 sample_grounds sample_manager ''k7-qx'' =
      (fst (cpo_claim_gateway 8 sample_grounds sample_manager ''k7-qx''), Inr ''spare'')" by (metis prod.collapse)
  have n: "normalize_claim_code '' K7 QX '' = normalize_claim_code ''k7-qx''" by code_simp
  have o1: "operator_tenant sample_manager = Inr 1" by code_simp
  have u: "Some (normalize_claim_code ''zzz'') \<notin> gw_claim_code ` set (gateways sample_grounds)" by code_simp
  from claim_code_used_once [OF c n o1 u, where now' = 9] show ?thesis by blast
qed

text \<open>
  C20. Discovery is bounded and stable when the announcements of a gateway are handled one at a time.
  However many of them its agent sends, with whatever identities, the plugs of that gateway never
  exceed the cap (or what they already were), an identity never gets two plugs, an identity that was
  assigned a plug keeps it, the plugs of every other gateway are untouched and the platform
  invariant holds.  The code does not serialise them: \<open>discovery_insert_race\<close> shows what two
  overlapping announcements do to the cap and to the identity.
\<close>

theorem discovery_bounded:
  assumes run: "reachable (\<lambda>w. w = w0) (discovery_step cfg g) w"
    and init: "platform_ok cfg (w_db w0)" "identities_ok (w_db w0) g" "0 \<le> DEFAULT_PLUG_CAP_A cfg"
  shows "platform_ok cfg (w_db w) \<and> identities_ok (w_db w) g
    \<and> int (length (gateway_plugs (w_db w) g)) \<le> max (int (length (gateway_plugs (w_db w0) g))) (MAX_PLUGS_PER_GATEWAY cfg)
    \<and> (\<forall>u p. (u, p) \<in> set (assignments (w_db w0) g) \<longrightarrow> map_of (assignments (w_db w) g) u = Some p)
    \<and> (\<forall>h. h \<noteq> g \<longrightarrow> gateway_plugs (w_db w) h = gateway_plugs (w_db w0) h)"
proof -
  note * = discovery.inv_reachable [OF run]
  then have ids: "identities_ok (w_db w) g" using init(2) by (simp add: grows_def)
  from * obtain new where "assignments (w_db w) g = assignments (w_db w0) g @ new" by (auto simp: grows_def)
  then have "\<forall>u p. (u, p) \<in> set (assignments (w_db w0) g) \<longrightarrow> map_of (assignments (w_db w) g) u = Some p"
    using ids by (auto simp: identities_ok_def intro!: map_of_is_SomeI)
  with * ids init show ?thesis by (simp add: grows_def keeps_def)
qed

theorem discovery_bounded_witness:
  "platform_ok default_config (w_db (handle_gateway_plug_discovery default_config 7 staffed_world ''gw'' (Some ''kasa:AA'')))
     \<and> identities_ok (w_db (handle_gateway_plug_discovery default_config 7 staffed_world ''gw'' (Some ''kasa:AA''))) ''gw''
     \<and> assignments (w_db (handle_gateway_plug_discovery default_config 7 staffed_world ''gw'' (Some ''kasa:AA''))) ''gw'' = [(''kasa:AA'', 2)]"
proof -
  let ?w = "handle_gateway_plug_discovery default_config 7 staffed_world ''gw'' (Some ''kasa:AA'')"
  have pre: "platform_ok default_config (w_db staffed_world)" "identities_ok (w_db staffed_world) ''gw''" "0 \<le> DEFAULT_PLUG_CAP_A default_config"
    by code_simp+
  have "reachable (\<lambda>w. w = staffed_world) (discovery_step default_config ''gw'') ?w"
    by (rule reachable.extend [of _ _ staffed_world]) (auto intro: reachable.start announced)
  from discovery_bounded [OF this pre] have "platform_ok default_config (w_db ?w)" "identities_ok (w_db ?w) ''gw''" by blast+
  moreover have "assignments (w_db ?w) ''gw'' = [(''kasa:AA'', 2)]" by code_simp
  ultimately show ?thesis by blast
qed

end
