(* ===== verification/Operator_Edits.thy ===== *)
theory Operator_Edits
  imports Sites
begin

text \<open>
  What the unguarded edits of operators need to keep the platform invariant.  The editors of plugs
  and groups (\<open>backend/routers/cpo/_plugs.py\<close>, \<open>_groups.py\<close>) look at neither the running sessions nor
  the load of a circuit.  \<open>edit_harmless\<close> and \<open>cap_fits\<close> are the conditions under which they are
  safe; \<open>status_override_frees_occupied_plug\<close> and \<open>lowered_cap_overloads\<close> show that leaving them out
  is not.
\<close>

subsection \<open>Definitions\<close>

definition plug_idle :: "db \<Rightarrow> int \<Rightarrow> bool" where
  "plug_idle d i \<longleftrightarrow> \<not> exists_row (\<lambda>s. cs_plug_id s = i \<and> cs_status s = ACTIVE) (charging_sessions d)"

text \<open>A cap that the schema admits; on a plug in use neither the circuit, the cap nor the claim is edited.\<close>

definition edit_harmless :: "db \<Rightarrow> int \<Rightarrow> plug_update \<Rightarrow> bool" where
  "edit_harmless d i req \<longleftrightarrow>
     (case pu_max_current_a req of None \<Rightarrow> True | Some a \<Rightarrow> 0 \<le> a)
   \<and> (plug_idle d i \<or> pu_group_id req = None \<and> pu_max_current_a req = None \<and> pu_status req \<noteq> Some ''available'')"

text \<open>The id is the primary key of groups, and a new cap leaves room for the load that is running.\<close>

definition cap_fits :: "config \<Rightarrow> db \<Rightarrow> int \<Rightarrow> pyfloat option \<Rightarrow> bool" where
  "cap_fits cfg d group_id max_current_a \<longleftrightarrow>
     distinct (map cg_id (charger_groups d))
   \<and> (case max_current_a of None \<Rightarrow> True
      | Some a \<Rightarrow> a = 0 \<or> circuit_load_a cfg d group_id None \<le> fadd a ADMISSION_EPS)"

text \<open>A running session on the only plug of a circuit limited to 32 amperes.\<close>

definition capped_world :: world where
  "capped_world = staffed_world\<lparr>w_db := (w_db staffed_world)\<lparr>
     plugs := [sample_free_plug\<lparr>pl_status := OCCUPIED, pl_group_id := Some 5\<rparr>],
     charger_groups := [\<lparr>cg_id = 5, cg_tenant_id = 1, cg_is_public = True, cg_access_code = None, cg_tariff_id = None,
       cg_max_current_a = Some 32\<rparr>]\<rparr>\<rparr>"

lemma lowered_cap_overloads:
  "platform_ok default_config (w_db capped_world)
   \<and> (case cpo_update_group default_config capped_world sample_manager 5 None False (Some 1) [] of
        None \<Rightarrow> False | Some (w', _) \<Rightarrow> \<not> circuit_ok default_config (w_db w'))"
  by code_simp

subsection \<open>Plugs\<close>

lemma other_rows:
  assumes "pl_id q = pl_id p" "i \<noteq> pl_id p"
  shows "row_by pl_id i (update_where (\<lambda>r. r = p) (\<lambda>_. q) ps) = row_by pl_id i ps"
  using assms by (induction ps) (auto simp: row_by_Cons)

lemma idle_plug_keeps:
  assumes idle: "plug_idle d (pl_id p)" and q: "pl_id q = pl_id p" "0 \<le> effective_plug_cap cfg p \<Longrightarrow> 0 \<le> effective_plug_cap cfg q"
    and p: "p \<in> set (plugs d)"
  shows "keeps cfg d (d\<lparr>plugs := update_where (\<lambda>r. r = p) (\<lambda>_. q) (plugs d)\<rparr>)" (is "keeps cfg d ?d")
  unfolding keeps_def
proof
  assume ok: "platform_ok cfg d"
  note parts = platform_okD [OF ok]
  have sys: "occupancy_ok d" "circuit_ok cfg d" "caps_sane cfg d" using parts(1) by (simp_all add: system_ok_def)
  have away: "cs_plug_id s \<noteq> pl_id p" if "s \<in> set (charging_sessions d)" "cs_status s = ACTIVE" for s
    using idle that by (auto simp: plug_idle_def exists_row_iff)
  have rows: "row_by pl_id (cs_plug_id s) (plugs ?d) = row_by pl_id (cs_plug_id s) (plugs d)"
    if "s \<in> set (charging_sessions d)" "cs_status s = ACTIVE" for s
    using other_rows [OF q(1) away [OF that]] by simp
  have act: "active_group_plugs ?d g e = active_group_plugs d g e" for g e
    unfolding active_group_plugs_def by (simp, rule map_filter_cong) (use rows in simp)
  have load: "circuit_load_a cfg ?d g None = circuit_load_a cfg d g None" and gcap: "group_cap ?d g = group_cap d g" for g
    by (simp_all add: circuit_load_a_def act group_cap_def)
  have sets: "r \<in> set (plugs d) \<or> pl_id r = pl_id p" if "r \<in> set (plugs ?d)" for r
    using that q(1) by (auto simp: set_update_where)
  have "circuit_ok cfg ?d" using sys(2) unfolding circuit_ok_def load gcap by simp
  moreover have "charging_sessions ?d = charging_sessions d" by simp
  then have "occupancy_ok ?d" using sys(1) sets away unfolding occupancy_ok_iff by metis
  moreover have "caps_sane cfg ?d" using sys(3) q(2) p by (auto simp: caps_sane_def list_all_iff set_update_where)
  moreover have "money_ok ?d"
    by (rule money_ok_deactivate [OF parts(2), of _ "\<lambda>_. False" id]) (use q(1) in \<open>simp_all add: map_update_where update_where_def\<close>)
  moreover have "drift ?d = drift d" by (rule drift_cong) simp_all
  ultimately show "platform_ok cfg ?d \<and> drift ?d = drift d"
    using parts by (simp add: platform_ok_def system_ok_def calendar_ok_def sessions_sane_def prices_ok_def rates_ok_def queue_ok_def)
qed

lemma edit_result:
  assumes "edit_group d user (pu_group_id req) p = Inr p1" "edit_status (pu_status req) p1 = Inr p2"
  shows "pl_id (edit_settings req p2) = pl_id p"
    "pu_group_id req = None \<Longrightarrow> pu_max_current_a req = None \<Longrightarrow> cap_row (edit_settings req p2) = cap_row p"
    "pu_status req \<noteq> Some ''available'' \<Longrightarrow> pl_status (edit_settings req p2) = AVAILABLE \<Longrightarrow> pl_status p = AVAILABLE"
    "pl_max_current_a (edit_settings req p2) =
       (case pu_max_current_a req of None \<Rightarrow> pl_max_current_a p | Some a \<Rightarrow> if a = 0 then None else Some a)"
  using assms by (auto simp: edit_group_def edit_status_def edit_settings_def cap_row_def split: option.splits if_splits)

lemma update_plug_cases:
  assumes "edit_harmless (w_db w) i req"
  obtains (refused) "fst (cpo_update_plug w user i req) = w"
  | (edited) p p1 p2 where "p \<in> set (plugs (w_db w))" "pl_id p = i" "edit_group (w_db w) user (pu_group_id req) p = Inr p1"
      "edit_status (pu_status req) p1 = Inr p2"
      "w_db (fst (cpo_update_plug w user i req)) = upd_plug i (\<lambda>_. edit_settings req p2) (w_db w)"
proof (cases "\<exists>r. snd (cpo_update_plug w user i req) = Inr r")
  case True
  then obtain p p1 p2 where p: "tenant_plug (w_db w) user i = Some p" "edit_group (w_db w) user (pu_group_id req) p = Inr p1"
      "edit_status (pu_status req) p1 = Inr p2"
    by (auto simp: cpo_update_plug_def split: sum.splits option.splits)
  have "w_db (fst (cpo_update_plug w user i req)) = upd_plug i (\<lambda>_. edit_settings req p2) (w_db w)"
    using True p by (auto simp: cpo_update_plug_def Let_def split: sum.splits)
  moreover have "p \<in> set (plugs (w_db w))" "pl_id p = i" using p(1) by (auto simp: tenant_plug_def dest: find_SomeD)
  ultimately show thesis using p(2,3) edited by blast
next
  case False
  then have "fst (cpo_update_plug w user i req) = w"
    by (auto simp: cpo_update_plug_def Let_def split: sum.splits option.splits)
  then show thesis by (rule refused)
qed

lemma update_plug_keeps:
  assumes harmless: "edit_harmless (w_db w) i req" and default: "0 \<le> DEFAULT_PLUG_CAP_A cfg"
  shows "keeps cfg (w_db w) (w_db (fst (cpo_update_plug w user i req)))"
    "charging_sessions (w_db (fst (cpo_update_plug w user i req))) = charging_sessions (w_db w)"
proof -
  have "keeps cfg (w_db w) (w_db (fst (cpo_update_plug w user i req)))
    \<and> charging_sessions (w_db (fst (cpo_update_plug w user i req))) = charging_sessions (w_db w)"
  proof (cases rule: update_plug_cases [OF harmless, of user, case_names refused edited])
    case (edited p p1 p2)
    let ?q = "edit_settings req p2" and ?d = "w_db w"
    note q = edit_result [OF edited(3,4)]
    have "keeps cfg ?d (d'\<lparr>plugs := update_where (\<lambda>r. r = p) (\<lambda>_. ?q) (plugs d')\<rparr>)" if "d' = ?d" for d'
    proof (cases "plug_idle ?d i")
      case True
      have "0 \<le> effective_plug_cap cfg ?q" if "0 \<le> effective_plug_cap cfg p"
        using that harmless default by (auto simp: effective_plug_cap_def q(4) edit_harmless_def split: option.splits)
      then show ?thesis unfolding that using True edited(1,2) q(1) by (intro idle_plug_keeps) simp_all
    next
      case False
      then have "cap_row ?q = cap_row p" "pl_status ?q = AVAILABLE \<Longrightarrow> pl_status p = AVAILABLE"
        using harmless q(2,3) by (auto simp: edit_harmless_def)
      then show ?thesis unfolding that by (intro plug_rows_keeps) auto
    qed
    moreover have "upd_plug i (\<lambda>_. ?q) ?d = ?d\<lparr>plugs := update_where (\<lambda>r. r = p) (\<lambda>_. ?q) (plugs ?d)\<rparr>" if "platform_ok cfg ?d"
      using update_where_key [of pl_id "plugs ?d" p "\<lambda>_. ?q"] platform_okD(3) [OF that] edited(1,2)
      by (simp add: keys_ok_def upd_plug_def)
    ultimately show ?thesis unfolding edited(5) keeps_def by auto
  qed simp
  then show "keeps cfg (w_db w) (w_db (fst (cpo_update_plug w user i req)))"
    "charging_sessions (w_db (fst (cpo_update_plug w user i req))) = charging_sessions (w_db w)" by blast+
qed

subsection \<open>Groups\<close>

lemma regroup_keeps:
  assumes same: "users d' = users d" "ledger d' = ledger d" "charging_sessions d' = charging_sessions d" "tariffs d' = tariffs d"
      "tariff_slots d' = tariff_slots d" "queued_charges d' = queued_charges d" "reservations d' = reservations d"
    and plugs: "plugs d' = update_where P (\<lambda>p. p\<lparr>pl_group_id := g\<rparr>) (plugs d)"
    and circuit: "platform_ok cfg d \<Longrightarrow> circuit_ok cfg d'"
  shows "keeps cfg d d'"
proof -
  have "platform_ok cfg d'" if ok: "platform_ok cfg d"
  proof -
    note parts = platform_okD [OF ok]
    have sys: "occupancy_ok d" "caps_sane cfg d" using parts(1) by (simp_all add: system_ok_def)
    have plug: "\<exists>p0 \<in> set (plugs d). pl_id p0 = pl_id p \<and> pl_status p0 = pl_status p \<and> effective_plug_cap cfg p0 = effective_plug_cap cfg p"
      if "p \<in> set (plugs d')" for p
      using that unfolding plugs set_update_where by (force simp: effective_plug_cap_def)
    have "money_ok d'"
      by (rule money_ok_deactivate [OF parts(2) same(1), of "\<lambda>_. False" id])
        (simp_all add: plugs map_update_where same(3) update_where_def)
    moreover have "occupancy_ok d'" using sys(1) plug unfolding occupancy_ok_iff same(3) by metis
    moreover have "caps_sane cfg d'" using sys(2) plug unfolding caps_sane_def list_all_iff by metis
    ultimately show ?thesis
      using parts circuit [OF ok] same
      by (simp add: platform_ok_def system_ok_def calendar_ok_def sessions_sane_def prices_ok_def rates_ok_def queue_ok_def)
  qed
  moreover have "drift d' = drift d" using same(1,2) by (rule drift_cong)
  ultimately show ?thesis by (simp add: keeps_def)
qed

lemma circuit_okI:
  assumes "\<And>i m. i \<in> cg_id ` set (charger_groups d) \<Longrightarrow> group_cap d i = Some m \<Longrightarrow> circuit_load_a cfg d i None \<le> fadd m ADMISSION_EPS"
  shows "circuit_ok cfg d"
  using assms by (auto simp: circuit_ok_def list_all_iff split: option.split)

lemma circuit_okD:
  assumes "circuit_ok cfg d" "i \<in> cg_id ` set (charger_groups d)" "group_cap d i = Some m"
  shows "circuit_load_a cfg d i None \<le> fadd m ADMISSION_EPS"
  using assms by (fastforce simp: circuit_ok_def list_all_iff)

lemma new_group_keeps:
  assumes "cpo_create_group d user is_public draws = Some (d', res)"
  shows "keeps cfg d d'" "charging_sessions d' = charging_sessions d"
proof -
  consider "d' = d" | grp where "d' = d\<lparr>charger_groups := charger_groups d @ [grp]\<rparr>" "cg_id grp = fresh_id cg_id (charger_groups d)"
      "cg_max_current_a grp = None"
    using assms by (auto simp: cpo_create_group_def Let_def split: sum.splits option.splits)
  then have "keeps cfg d d' \<and> charging_sessions d' = charging_sessions d"
  proof cases
    case (2 grp)
    have caps: "group_cap d' i = group_cap d i" if "i \<in> cg_id ` set (charger_groups d)" for i
      using that by (auto simp: 2(1) group_cap_def row_by_append row_by_None_iff split: option.split)
    have new: "group_cap d' (cg_id grp) = None"
    proof -
      have "row_by cg_id (cg_id grp) (charger_groups d) = None"
        using fresh_id_greater [of _ "charger_groups d" cg_id] by (fastforce simp: 2(2) row_by_None_iff)
      then show ?thesis by (simp add: 2(1,3) group_cap_def row_by_append row_by_Cons)
    qed
    have load: "circuit_load_a cfg d' i None = circuit_load_a cfg d i None" for i by (rule circuit_load_cong) (simp_all add: 2(1))
    have "circuit_ok cfg d'" if "platform_ok cfg d"
    proof (rule circuit_okI)
      fix i m assume i: "i \<in> cg_id ` set (charger_groups d')" "group_cap d' i = Some m"
      then have "i \<in> cg_id ` set (charger_groups d)" using new by (auto simp: 2(1))
      then show "circuit_load_a cfg d' i None \<le> fadd m ADMISSION_EPS"
        using i(2) platform_okD(1) [OF that] by (auto simp: load caps system_ok_def dest: circuit_okD)
    qed
    then have "keeps cfg d d'" by (intro regroup_keeps [where P = "\<lambda>_. False"]) (simp_all add: 2(1) update_where_def)
    then show ?thesis by (simp add: 2(1))
  qed simp
  then show "keeps cfg d d'" "charging_sessions d' = charging_sessions d" by blast+
qed

lemma visibility_fields:
  assumes "set_visibility d grp is_public draws = Some (g1, rest)" "regenerate_code d g1 regenerate rest = Some g2"
  shows "cg_id g2 = cg_id grp" "cg_max_current_a g2 = cg_max_current_a grp"
  using assms by (auto simp: set_visibility_def regenerate_code_def Let_def split: option.splits bool.splits if_splits)

lemma notify_capacity_rows:
  "w_db (fst (notify_capacity_available cfg w g ex)) =
     (w_db w)\<lparr>capacity_requests := capacity_requests (w_db (fst (notify_capacity_available cfg w g ex)))\<rparr>"
  by (auto simp: notify_capacity_available_def Let_def split: option.split)

lemma update_group_cases:
  assumes "cpo_update_group cfg w user i is_public regenerate max_current_a draws = Some (w', res)"
  obtains (refused) "w' = w"
  | (edited) grp g3 rs where "grp \<in> set (charger_groups (w_db w))" "cg_id grp = i" "cg_id g3 = i"
      "cg_max_current_a g3 = (case max_current_a of None \<Rightarrow> cg_max_current_a grp | Some a \<Rightarrow> if a = 0 then None else Some a)"
      "w_db w' = (upd_group i (\<lambda>_. g3) (w_db w))\<lparr>capacity_requests := rs\<rparr>"
proof (cases "tenant_group (w_db w) user i")
  case None
  then show thesis using assms refused by (auto simp: cpo_update_group_def split: sum.splits)
next
  case (Some grp)
  then have grp: "grp \<in> set (charger_groups (w_db w))" "cg_id grp = i" by (auto simp: tenant_group_def dest: find_SomeD)
  show thesis
  proof (cases "require_role [''cpo'', ''admin''] user")
    case (Inl err)
    then show thesis using assms refused by (auto simp: cpo_update_group_def)
  next
    case (Inr _)
    with assms Some obtain g1 rest g2 where
      g: "set_visibility (w_db w) grp is_public draws = Some (g1, rest)" "regenerate_code (w_db w) g1 regenerate rest = Some g2"
      by (auto simp: cpo_update_group_def split: option.splits prod.splits)
    define g3 where "g3 = (case max_current_a of None \<Rightarrow> g2 | Some a \<Rightarrow> g2\<lparr>cg_max_current_a := (if a = 0 then None else Some a)\<rparr>)"
    define w1 where "w1 = w\<lparr>w_db := upd_group i (\<lambda>_. g3) (w_db w)\<rparr>"
    have "w' = (if max_current_a = None then w1 else fst (notify_capacity_available cfg w1 (Some i) None))"
      using assms Some Inr g by (cases max_current_a) (auto simp: cpo_update_group_def Let_def g3_def w1_def)
    then obtain rs where "w_db w' = (w_db w1)\<lparr>capacity_requests := rs\<rparr>"
      using that [of "capacity_requests (w_db w')"] notify_capacity_rows [of cfg w1 "Some i" None] by (cases max_current_a) simp_all
    then show thesis
      using grp visibility_fields [OF g] by (intro edited [of grp g3 rs]) (auto simp: w1_def g3_def split: option.split)
  qed
qed

lemma update_group_keeps:
  assumes run: "cpo_update_group cfg w user i is_public regenerate max_current_a draws = Some (w', res)"
    and fits: "cap_fits cfg (w_db w) i max_current_a"
  shows "keeps cfg (w_db w) (w_db w')" "charging_sessions (w_db w') = charging_sessions (w_db w)"
proof -
  from run have "keeps cfg (w_db w) (w_db w') \<and> charging_sessions (w_db w') = charging_sessions (w_db w)"
  proof (cases rule: update_group_cases)
    case (edited grp g3 rs)
    let ?d = "w_db w" and ?d' = "w_db w'"
    have groups: "charger_groups ?d' = update_where (\<lambda>g. cg_id g = i) (\<lambda>_. g3) (charger_groups ?d)"
      by (simp add: edited(5) upd_group_def)
    have rows: "plugs ?d' = plugs ?d" "charging_sessions ?d' = charging_sessions ?d" by (simp_all add: edited(5) upd_group_def)
    have load: "circuit_load_a cfg ?d' j None = circuit_load_a cfg ?d j None" for j by (rule circuit_load_cong) (simp_all add: rows)
    have own: "row_by cg_id i (charger_groups ?d) = Some grp"
      using fits edited(1,2) row_by_in_set [of cg_id "charger_groups ?d" grp] by (simp add: cap_fits_def)
    have row: "row_by cg_id j (charger_groups ?d') = map_option (\<lambda>r. if cg_id r = i then g3 else r) (row_by cg_id j (charger_groups ?d))" for j
      unfolding groups by (rule row_by_update_where) (simp add: edited(3))
    have cap: "group_cap ?d' j = (if j = i then cg_max_current_a g3 else group_cap ?d j)" for j
      using own edited(2) by (cases "row_by cg_id j (charger_groups ?d)") (auto simp: group_cap_def row dest: row_by_SomeD)
    have "circuit_ok cfg ?d'" if ok: "platform_ok cfg ?d"
    proof (rule circuit_okI)
      fix j m assume j: "j \<in> cg_id ` set (charger_groups ?d')" "group_cap ?d' j = Some m"
      have old: "circuit_load_a cfg ?d j None \<le> fadd m ADMISSION_EPS" if "group_cap ?d j = Some m"
        using that j(1) edited(1-3) platform_okD(1) [OF ok]
        by (intro circuit_okD) (auto simp: groups set_update_where system_ok_def split: if_splits)
      show "circuit_load_a cfg ?d' j None \<le> fadd m ADMISSION_EPS"
      proof (cases "j = i")
        case True
        have own_cap: "group_cap ?d i = cg_max_current_a grp" by (simp add: group_cap_def own)
        have "cg_max_current_a g3 = Some m" using True j(2) by (simp add: cap)
        then show ?thesis using True old own_cap fits by (auto simp: load edited(4) cap_fits_def split: if_splits option.splits)
      qed (use j(2) old in \<open>simp add: load cap\<close>)
    qed
    then have "keeps cfg ?d ?d'"
      by (intro regroup_keeps [where P = "\<lambda>_. False"]) (simp_all add: edited(5) upd_group_def update_where_def)
    then show ?thesis using rows by simp
  qed simp
  then show "keeps cfg (w_db w) (w_db w')" "charging_sessions (w_db w') = charging_sessions (w_db w)" by blast+
qed

text \<open>Deleting a group releases its plugs from the circuit and leaves every other circuit as it was.\<close>

lemma delete_group_keeps:
  "keeps cfg d (fst (cpo_delete_group d user i))" "charging_sessions (fst (cpo_delete_group d user i)) = charging_sessions d"
proof -
  let ?d = "fst (cpo_delete_group d user i)"
  consider "?d = d" | "?d = d\<lparr>plugs := update_where (\<lambda>p. pl_group_id p = Some i) (\<lambda>p. p\<lparr>pl_group_id := None\<rparr>) (plugs d),
      memberships := filter (\<lambda>m. gm_group_id m \<noteq> i) (memberships d),
      capacity_requests := filter (\<lambda>r. cr_group_id r \<noteq> i) (capacity_requests d),
      charger_groups := filter (\<lambda>g. cg_id g \<noteq> i) (charger_groups d)\<rparr>"
    by (cases "require_role [''cpo'', ''admin''] user"; cases "tenant_group d user i") (simp_all add: cpo_delete_group_def)
  then have "keeps cfg d ?d \<and> charging_sessions ?d = charging_sessions d"
  proof cases
    case 2
    have row: "row_by pl_id j (update_where (\<lambda>p. pl_group_id p = Some i) (\<lambda>p. p\<lparr>pl_group_id := None\<rparr>) ps) =
        map_option (\<lambda>p. if pl_group_id p = Some i then p\<lparr>pl_group_id := None\<rparr> else p) (row_by pl_id j ps)" for j ps
      by (rule row_by_update_where) simp
    have "commits cfg (map cap_row (plugs ?d)) j None = commits cfg (map cap_row (plugs d)) j None" if "j \<noteq> i" for j
      using that by (auto simp: fun_eq_iff 2 commits_def row_by_cap_row row cap_row_def split: option.split)
    then have load: "circuit_load_a cfg ?d j None = circuit_load_a cfg d j None" if "j \<noteq> i" for j
      using that unfolding circuit_load_commits by (simp, simp add: 2)
    have "row_by cg_id j (filter (\<lambda>g. cg_id g \<noteq> i) gs) = row_by cg_id j gs" if "j \<noteq> i" for j and gs :: "charger_group list"
      using that by (induction gs) (auto simp: row_by_Cons)
    then have cap: "group_cap ?d j = group_cap d j" if "j \<noteq> i" for j using that by (simp add: 2 group_cap_def)
    have "circuit_ok cfg ?d" if ok: "platform_ok cfg d"
    proof (rule circuit_okI)
      fix j m assume j: "j \<in> cg_id ` set (charger_groups ?d)" "group_cap ?d j = Some m"
      then have "j \<in> cg_id ` set (charger_groups d)" "j \<noteq> i" by (auto simp: 2)
      then show "circuit_load_a cfg ?d j None \<le> fadd m ADMISSION_EPS"
        using j(2) platform_okD(1) [OF ok] by (auto simp: load cap system_ok_def dest: circuit_okD)
    qed
    then have "keeps cfg d ?d" by (intro regroup_keeps [where P = "\<lambda>p. pl_group_id p = Some i" and g = None]) (simp_all add: 2)
    then show ?thesis by (simp add: 2)
  qed simp
  then show "keeps cfg d ?d" "charging_sessions ?d = charging_sessions d" by blast+
qed

end
