(* ===== verification/System.thy ===== *)
theory System
  imports Reaper Mqtt_Telemetry Payments Disputes Operator_Edits
begin

text \<open>
  The whole platform: the operations of drivers, operators, gateways, the payment provider and the
  janitor as one step relation on the world, and what holds in every state it reaches.  \<open>covered\<close>
  says that no running session owes more than its hold; with the platform invariant a driver can
  at any moment pay for everything drawn so far.  The operations whose code checks too little to
  keep the invariant are steps with the missing check as a guard, and a lemma for each shows a
  state in which the unguarded operation breaks it.
\<close>

subsection \<open>Definitions\<close>

definition row_covered :: "config \<Rightarrow> charging_session \<Rightarrow> bool" where
  "row_covered cfg s \<longleftrightarrow> session_cost cfg s (cs_energy_kwh s) \<le> hold_of s"

definition covered :: "config \<Rightarrow> db \<Rightarrow> bool" where
  "covered cfg d \<longleftrightarrow> list_all (\<lambda>s. cs_status s = ACTIVE \<longrightarrow> row_covered cfg s) (charging_sessions d)"

definition live_ok :: "config \<Rightarrow> db \<Rightarrow> bool" where
  "live_ok cfg d \<longleftrightarrow> platform_ok cfg d \<and> covered cfg d"








subsection \<open>Composition\<close>








subsection \<open>Settlement and start\<close>







subsection \<open>The two transactions of a start\<close>




subsection \<open>The janitor\<close>

lemma session_cost_rate_valid [simp]: "session_cost cfg (s\<lparr>cs_rate_valid_until := v\<rparr>) = session_cost cfg s"
  by (simp add: fun_eq_iff session_cost_def current_rate_def settled_of_def cong: option.case_cong)










subsection \<open>Gateways\<close>












lemma status_db [simp]:
  "w_db (broadcast_plug_connectivity w g b) = w_db w" "w_db (notify_drivers_gateway_offline w g) = w_db w"
  "w_db (republish_off_for_orphaned_plugs cfg now w g alert) = w_db w"
  by (simp_all add: broadcast_plug_connectivity_def notify_drivers_gateway_offline_def republish_off_for_orphaned_plugs_def Let_def)


subsection \<open>Limits, top-ups and refunds\<close>






text \<open>A refund that is not guarded takes the coins that a running session is covered by.\<close>

lemma refund_below_holds:
  "live_ok default_config (w_db sample_world)
     \<and> \<not> holds_ok (w_db (fst (debit_refund 1 sample_world 1 80 ''rfnd'')))"
  by code_simp







subsection \<open>Prices and sites\<close>











subsection \<open>Payouts and invoices\<close>

lemma row_covered_payout [simp]: "row_covered cfg (s\<lparr>cs_settled_payout_id := v\<rparr>) = row_covered cfg s"
  by (simp add: row_covered_def hold_of_def session_cost_def current_rate_def settled_of_def cong: option.case_cong)

lemma session_sane_payout [simp]: "session_sane cfg (s\<lparr>cs_settled_payout_id := v\<rparr>) = session_sane cfg s"
  by (simp add: session_sane_def current_rate_def settled_of_def)



subsection \<open>Every state the platform reaches\<close>




subsection \<open>Properties\<close>



end
