(* ===== verification/Spec2Isabelle.thy ===== *)
theory Spec2Isabelle
  imports Rate_Limit System
begin

text \<open>
  A verification development for AmpHive, a marketplace for shared EV charging: a FastAPI
  backend over PostgreSQL, MQTT gateways that switch and meter smart plugs, and a coin wallet
  that drivers top up and operators are paid out of.

  Plan, in the order of importance: the number formats and money helpers; segmented billing and
  tariff resolution; wallet and ledger; the session life cycle; reservations and circuit limits;
  payouts, payments and invoices; rate limiting and the remaining helpers.
\<close>

end
